theory Spec2Isabelle
  imports Complex_Main "HOL-Library.Log_Nat" "HOL-Library.Word"
begin

section \<open>Binary32 arithmetic\<close>

text \<open>
  The firmware computes in C \<^verbatim>\<open>float\<close>, the binary32 format of IEEE 754, on an
  ESP32. A float is modelled as the real number it denotes. \<open>rnd x\<close> is \<open>x\<close> rounded to
  the nearest binary32 number, ties to the even significand: the significand has 24 bits,
  \<open>expo x\<close> is the binary exponent of \<open>x\<close> (\<open>2 powi expo x \<le> \<bar>x\<bar> < 2 powi (expo x + 1)\<close>),
  \<open>ulp x\<close> is the spacing of the binary32 numbers around \<open>x\<close>, and below
  \<open>2 powi (- 126)\<close> the spacing stays \<open>2 powi (- 149)\<close> (gradual underflow).
\<close>

definition round_even :: "real \<Rightarrow> int" where
  "round_even y =
     (let f = \<lfloor>y\<rfloor>; r = y - of_int f
      in if r < 1 / 2 then f
         else if r > 1 / 2 then f + 1
         else if even f then f else f + 1)"

definition expo :: "real \<Rightarrow> int" where
  "expo x = (if 1 \<le> \<bar>x\<bar> then bitlen \<lfloor>\<bar>x\<bar>\<rfloor> - 1 else - bitlen (\<lceil>1 / \<bar>x\<bar>\<rceil> - 1))"

definition ulp :: "real \<Rightarrow> real" where
  "ulp x = 2 powi (max (expo x) (- 126) - 23)"

definition rnd :: "real \<Rightarrow> real" where
  "rnd x = (if x = 0 then 0
            else if 0 < x then ulp x * of_int (round_even (x / ulp x))
            else - (ulp x * of_int (round_even (- x / ulp x))))"

text \<open>
  The type of the floats is the range of \<open>rnd\<close>; \<open>val\<close> is the real number a float
  denotes and \<open>f32 x\<close> the float nearest to \<open>x\<close>, so the literal \<^verbatim>\<open>4.01f\<close> of the
  source is \<open>f32 4.01\<close>, \<^verbatim>\<open>0.0f\<close> is \<open>0\<close>, and \<^verbatim>\<open>(float)n\<close> of an integer is \<open>f32\<close>
  of it. Every
  operation of the source is the exact operation on the values followed by one rounding,
  in the order the source writes them: no intermediate result is kept in a wider format
  and no multiplication is contracted with an addition into one fused operation.
  Comparisons compare the values and are exact, and \<^verbatim>\<open>fabs\<close> is exact. (The class of
  HOL's division asks for \<open>inverse\<close> too; the source has no use of it.)

  Not modelled: the exponent has no upper limit here, so nothing overflows, and there are
  no infinities, no NaN and no sign of zero. The one NaN the source relies on, the
  \<^verbatim>\<open>NAN\<close> that marks an unseeded smoothing filter and is tested with \<^verbatim>\<open>isnan\<close>, is
  \<open>None\<close> of an option. A division by zero gives 0 as it does in HOL; the source
  divides by a difference of voltages or by a denominator only after it has checked that
  its magnitude is at least \<^verbatim>\<open>0.01f\<close> or \<^verbatim>\<open>1e-9f\<close>.
\<close>

typedef float = "range rnd" morphisms val Abs_float
  by blast

definition f32 :: "real \<Rightarrow> float" where
  "f32 x = Abs_float (rnd x)"

instantiation float :: "{zero, plus, minus, uminus, times, inverse, abs, linorder}"
begin

definition zero_float :: float where
  "zero_float = f32 0"

definition plus_float :: "float \<Rightarrow> float \<Rightarrow> float" where
  "plus_float a b = f32 (val a + val b)"

definition minus_float :: "float \<Rightarrow> float \<Rightarrow> float" where
  "minus_float a b = f32 (val a - val b)"

definition uminus_float :: "float \<Rightarrow> float" where
  "uminus_float a = f32 (- val a)"

definition times_float :: "float \<Rightarrow> float \<Rightarrow> float" where
  "times_float a b = f32 (val a * val b)"

definition divide_float :: "float \<Rightarrow> float \<Rightarrow> float" where
  "divide_float a b = f32 (val a / val b)"

definition inverse_float :: "float \<Rightarrow> float" where
  "inverse_float a = f32 (inverse (val a))"

definition abs_float :: "float \<Rightarrow> float" where
  "abs_float a = f32 \<bar>val a\<bar>"

definition less_eq_float :: "float \<Rightarrow> float \<Rightarrow> bool" where
  "less_eq_float a b = (val a \<le> val b)"

definition less_float :: "float \<Rightarrow> float \<Rightarrow> bool" where
  "less_float a b = (val a < val b)"

instance
proof
  fix x y z :: float
  show "(x < y) = (x \<le> y \<and> \<not> y \<le> x)"
    by (auto simp add: less_float_def less_eq_float_def)
  show "x \<le> x"
    by (simp add: less_eq_float_def)
  show "x \<le> y \<Longrightarrow> y \<le> z \<Longrightarrow> x \<le> z"
    by (simp add: less_eq_float_def)
  show "x \<le> y \<Longrightarrow> y \<le> x \<Longrightarrow> x = y"
    by (simp add: less_eq_float_def val_inject)
  show "x \<le> y \<or> y \<le> x"
    by (auto simp add: less_eq_float_def)
qed

end

text \<open>Equality of floats, for the code generator: two floats are equal when their values are.\<close>

instantiation float :: equal
begin

definition equal_float :: "float \<Rightarrow> float \<Rightarrow> bool" where
  "equal_float a b = (val a = val b)"

instance
  by standard (simp add: equal_float_def val_inject)

end

section \<open>Constants and the persistent store\<close>

definition PH7 :: float where "PH7 = f32 7.00"
definition PH4 :: float where "PH4 = f32 4.01"
definition PH9 :: float where "PH9 = f32 9.18"

text \<open>
  \<^verbatim>\<open>Preferences prefs\<close> on the namespace \<^verbatim>\<open>"phcal"\<close>: a typed key-value store. It is
  modelled as the journal of the put calls made so far, newest first; a get returns the
  newest entry of its key when that entry has the requested type and the caller's default
  otherwise. The journal grows by one entry with every put, so an unchanged journal means
  that no write happened. A float is stored as it is and comes back as it was stored.
\<close>

datatype pval = PBool bool | PFloat float

type_synonym nvs = "(string \<times> pval) list"

definition getBool :: "nvs \<Rightarrow> string \<Rightarrow> bool \<Rightarrow> bool" where
  "getBool st k d = (case map_of st k of Some (PBool b) \<Rightarrow> b | _ \<Rightarrow> d)"

definition getFloat :: "nvs \<Rightarrow> string \<Rightarrow> float \<Rightarrow> float" where
  "getFloat st k d = (case map_of st k of Some (PFloat x) \<Rightarrow> x | _ \<Rightarrow> d)"

definition putBool :: "string \<Rightarrow> bool \<Rightarrow> nvs \<Rightarrow> nvs" where
  "putBool k b st = (k, PBool b) # st"

definition putFloat :: "string \<Rightarrow> float \<Rightarrow> nvs \<Rightarrow> nvs" where
  "putFloat k x st = (k, PFloat x) # st"

section \<open>The request layer's replies\<close>

text \<open>
  A handler answers with \<^verbatim>\<open>server.send(code, "text/plain", message)\<close>. The reply keeps the
  code and, for a 400, which check refused the request:
  \<^item> \<open>MissingArgument\<close>: \<^verbatim>\<open>"Missing v4 or v7"\<close>, \<^verbatim>\<open>"Missing v4 or v7 or v9"\<close>;
  \<^item> \<open>InvalidInput\<close>: \<^verbatim>\<open>"Voltages must be > 0"\<close>;
  \<^item> \<open>DegenerateFit\<close>: \<^verbatim>\<open>"v4 and v7 too close (bad calibration)"\<close>,
    \<^verbatim>\<open>"Two voltages are too close (bad 3-point)"\<close>;
  \<^item> \<open>SingularFit\<close>: \<^verbatim>\<open>"Could not solve quadratic (check voltages)"\<close>.
  The arguments of a request are the floats \<^verbatim>\<open>server.arg(name).toFloat()\<close> yields, by
  name; a name that is not bound is one for which \<^verbatim>\<open>server.hasArg\<close> is false, and
  \<^verbatim>\<open>server.arg\<close> of it is the empty string, whose \<^verbatim>\<open>toFloat()\<close> is 0.
\<close>

datatype FitError = MissingArgument | InvalidInput | DegenerateFit | SingularFit

datatype reply = Reply200 | Reply400 FitError

type_synonym args = "string \<rightharpoonup> float"

definition hasArg :: "args \<Rightarrow> string \<Rightarrow> bool" where
  "hasArg rq k = (rq k \<noteq> None)"

definition arg :: "args \<Rightarrow> string \<Rightarrow> float" where
  "arg rq k = (case rq k of Some x \<Rightarrow> x | None \<Rightarrow> 0)"

section \<open>The two-line firmware (linear\_ph\_twopage.ino)\<close>

text \<open>
  The globals of the sketch and its store, as one record. \<open>filtV_main\<close> is \<open>None\<close>
  where the source holds \<^verbatim>\<open>NAN\<close>.
\<close>

record cal =
  useTwoLines :: bool
  typicalDirection :: bool
  v7_break :: float
  mLow :: float
  bLow :: float
  mHigh :: float
  bHigh :: float
  filtV_main :: "float option"
  prefs :: nvs

text \<open>The initialisers of the globals, over whatever the store holds at power-on.\<close>

definition power_on :: "nvs \<Rightarrow> cal" where
  "power_on st = \<lparr> useTwoLines = False, typicalDirection = True, v7_break = f32 2.100,
     mLow = - f32 2.49, bLow = f32 10.4725, mHigh = - f32 2.49, bHigh = f32 10.4725,
     filtV_main = None, prefs = st \<rparr>"

definition loadCalibration :: "cal \<Rightarrow> cal" where
  "loadCalibration s = s\<lparr>
     useTwoLines := getBool (prefs s) ''two'' False,
     typicalDirection := getBool (prefs s) ''typ'' True,
     v7_break := getFloat (prefs s) ''v7'' (v7_break s),
     mLow := getFloat (prefs s) ''mL'' (mLow s),
     bLow := getFloat (prefs s) ''bL'' (bLow s),
     mHigh := getFloat (prefs s) ''mH'' (mHigh s),
     bHigh := getFloat (prefs s) ''bH'' (bHigh s) \<rparr>"

definition saveOneLine :: "float \<Rightarrow> float \<Rightarrow> cal \<Rightarrow> cal" where
  "saveOneLine V4 V7 s =
     (let m = (PH4 - PH7) / (V4 - V7);
          b = PH7 - m * V7
      in s\<lparr> prefs := putFloat ''bH'' b (putFloat ''mH'' m (putFloat ''bL'' b
                 (putFloat ''mL'' m (putFloat ''v7'' V7 (putBool ''typ'' (V4 > V7)
                 (putBool ''two'' False (prefs s))))))),
            useTwoLines := False,
            typicalDirection := (V4 > V7),
            v7_break := V7,
            mLow := m, bLow := b,
            mHigh := m, bHigh := b,
            filtV_main := None \<rparr>)"

definition saveTwoLines :: "float \<Rightarrow> float \<Rightarrow> float \<Rightarrow> cal \<Rightarrow> cal" where
  "saveTwoLines V4 V7 V9 s =
     (let mL = (PH4 - PH7) / (V4 - V7);
          bL = PH7 - mL * V7;
          mH = (PH7 - PH9) / (V7 - V9);
          bH = PH7 - mH * V7
      in s\<lparr> prefs := putFloat ''bH'' bH (putFloat ''mH'' mH (putFloat ''bL'' bL
                 (putFloat ''mL'' mL (putFloat ''v7'' V7 (putBool ''typ'' (V4 > V7)
                 (putBool ''two'' True (prefs s))))))),
            useTwoLines := True,
            typicalDirection := (V4 > V7),
            v7_break := V7,
            mLow := mL, bLow := bL,
            mHigh := mH, bHigh := bH,
            filtV_main := None \<rparr>)"

definition calculatePH_piecewise :: "cal \<Rightarrow> float \<Rightarrow> float" where
  "calculatePH_piecewise s v =
     (if \<not> useTwoLines s then mLow s * v + bLow s
      else if typicalDirection s then
        (if v \<ge> v7_break s then mLow s * v + bLow s
         else mHigh s * v + bHigh s)
      else
        (if v \<le> v7_break s then mLow s * v + bLow s
         else mHigh s * v + bHigh s))"

text \<open>
  Which of the two \<^verbatim>\<open>return\<close> statements of the two-line part of
  \<^verbatim>\<open>calculatePH_piecewise\<close> is reached: the one of the low line (\<open>mLow\<close>, \<open>bLow\<close>) or
  the one of the high line (\<open>mHigh\<close>, \<open>bHigh\<close>). It repeats the tests of the function
  above and exists to name the branch taken.
\<close>

datatype segment = Low | High

definition segment_taken :: "cal \<Rightarrow> float \<Rightarrow> segment" where
  "segment_taken s v =
     (if typicalDirection s then (if v \<ge> v7_break s then Low else High)
      else (if v \<le> v7_break s then Low else High))"

definition line_of :: "cal \<Rightarrow> segment \<Rightarrow> float \<Rightarrow> float" where
  "line_of s g v = (case g of Low \<Rightarrow> mLow s * v + bLow s | High \<Rightarrow> mHigh s * v + bHigh s)"

definition handleSetCal2 :: "args \<Rightarrow> cal \<Rightarrow> reply \<times> cal" where
  "handleSetCal2 rq s =
     (if \<not> hasArg rq ''v4'' \<or> \<not> hasArg rq ''v7'' then (Reply400 MissingArgument, s)
      else let V4 = arg rq ''v4''; V7 = arg rq ''v7'' in
        if V4 \<le> 0 \<or> V7 \<le> 0 then (Reply400 InvalidInput, s)
        else if \<bar>V4 - V7\<bar> < f32 0.01 then (Reply400 DegenerateFit, s)
        else (Reply200, saveOneLine V4 V7 s))"

definition handleSetCal3 :: "args \<Rightarrow> cal \<Rightarrow> reply \<times> cal" where
  "handleSetCal3 rq s =
     (if \<not> hasArg rq ''v4'' \<or> \<not> hasArg rq ''v7'' \<or> \<not> hasArg rq ''v9''
      then (Reply400 MissingArgument, s)
      else let V4 = arg rq ''v4''; V7 = arg rq ''v7''; V9 = arg rq ''v9'' in
        if V4 \<le> 0 \<or> V7 \<le> 0 \<or> V9 \<le> 0 then (Reply400 InvalidInput, s)
        else if \<bar>V4 - V7\<bar> < f32 0.01 \<or> \<bar>V9 - V7\<bar> < f32 0.01 \<or> \<bar>V9 - V4\<bar> < f32 0.01
        then (Reply400 DegenerateFit, s)
        else (Reply200, saveTwoLines V4 V7 V9 s))"

text \<open>
  The sketch in \<^verbatim>\<open>src/unnamed/part_000\<close> is an earlier print of this one:
  its \<^verbatim>\<open>loadCalibration\<close>, \<^verbatim>\<open>saveOneLine\<close>, \<^verbatim>\<open>saveTwoLines\<close>,
  \<^verbatim>\<open>calculatePH_piecewise\<close>, \<^verbatim>\<open>handleSetCal2\<close> and \<^verbatim>\<open>handleSetCal3\<close> have the same
  statements (its filter variable is \<^verbatim>\<open>filtV\<close>), so the definitions above are its
  model too. Its \<^verbatim>\<open>calculatePH\<close>, a placeholder that no handler calls, is left out.
\<close>

subsection \<open>Sampling and smoothing\<close>

text \<open>
  The sensor is the sequence of floats its successive reads return: \<open>src i\<close> is what
  \<^verbatim>\<open>ina226.getBusVoltage_V()\<close> yields in iteration \<open>i\<close> of the loop. The loop of
  \<^verbatim>\<open>readVoltageRawTrimmed\<close> carries \<open>(sum, mn, mx)\<close>; \<open>sum\<close> is a constant of
  HOL, so the model writes \<open>sm\<close>. The sum is a float: every \<^verbatim>\<open>sum += a\<close> rounds. The
  source fixes the number of reads (\<^verbatim>\<open>const int N = 20\<close>); the loop is written for any
  \<open>N\<close> and the function instantiates it. This is the function the sketch is built with
  (\<^verbatim>\<open>USE_INA226\<close> is 1). The divisor is \<^verbatim>\<open>(float)(N - 2)\<close>, a subtraction of integers
  converted to float, hence \<open>f32 (real N - 2)\<close>.
\<close>

function sample_loop :: "nat \<Rightarrow> (nat \<Rightarrow> float) \<Rightarrow> nat \<Rightarrow> float \<times> float \<times> float
    \<Rightarrow> float \<times> float \<times> float" where
  "sample_loop N src i (sm, mn, mx) =
     (if i < N then
        (let a = src i
         in sample_loop N src (Suc i)
              (sm + a, (if a < mn then a else mn), (if a > mx then a else mx)))
      else (sm, mn, mx))"
  by pat_completeness auto
termination
  by (relation "measure (\<lambda>(N, src, i, acc). N - i)") auto

declare sample_loop.simps [simp del]

definition trimmed_mean :: "nat \<Rightarrow> (nat \<Rightarrow> float) \<Rightarrow> float" where
  "trimmed_mean N src =
     (case sample_loop N src 0 (0, f32 (10 ^ 9), - f32 (10 ^ 9)) of
        (sm, mn, mx) \<Rightarrow> (sm - mn - mx) / f32 (real N - 2))"

definition readVoltageRawTrimmed :: "(nat \<Rightarrow> float) \<Rightarrow> float" where
  "readVoltageRawTrimmed src = trimmed_mean 20 src"

text \<open>
  With \<^verbatim>\<open>USE_INA226\<close> set to 0 the sketch is built with the other
  \<^verbatim>\<open>readVoltageRawTrimmed\<close>, which reads the ADC: \<open>adc i\<close> is what
  \<^verbatim>\<open>analogRead(PH_ADC_PIN)\<close> yields in iteration \<open>i\<close>, a \<^verbatim>\<open>uint16_t\<close>; the sum is a
  \<^verbatim>\<open>uint32_t\<close> and wraps around as such; the running minimum starts at 4095 and the
  running maximum at 0. The source fixes \<^verbatim>\<open>const int N = 25\<close>. The trimmed sum is
  converted to float and the three float operations that follow round.
\<close>

definition ADC_VREF :: float where "ADC_VREF = f32 3.30"

definition ADC_MAX :: float where "ADC_MAX = f32 4095.0"

function sample_loop_adc :: "nat \<Rightarrow> (nat \<Rightarrow> 16 word) \<Rightarrow> nat \<Rightarrow> 32 word \<times> 16 word \<times> 16 word
    \<Rightarrow> 32 word \<times> 16 word \<times> 16 word" where
  "sample_loop_adc N adc i (sm, mn, mx) =
     (if i < N then
        (let a = adc i
         in sample_loop_adc N adc (Suc i)
              (sm + ucast a, (if a < mn then a else mn), (if a > mx then a else mx)))
      else (sm, mn, mx))"
  by pat_completeness auto
termination
  by (relation "measure (\<lambda>(N, adc, i, acc). N - i)") auto

declare sample_loop_adc.simps [simp del]

definition trimmed_mean_adc :: "nat \<Rightarrow> (nat \<Rightarrow> 16 word) \<Rightarrow> float" where
  "trimmed_mean_adc N adc =
     (case sample_loop_adc N adc 0 (0, 4095, 0) of
        (sm, mn, mx) \<Rightarrow>
          (let sm1 = sm - ucast mn;
               sm2 = sm1 - ucast mx;
               avgCounts = f32 (real (unat sm2)) / f32 (real N - 2)
           in (avgCounts / ADC_MAX) * ADC_VREF))"

definition readVoltageRawTrimmed_adc :: "(nat \<Rightarrow> 16 word) \<Rightarrow> float" where
  "readVoltageRawTrimmed_adc adc = trimmed_mean_adc 25 adc"

definition MAIN_ALPHA :: float where "MAIN_ALPHA = f32 0.15"

text \<open>
  The statements of \<^verbatim>\<open>readVoltageMainSmoothed\<close> after the read, on the value \<open>v\<close>
  just read: seed the filter when it holds \<^verbatim>\<open>NAN\<close>, then one filter step.
\<close>

definition smooth_main :: "float \<Rightarrow> cal \<Rightarrow> float \<times> cal" where
  "smooth_main v s =
     (let f0 = (case filtV_main s of None \<Rightarrow> v | Some f \<Rightarrow> f);
          f1 = f0 + MAIN_ALPHA * (v - f0)
      in (f1, s\<lparr>filtV_main := Some f1\<rparr>))"

definition readVoltageMainSmoothed :: "(nat \<Rightarrow> float) \<Rightarrow> cal \<Rightarrow> float \<times> cal" where
  "readVoltageMainSmoothed src s = smooth_main (readVoltageRawTrimmed src) s"

section \<open>The quadratic firmware (src/unnamed/part\_001)\<close>

text \<open>
  The third sketch keeps one line and one quadratic. Names it shares with the two-line
  sketch carry the suffix \<open>_quad\<close>.
\<close>

record qcal =
  useQuadratic :: bool
  linM :: float
  linB :: float
  qa :: float
  qb :: float
  qc :: float
  filtV :: "float option"
  prefs_quad :: nvs

definition power_on_quad :: "nvs \<Rightarrow> qcal" where
  "power_on_quad st = \<lparr> useQuadratic = False, linM = - f32 2.49, linB = f32 10.4725,
     qa = 0, qb = - f32 2.49, qc = f32 10.4725, filtV = None, prefs_quad = st \<rparr>"

definition solveQuadraticFrom3Points ::
    "float \<Rightarrow> float \<Rightarrow> float \<Rightarrow> float \<Rightarrow> float \<Rightarrow> float \<Rightarrow> (float \<times> float \<times> float) option" where
  "solveQuadraticFrom3Points x1 y1 x2 y2 x3 y3 =
     (let d1 = (x1 - x2) * (x1 - x3);
          d2 = (x2 - x1) * (x2 - x3);
          d3 = (x3 - x1) * (x3 - x2)
      in if \<bar>d1\<bar> < f32 (1 / 10 ^ 9) \<or> \<bar>d2\<bar> < f32 (1 / 10 ^ 9) \<or> \<bar>d3\<bar> < f32 (1 / 10 ^ 9)
         then None
         else
           (let A1 = y1 / d1;
                A2 = y2 / d2;
                A3 = y3 / d3
            in Some (A1 + A2 + A3,
                     - (A1 * (x2 + x3) + A2 * (x1 + x3) + A3 * (x1 + x2)),
                     (A1 * (x2 * x3) + A2 * (x1 * x3) + A3 * (x1 * x2)))))"

definition calculatePH :: "qcal \<Rightarrow> float \<Rightarrow> float" where
  "calculatePH s v_sensor =
     (if useQuadratic s then qa s * v_sensor * v_sensor + qb s * v_sensor + qc s
      else linM s * v_sensor + linB s)"

definition loadCalibration_quad :: "qcal \<Rightarrow> qcal" where
  "loadCalibration_quad s = s\<lparr>
     useQuadratic := getBool (prefs_quad s) ''quad'' False,
     linM := getFloat (prefs_quad s) ''m'' (linM s),
     linB := getFloat (prefs_quad s) ''b'' (linB s),
     qa := getFloat (prefs_quad s) ''qa'' (qa s),
     qb := getFloat (prefs_quad s) ''qb'' (qb s),
     qc := getFloat (prefs_quad s) ''qc'' (qc s) \<rparr>"

definition saveLinear :: "float \<Rightarrow> float \<Rightarrow> qcal \<Rightarrow> qcal" where
  "saveLinear m b s =
     s\<lparr> prefs_quad := putFloat ''b'' b (putFloat ''m'' m (putBool ''quad'' False (prefs_quad s))),
        useQuadratic := False,
        linM := m,
        linB := b,
        filtV := None \<rparr>"

definition saveQuadratic :: "float \<Rightarrow> float \<Rightarrow> float \<Rightarrow> qcal \<Rightarrow> qcal" where
  "saveQuadratic a b c s =
     s\<lparr> prefs_quad := putFloat ''qc'' c (putFloat ''qb'' b (putFloat ''qa'' a
              (putBool ''quad'' True (prefs_quad s)))),
        useQuadratic := True,
        qa := a, qb := b, qc := c,
        filtV := None \<rparr>"

definition handleSetCal2_quad :: "args \<Rightarrow> qcal \<Rightarrow> reply \<times> qcal" where
  "handleSetCal2_quad rq s =
     (if \<not> hasArg rq ''v7'' \<or> \<not> hasArg rq ''v4'' then (Reply400 MissingArgument, s)
      else let v7 = arg rq ''v7''; v4 = arg rq ''v4'' in
        if v7 \<le> 0 \<or> v4 \<le> 0 then (Reply400 InvalidInput, s)
        else if \<bar>v4 - v7\<bar> < f32 0.01 then (Reply400 DegenerateFit, s)
        else
          (let m = (PH4 - PH7) / (v4 - v7);
               b = PH7 - m * v7
           in (Reply200, saveLinear m b s)))"

definition handleSetCal3_quad :: "args \<Rightarrow> qcal \<Rightarrow> reply \<times> qcal" where
  "handleSetCal3_quad rq s =
     (if \<not> hasArg rq ''v7'' \<or> \<not> hasArg rq ''v4'' \<or> \<not> hasArg rq ''v9''
      then (Reply400 MissingArgument, s)
      else let v7 = arg rq ''v7''; v4 = arg rq ''v4''; v9 = arg rq ''v9'' in
        if v7 \<le> 0 \<or> v4 \<le> 0 \<or> v9 \<le> 0 then (Reply400 InvalidInput, s)
        else if \<bar>v4 - v7\<bar> < f32 0.01 \<or> \<bar>v9 - v7\<bar> < f32 0.01 \<or> \<bar>v9 - v4\<bar> < f32 0.01
        then (Reply400 DegenerateFit, s)
        else
          (case solveQuadraticFrom3Points v4 PH4 v7 PH7 v9 PH9 of
             None \<Rightarrow> (Reply400 SingularFit, s)
           | Some (a, b, c) \<Rightarrow> (Reply200, saveQuadratic a b c s)))"

text \<open>
  \<^verbatim>\<open>readPHVoltage\<close> of this sketch reads, scales and smooths in one function; the
  trimmed-mean loop is the one above.
\<close>

definition VOLTAGE_SCALE :: float where "VOLTAGE_SCALE = f32 1.0"

definition IIR_ALPHA :: float where "IIR_ALPHA = f32 0.15"

definition readPHVoltage :: "(nat \<Rightarrow> float) \<Rightarrow> qcal \<Rightarrow> float \<times> qcal" where
  "readPHVoltage src s =
     (let v = trimmed_mean 20 src;
          v_sensor = v * VOLTAGE_SCALE;
          f0 = (case filtV s of None \<Rightarrow> v_sensor | Some f \<Rightarrow> f);
          f1 = f0 + IIR_ALPHA * (v_sensor - f0)
      in (f1, s\<lparr>filtV := Some f1\<rparr>))"

text \<open>
  The formula of \<^verbatim>\<open>solveQuadraticFrom3Points\<close> and of the quadratic branch of
  \<^verbatim>\<open>calculatePH\<close> read in exact arithmetic, over the reals and without rounding: the
  same three denominators, the same test against \<open>10\<^sup>-\<^sup>9\<close>, the same three sums. It is
  what the interpolation would compute on a machine that does not round, and is used to
  compare the firmware's floats with.
\<close>

definition solveQuadraticFrom3Points_exact ::
    "real \<Rightarrow> real \<Rightarrow> real \<Rightarrow> real \<Rightarrow> real \<Rightarrow> real \<Rightarrow> (real \<times> real \<times> real) option" where
  "solveQuadraticFrom3Points_exact x1 y1 x2 y2 x3 y3 =
     (let d1 = (x1 - x2) * (x1 - x3);
          d2 = (x2 - x1) * (x2 - x3);
          d3 = (x3 - x1) * (x3 - x2)
      in if \<bar>d1\<bar> < 1 / 10 ^ 9 \<or> \<bar>d2\<bar> < 1 / 10 ^ 9 \<or> \<bar>d3\<bar> < 1 / 10 ^ 9
         then None
         else
           (let A1 = y1 / d1;
                A2 = y2 / d2;
                A3 = y3 / d3
            in Some (A1 + A2 + A3,
                     - (A1 * (x2 + x3) + A2 * (x1 + x3) + A3 * (x1 + x2)),
                     (A1 * (x2 * x3) + A2 * (x1 * x3) + A3 * (x1 * x2)))))"

section \<open>Facts about binary32 arithmetic\<close>

text \<open>
  Rounding to the nearest integer, and a certificate for it: an integer within one half
  of \<open>y\<close> (and even, when exactly one half away) is \<open>round_even y\<close>.
\<close>

lemma near_int_cases:
  fixes y :: real
  assumes "\<bar>y - of_int n\<bar> \<le> 1 / 2"
  shows "n = \<lfloor>y\<rfloor> \<or> n = \<lfloor>y\<rfloor> + 1"
proof -
  let ?f = "\<lfloor>y\<rfloor>"
  have fl: "of_int ?f \<le> y" "y < of_int ?f + 1"
    by linarith+
  from assms have b: "of_int n - 1 / 2 \<le> y" "y \<le> of_int n + 1 / 2"
    by linarith+
  from fl(1) b(2) have "real_of_int ?f < real_of_int n + 1" by linarith
  then have "real_of_int ?f < real_of_int (n + 1)" by simp
  then have 1: "?f < n + 1" by (simp only: of_int_less_iff)
  from fl(2) b(1) have "real_of_int n - 1 < real_of_int ?f + 1" by linarith
  then have "real_of_int (n - 1) < real_of_int (?f + 1)" by simp
  then have 2: "n - 1 < ?f + 1" by (simp only: of_int_less_iff)
  from 1 2 show ?thesis by linarith
qed

lemma round_even_cert:
  assumes "\<bar>y - of_int n\<bar> < 1 / 2 \<or> (\<bar>y - of_int n\<bar> = 1 / 2 \<and> even n)"
  shows "round_even y = n"
proof -
  let ?f = "\<lfloor>y\<rfloor>"
  from assms have "\<bar>y - of_int n\<bar> \<le> 1 / 2" by auto
  then consider (lo) "n = ?f" | (hi) "n = ?f + 1"
    using near_int_cases by blast
  then show ?thesis
  proof cases
    case lo
    have r0: "0 \<le> y - of_int ?f" by linarith
    from assms lo r0 have "y - of_int ?f < 1 / 2 \<or> (y - of_int ?f = 1 / 2 \<and> even ?f)"
      by (simp add: abs_if split: if_splits)
    then show ?thesis
      using lo by (auto simp add: round_even_def Let_def)
  next
    case hi
    have r1: "y - of_int ?f < 1" by linarith
    have d: "y - of_int n = y - of_int ?f - 1"
      using hi by simp
    from assms have "y - of_int ?f > 1 / 2 \<or> (y - of_int ?f = 1 / 2 \<and> odd ?f)"
      unfolding d using r1 hi by (auto simp add: abs_if split: if_splits)
    then show ?thesis
      using hi by (auto simp add: round_even_def Let_def)
  qed
qed

lemma round_even_of_int [simp]: "round_even (of_int n) = n"
  by (rule round_even_cert) simp

lemma round_even_close: "\<bar>of_int (round_even y) - y\<bar> \<le> 1 / 2"
  unfolding round_even_def Let_def by (auto simp: abs_if) linarith+

lemma round_even_nonneg: "0 \<le> y \<Longrightarrow> 0 \<le> round_even y"
  unfolding round_even_def Let_def by (auto simp: zero_le_floor) 

lemma round_even_le: "y \<le> of_int m \<Longrightarrow> round_even y \<le> m"
proof -
  assume a: "y \<le> of_int m"
  show ?thesis
  proof (cases "y = of_int m")
    case True then show ?thesis by simp
  next
    case False
    with a have "y < of_int m" by simp
    then have "\<lfloor>y\<rfloor> < m" by (simp add: floor_less_iff)
    then show ?thesis
      unfolding round_even_def Let_def by auto
  qed
qed

lemma expo_bounds:
  assumes "x \<noteq> 0"
  shows "2 powi expo x \<le> \<bar>x\<bar> \<and> \<bar>x\<bar> < 2 powi (expo x + 1)"
proof (cases "1 \<le> \<bar>x\<bar>")
  case True
  define n where "n = \<lfloor>\<bar>x\<bar>\<rfloor>"
  from True have npos: "0 < n" by (simp add: n_def)
  define b where "b = nat (bitlen n)"
  from npos have bl: "1 \<le> bitlen n" by (auto simp add: bitlen_alt_def)
  then have b: "bitlen n = int b" "1 \<le> b" by (simp_all add: b_def)
  have nb: "nat (int b - 1) = b - 1" "nat (int b) = b" by simp_all
  from bitlen_bounds [OF npos] have ib: "2 ^ (b - 1) \<le> n" "n < 2 ^ b"
    unfolding b(1) nb by simp_all
  have e: "expo x = int b - 1"
    using True by (simp add: expo_def n_def [symmetric] b)
  have "real_of_int (2 ^ (b - 1)) \<le> real_of_int n"
    using ib(1) by (simp only: of_int_le_iff)
  also have "real_of_int n \<le> \<bar>x\<bar>" by (simp add: n_def)
  finally have lo: "2 ^ (b - 1) \<le> \<bar>x\<bar>" by simp
  from ib(2) have "n + 1 \<le> 2 ^ b" by simp
  then have "real_of_int (n + 1) \<le> real_of_int (2 ^ b)" by (simp only: of_int_le_iff)
  moreover have "\<bar>x\<bar> < real_of_int (n + 1)" unfolding n_def by linarith
  ultimately have hi: "\<bar>x\<bar> < 2 ^ b" by simp
  have p1: "(2::real) powi (int b - 1) = 2 ^ (b - 1)"
    using b(2) by (simp add: power_int_def nat_diff_distrib)
  have p2: "(2::real) powi (int b - 1 + 1) = 2 ^ b"
    by simp
  show ?thesis unfolding e p1 p2 using lo hi by simp
next
  case False
  define a where "a = \<bar>x\<bar>"
  from assms False have a: "0 < a" "a < 1" by (simp_all add: a_def)
  define c where "c = \<lceil>1 / a\<rceil>"
  have y1: "1 < 1 / a" using a by simp
  then have c2: "2 \<le> c" unfolding c_def by linarith
  define b where "b = nat (bitlen (c - 1))"
  from c2 have cpos: "0 < c - 1" by simp
  then have bl: "1 \<le> bitlen (c - 1)" by (auto simp add: bitlen_alt_def)
  then have b: "bitlen (c - 1) = int b" "1 \<le> b" by (simp_all add: b_def)
  have nb: "nat (int b - 1) = b - 1" "nat (int b) = b" by simp_all
  from bitlen_bounds [OF cpos] have ib: "2 ^ (b - 1) \<le> c - 1" "c - 1 < 2 ^ b"
    unfolding b(1) nb by simp_all
  have e: "expo x = - int b"
    using False by (simp add: expo_def a_def [symmetric] c_def [symmetric] b)
  have cy: "real_of_int (c - 1) < 1 / a" "1 / a \<le> real_of_int c"
    unfolding c_def by linarith+
  from ib(2) have "c \<le> 2 ^ b" by simp
  then have cr: "real_of_int c \<le> 2 ^ b" by simp
  from cy(2) cr have up: "1 / a \<le> 2 ^ b" by (rule order_trans)
  have "real_of_int (2 ^ (b - 1)) \<le> real_of_int (c - 1)"
    using ib(1) by (simp only: of_int_le_iff)
  then have cl: "2 ^ (b - 1) \<le> real_of_int (c - 1)"
    by (simp only: of_int_power of_int_numeral)
  from cl cy(1) have dn: "2 ^ (b - 1) < 1 / a" by (rule le_less_trans)
  from up a(1) have lo: "1 / 2 ^ b \<le> a"
    by (simp add: field_simps)
  from dn a(1) have hi: "a < 1 / 2 ^ (b - 1)"
    by (simp add: field_simps)
  have p1: "(2::real) powi (- int b) = 1 / 2 ^ b"
    by (simp add: power_int_minus inverse_eq_divide)
  have eq: "- int b + 1 = - int (b - 1)" using b(2) by simp
  have p2: "(2::real) powi (- int b + 1) = 1 / 2 ^ (b - 1)"
    unfolding eq by (simp add: power_int_minus inverse_eq_divide)
  show ?thesis unfolding e p1 p2 a_def [symmetric] using lo hi by simp
qed

lemma expo_unique:
  assumes "2 powi k \<le> \<bar>x\<bar>" "\<bar>x\<bar> < 2 powi (k + 1)"
  shows "expo x = k"
proof -
  have "0 < (2::real) powi k" by simp
  with assms(1) have "0 < \<bar>x\<bar>" by linarith
  then have nz: "x \<noteq> 0" by simp
  note eb = expo_bounds [OF nz]
  have "\<not> expo x < k"
  proof
    assume "expo x < k"
    then have "expo x + 1 \<le> k" by simp
    then have "(2::real) powi (expo x + 1) \<le> 2 powi k"
      by (intro power_int_increasing) simp_all
    with eb assms(1) show False by linarith
  qed
  moreover have "\<not> k < expo x"
  proof
    assume "k < expo x"
    then have "k + 1 \<le> expo x" by simp
    then have "(2::real) powi (k + 1) \<le> 2 powi expo x"
      by (intro power_int_increasing) simp_all
    with eb assms(2) show False by linarith
  qed
  ultimately show ?thesis by simp
qed

lemma expo_minus [simp]: "expo (- x) = expo x"
  by (simp add: expo_def)

lemma ulp_minus [simp]: "ulp (- x) = ulp x"
  by (simp add: ulp_def)

lemma ulp_nz [simp]: "ulp x \<noteq> 0"
  by (simp add: ulp_def)

lemma ulp_pos [simp]: "0 < ulp x"
  by (simp add: ulp_def)

lemma rnd_zero [simp]: "rnd 0 = 0"
  by (simp add: rnd_def)

lemma rnd_minus: "rnd (- x) = - rnd x"
  by (simp add: rnd_def)

lemma rnd_pos: "0 < x \<Longrightarrow> rnd x = ulp x * of_int (round_even (x / ulp x))"
  by (simp add: rnd_def)

lemma rnd_up:
  assumes "2 ^ k \<le> x" "x < 2 * 2 ^ k"
    and "\<bar>x * 2 ^ 23 / 2 ^ k - of_int n\<bar> < 1 / 2
         \<or> (\<bar>x * 2 ^ 23 / 2 ^ k - of_int n\<bar> = 1 / 2 \<and> even n)"
    and "r = of_int n * 2 ^ k / 2 ^ 23"
  shows "rnd x = r"
proof -
  have "0 < (2::real) ^ k" by simp
  with assms(1) have pos: "0 < x" by linarith
  have "expo x = int k"
    using assms(1,2) pos by (intro expo_unique) (simp_all add: power_int_add)
  then have "ulp x = 2 powi (int k - 23)"
    by (simp add: ulp_def)
  also have "\<dots> = 2 ^ k / 2 ^ 23"
    by (simp add: power_int_diff)
  finally have u: "ulp x = 2 ^ k / 2 ^ 23" .
  have "x / ulp x = x * 2 ^ 23 / 2 ^ k"
    unfolding u by simp
  then have "round_even (x / ulp x) = n"
    using assms(3) by (intro round_even_cert) simp
  then show ?thesis
    using pos by (simp add: rnd_pos u assms(4))
qed

lemma rnd_down:
  assumes "1 \<le> x * 2 ^ k" "x * 2 ^ k < 2" "k \<le> 126"
    and "\<bar>x * 2 ^ 23 * 2 ^ k - of_int n\<bar> < 1 / 2
         \<or> (\<bar>x * 2 ^ 23 * 2 ^ k - of_int n\<bar> = 1 / 2 \<and> even n)"
    and "r = of_int n / (2 ^ 23 * 2 ^ k)"
  shows "rnd x = r"
proof -
  have p: "0 < (2::real) ^ k" by simp
  from assms(1) have "0 < x * 2 ^ k" by linarith
  then have pos: "0 < x" using p by (simp add: zero_less_mult_iff)
  have pk: "(2::real) powi (- int k) = 1 / 2 ^ k"
    by (simp add: power_int_minus inverse_eq_divide)
  have "(2::real) powi (- int k + 1) = 2 powi (- int k) * 2 powi 1"
    by (rule power_int_add) simp
  then have pk1: "(2::real) powi (- int k + 1) = 2 / 2 ^ k"
    unfolding pk by simp
  have lo: "2 powi (- int k) \<le> \<bar>x\<bar>"
    unfolding pk using assms(1) pos p by (simp add: field_simps)
  have hi: "\<bar>x\<bar> < 2 powi (- int k + 1)"
    unfolding pk1 using assms(2) pos p by (simp add: field_simps)
  have "expo x = - int k"
    using lo hi by (rule expo_unique)
  then have "ulp x = 2 powi (- int k - 23)"
    using assms(3) by (simp add: ulp_def)
  also have "\<dots> = 1 / (2 ^ 23 * 2 ^ k)"
    by (simp add: power_int_diff pk)
  finally have u: "ulp x = 1 / (2 ^ 23 * 2 ^ k)" .
  have "x / ulp x = x * 2 ^ 23 * 2 ^ k"
    unfolding u by simp
  then have "round_even (x / ulp x) = n"
    using assms(4) by (intro round_even_cert) simp
  then show ?thesis
    using pos by (simp add: rnd_pos u assms(5))
qed

lemma rnd_grid:
  assumes "0 < r" "r = of_int m * w" "w = ulp r"
  shows "rnd r = r"
proof -
  have w: "0 < w" by (simp add: assms(3))
  then have "r / w = of_int m"
    using assms(2) by simp
  then have "w * of_int (round_even (r / w)) = r"
    using assms(2) by (simp add: mult.commute)
  then show ?thesis
    using assms(1) unfolding assms(3) by (simp add: rnd_pos)
qed

lemma rnd_idem_pos:
  assumes "0 < x"
  shows "rnd (rnd x) = rnd x"
proof -
  define E where "E = max (expo x) (- 126)"
  define u where "u = (2::real) powi (E - 23)"
  define n where "n = round_even (x / u)"
  have u: "ulp x = u" by (simp add: ulp_def u_def E_def)
  have upos: "0 < u" by (simp add: u_def)
  have r: "rnd x = u * of_int n"
    using assms by (simp add: rnd_pos u n_def)
  have E: "expo x \<le> E" "- 126 \<le> E" by (simp_all add: E_def)
  from assms have nz: "x \<noteq> 0" by simp
  from expo_bounds [OF nz] assms have "x < 2 powi (expo x + 1)" by simp
  also have "\<dots> \<le> 2 powi (E + 1)"
    using E(1) by (intro power_int_increasing) simp_all
  finally have xlt: "x < 2 powi (E + 1)" .
  have "2 powi (E + 1) = u * 2 ^ 24"
    by (simp add: u_def power_int_add power_int_diff)
  with xlt upos have "x / u \<le> 2 ^ 24"
    by (simp add: field_simps)
  then have "x / u \<le> of_int (2 ^ 24)" by simp
  then have nle: "n \<le> 2 ^ 24" unfolding n_def by (rule round_even_le)
  have n0: "0 \<le> n"
    unfolding n_def using assms upos by (intro round_even_nonneg) simp
  show ?thesis
  proof (cases "n = 0")
    case True
    then show ?thesis by (simp add: r)
  next
    case False
    with n0 have npos: "0 < n" by simp
    then have rpos: "0 < rnd x" using upos by (simp add: r)
    then have rnz: "rnd x \<noteq> 0" by simp
    show ?thesis
    proof (cases "n = 2 ^ 24")
      case True
      then have rv: "rnd x = 2 powi (E + 1)"
        by (simp add: r u_def power_int_add power_int_diff)
      have "expo (rnd x) = E + 1"
        unfolding rv by (intro expo_unique) (simp_all add: power_int_add)
      then have "ulp (rnd x) = 2 powi (E + 1 - 23)"
        using E(2) by (simp add: ulp_def)
      then have w: "2 powi (E + 1 - 23) = ulp (rnd x)" by simp
      have "(2::real) powi (E + 1) = of_int (2 ^ 23) * 2 powi (E + 1 - 23)"
        by (simp add: power_int_add power_int_diff)
      with rv have "rnd x = of_int (2 ^ 23) * 2 powi (E + 1 - 23)" by simp
      with rpos show ?thesis using w by (rule rnd_grid)
    next
      case False
      with nle have "n < 2 ^ 24" by simp
      then have "real_of_int n < 2 ^ 24" by simp
      then have "rnd x < u * 2 ^ 24"
        unfolding r using upos by simp
      also have "\<dots> = 2 powi (E + 1)"
        by (simp add: u_def power_int_add power_int_diff)
      finally have rlt: "rnd x < 2 powi (E + 1)" .
      have "\<not> E + 1 \<le> expo (rnd x)"
      proof
        assume "E + 1 \<le> expo (rnd x)"
        then have "(2::real) powi (E + 1) \<le> 2 powi expo (rnd x)"
          by (intro power_int_increasing) simp_all
        with expo_bounds [OF rnz] rpos rlt show False by simp
      qed
      then have le: "expo (rnd x) \<le> E" by simp
      define E' where "E' = max (expo (rnd x)) (- 126)"
      have E': "E' \<le> E" using le E(2) by (simp add: E'_def)
      have u': "ulp (rnd x) = 2 powi (E' - 23)" by (simp add: ulp_def E'_def)
      have "u = 2 powi (E' - 23) * 2 powi (E - E')"
        by (simp add: u_def flip: power_int_add)
      also have "(2::real) powi (E - E') = 2 ^ nat (E - E')"
        using E' by (simp add: power_int_def)
      finally have "u * of_int n = of_int (n * 2 ^ nat (E - E')) * 2 powi (E' - 23)"
        by simp
      with r have "rnd x = of_int (n * 2 ^ nat (E - E')) * 2 powi (E' - 23)"
        by (rule trans)
      with rpos show ?thesis using u' [symmetric] by (rule rnd_grid)
    qed
  qed
qed

lemma rnd_idem [simp]: "rnd (rnd x) = rnd x"
proof -
  consider "x = 0" | "0 < x" | "0 < - x" by linarith
  then show ?thesis
  proof cases
    case 1 then show ?thesis by simp
  next
    case 2 then show ?thesis by (rule rnd_idem_pos)
  next
    case 3
    from rnd_idem_pos [OF 3] show ?thesis
      by (simp add: rnd_minus)
  qed
qed

lemma rnd_abs: "rnd \<bar>x\<bar> = \<bar>rnd x\<bar>"
proof -
  have s: "0 < x \<Longrightarrow> 0 \<le> rnd x" for x
    by (simp add: rnd_pos round_even_nonneg less_imp_le)
  show ?thesis
  proof (cases "0 \<le> x")
    case True
    then have "0 \<le> rnd x" using s [of x] by (cases "x = 0") simp_all
    with True show ?thesis by simp
  next
    case False
    then have "0 \<le> rnd (- x)" using s [of "- x"] by simp
    with False show ?thesis by (simp add: rnd_minus)
  qed
qed

lemma rnd_error_pos:
  assumes "2 powi (- 126) \<le> x"
  shows "\<bar>rnd x - x\<bar> \<le> x / 2 ^ 24"
proof -
  have "0 < (2::real) powi (- 126)" by simp
  with assms have pos: "0 < x" by linarith
  then have nz: "x \<noteq> 0" by simp
  note eb = expo_bounds [OF nz]
  have "\<not> expo x + 1 \<le> - 126"
  proof
    assume "expo x + 1 \<le> - 126"
    then have "(2::real) powi (expo x + 1) \<le> 2 powi (- 126)"
      by (intro power_int_increasing) simp_all
    with eb assms pos show False by simp
  qed
  then have "max (expo x) (- 126) = expo x" by simp
  then have "ulp x = 2 powi (expo x - 23)"
    unfolding ulp_def by (rule arg_cong)
  then have u: "ulp x = 2 powi expo x / 2 ^ 23"
    by (simp add: power_int_diff)
  have "ulp x * (of_int (round_even (x / ulp x)) - x / ulp x) = rnd x - x"
    using pos ulp_pos [of x] by (simp add: rnd_pos right_diff_distrib)
  then have "\<bar>rnd x - x\<bar> = \<bar>ulp x * (of_int (round_even (x / ulp x)) - x / ulp x)\<bar>"
    by simp
  also have "\<dots> = ulp x * \<bar>of_int (round_even (x / ulp x)) - x / ulp x\<bar>"
    using ulp_pos [of x] by (simp add: abs_mult less_imp_le)
  also have "\<dots> \<le> ulp x * (1 / 2)"
    by (intro mult_left_mono round_even_close) (simp add: less_imp_le)
  also have "\<dots> = 2 powi expo x / 2 ^ 24"
    by (simp add: u)
  also have "\<dots> \<le> x / 2 ^ 24"
    using eb pos by (simp add: divide_right_mono)
  finally show ?thesis .
qed

lemma rnd_error:
  assumes "2 powi (- 126) \<le> \<bar>x\<bar>"
  shows "\<bar>rnd x - x\<bar> \<le> \<bar>x\<bar> / 2 ^ 24"
proof (cases "0 \<le> x")
  case True
  with assms rnd_error_pos [of x] show ?thesis by simp
next
  case False
  with assms rnd_error_pos [of "- x"] show ?thesis
    by (simp add: rnd_minus abs_minus_commute)
qed

text \<open>
  The rounding error is at most half the spacing, hence at most \<open>2\<^sup>k / 2\<^sup>2\<^sup>5\<close> below
  \<open>2\<^sup>k\<close>.
\<close>

lemma rnd_error_ulp: "\<bar>rnd x - x\<bar> \<le> ulp x / 2"
proof -
  have pos: "\<bar>rnd y - y\<bar> \<le> ulp y / 2" if "0 < y" for y
  proof -
    have "ulp y * (of_int (round_even (y / ulp y)) - y / ulp y) = rnd y - y"
      using that ulp_pos [of y] by (simp add: rnd_pos right_diff_distrib)
    then have "\<bar>rnd y - y\<bar> = \<bar>ulp y * (of_int (round_even (y / ulp y)) - y / ulp y)\<bar>"
      by simp
    also have "\<dots> = ulp y * \<bar>of_int (round_even (y / ulp y)) - y / ulp y\<bar>"
      using ulp_pos [of y] by (simp add: abs_mult less_imp_le)
    also have "\<dots> \<le> ulp y * (1 / 2)"
      by (intro mult_left_mono round_even_close) (simp add: less_imp_le)
    finally show ?thesis by simp
  qed
  consider "x = 0" | "0 < x" | "0 < - x" by linarith
  then show ?thesis
  proof cases
    case 1
    then show ?thesis using ulp_pos [of 0] by (simp add: less_imp_le)
  next
    case 2
    then show ?thesis by (rule pos)
  next
    case 3
    from pos [OF 3] show ?thesis
      by (simp add: rnd_minus abs_minus_commute)
  qed
qed

lemma rnd_error_below:
  assumes "\<bar>x\<bar> < 2 ^ k"
  shows "\<bar>rnd x - x\<bar> \<le> 2 ^ k / 2 ^ 25"
proof (cases "x = 0")
  case True
  then show ?thesis by simp
next
  case False
  from expo_bounds [OF False] assms have lt: "(2::real) powi expo x < 2 powi int k"
    by simp
  have "\<not> int k \<le> expo x"
  proof
    assume "int k \<le> expo x"
    then have "(2::real) powi int k \<le> 2 powi expo x"
      by (intro power_int_increasing) simp_all
    with lt show False by simp
  qed
  then have "expo x < int k"
    by simp
  then have "max (expo x) (- 126) - 23 \<le> int k - 24"
    by simp
  then have "ulp x \<le> 2 powi (int k - 24)"
    unfolding ulp_def by (intro power_int_increasing) simp_all
  also have "\<dots> = 2 ^ k / 2 ^ 24"
    by (simp add: power_int_diff)
  finally have "ulp x / 2 \<le> 2 ^ k / 2 ^ 25"
    by simp
  with rnd_error_ulp [of x] show ?thesis
    by linarith
qed

text \<open>
  The operations on floats, on their values. A result of an operation is computed by
  exhibiting the exponent and the significand of the rounded value.
\<close>

lemma val_f32: "val (f32 x) = rnd x"
  by (simp add: f32_def Abs_float_inverse)

lemma rnd_val [simp]: "rnd (val a) = val a"
proof -
  have "val a \<in> range rnd" by (rule val)
  then obtain y where "val a = rnd y" by blast
  then show ?thesis by simp
qed

lemma f32_val [simp]: "f32 (val a) = a"
  by (simp add: f32_def val_inverse)

lemma val_zero [simp]: "val 0 = 0"
  by (simp add: zero_float_def val_f32)

lemma val_plus: "val (a + b) = rnd (val a + val b)"
  by (simp add: plus_float_def val_f32)

lemma val_minus: "val (a - b) = rnd (val a - val b)"
  by (simp add: minus_float_def val_f32)

lemma val_times: "val (a * b) = rnd (val a * val b)"
  by (simp add: times_float_def val_f32)

lemma val_divide: "val (a / b) = rnd (val a / val b)"
  by (simp add: divide_float_def val_f32)

lemma val_uminus: "val (- a) = - val a"
  by (simp add: uminus_float_def val_f32 rnd_minus)

lemma val_abs: "val \<bar>a\<bar> = \<bar>val a\<bar>"
  by (simp add: abs_float_def val_f32 rnd_abs)

lemma float_eq_iff: "a = b \<longleftrightarrow> val a = val b"
  by (simp add: val_inject)

lemma float_self_cancel: "a - a = (0::float)"
  by (simp add: float_eq_iff val_minus)

lemma float_mult_zero: "a * 0 = (0::float)"
  by (simp add: float_eq_iff val_times)

lemma float_add_zero: "a + 0 = (a::float)"
  by (simp add: float_eq_iff val_plus)

lemma float_abs_diff_commute: "\<bar>a - b\<bar> = \<bar>b - a :: float\<bar>"
proof -
  have "val a - val b = - (val b - val a)" by simp
  then have "rnd (val a - val b) = - rnd (val b - val a)"
    by (simp only: rnd_minus)
  then show ?thesis
    by (simp add: float_eq_iff val_abs val_minus)
qed

lemma val_f32I: "rnd x = r \<Longrightarrow> val (f32 x) = r"
  by (simp add: val_f32)

lemma val_plusI: "val a = x \<Longrightarrow> val b = y \<Longrightarrow> rnd (x + y) = r \<Longrightarrow> val (a + b) = r"
  by (simp add: val_plus)

lemma val_minusI: "val a = x \<Longrightarrow> val b = y \<Longrightarrow> rnd (x - y) = r \<Longrightarrow> val (a - b) = r"
  by (simp add: val_minus)

lemma val_timesI: "val a = x \<Longrightarrow> val b = y \<Longrightarrow> rnd (x * y) = r \<Longrightarrow> val (a * b) = r"
  by (simp add: val_times)

lemma val_divideI: "val a = x \<Longrightarrow> val b = y \<Longrightarrow> rnd (x / y) = r \<Longrightarrow> val (a / b) = r"
  by (simp add: val_divide)

lemma val_uminusI: "val a = x \<Longrightarrow> - x = r \<Longrightarrow> val (- a) = r"
  by (simp add: val_uminus)

lemma val_absI: "val a = x \<Longrightarrow> \<bar>x\<bar> = r \<Longrightarrow> val \<bar>a\<bar> = r"
  by (simp add: val_abs)

lemma rnd_up_neg:
  assumes "2 ^ k \<le> - x" "- x < 2 * 2 ^ k"
    and "\<bar>- x * 2 ^ 23 / 2 ^ k - of_int n\<bar> < 1 / 2
         \<or> (\<bar>- x * 2 ^ 23 / 2 ^ k - of_int n\<bar> = 1 / 2 \<and> even n)"
    and "r = - (of_int n * 2 ^ k / 2 ^ 23)"
  shows "rnd x = r"
proof -
  have "rnd (- x) = of_int n * 2 ^ k / 2 ^ 23"
    using assms(1-3) by (rule rnd_up) simp
  then show ?thesis
    by (simp add: rnd_minus assms(4))
qed

lemma rnd_down_neg:
  assumes "1 \<le> - x * 2 ^ k" "- x * 2 ^ k < 2" "k \<le> 126"
    and "\<bar>- x * 2 ^ 23 * 2 ^ k - of_int n\<bar> < 1 / 2
         \<or> (\<bar>- x * 2 ^ 23 * 2 ^ k - of_int n\<bar> = 1 / 2 \<and> even n)"
    and "r = - (of_int n / (2 ^ 23 * 2 ^ k))"
  shows "rnd x = r"
proof -
  have "rnd (- x) = of_int n / (2 ^ 23 * 2 ^ k)"
    using assms(1-4) by (rule rnd_down) simp
  then show ?thesis
    by (simp add: rnd_minus assms(5))
qed

text \<open>The type for the code generator: a float is represented by its value.\<close>

declare val_inverse [code abstype]

declare val_f32 [code abstract] val_zero [code abstract] val_plus [code abstract]
  val_minus [code abstract] val_times [code abstract] val_divide [code abstract]
  val_uminus [code abstract] val_abs [code abstract]

declare less_eq_float_def [code] less_float_def [code]

section \<open>Values of the constants and literals\<close>

text \<open>
  The binary32 numbers that the constants of the source and the decimal literals used
  below denote. \<^verbatim>\<open>4.01f\<close> is \<open>8409580 / 2\<^sup>2\<^sup>1\<close>, a little above 4.01, and
  \<^verbatim>\<open>0.01f\<close> is a little below 0.01.
\<close>

lemma f32_2_6: "val (f32 2.6) = 5452595 / 2097152"
  by (rule val_f32I) (rule rnd_up [where k = 1 and n = 10905190], simp_all)

lemma f32_2_1: "val (f32 2.1) = 4404019 / 2097152"
  by (rule val_f32I) (rule rnd_up [where k = 1 and n = 8808038], simp_all)

lemma val_PH4: "val PH4 = 2102395 / 524288"
  unfolding PH4_def by (rule val_f32I) (rule rnd_up [where k = 2 and n = 8409580], simp_all)

lemma val_PH7: "val PH7 = 7"
  unfolding PH7_def by (rule val_f32I) (rule rnd_up [where k = 2 and n = 14680064], simp_all)

lemma f32_0_01: "val (f32 0.01) = 5368709 / 536870912"
  by (rule val_f32I) (rule rnd_down [where k = 7 and n = 10737418], simp_all)

lemma f32_100_01: "val (f32 100.01) = 13108511 / 131072"
  by (rule val_f32I) (rule rnd_up [where k = 6 and n = 13108511], simp_all)

lemma f32_100: "val (f32 100) = 100"
  by (rule val_f32I) (rule rnd_up [where k = 6 and n = 13107200], simp_all)

lemma f32_3_426: "val (f32 3.426) = 7184843 / 2097152"
  by (rule val_f32I) (rule rnd_up [where k = 1 and n = 14369686], simp_all)

lemma f32_3_416: "val (f32 3.416) = 7163871 / 2097152"
  by (rule val_f32I) (rule rnd_up [where k = 1 and n = 14327742], simp_all)

lemma f32_1_8: "val (f32 1.8) = 7549747 / 4194304"
  by (rule val_f32I) (rule rnd_up [where k = 0 and n = 15099494], simp_all)

lemma val_PH9: "val PH9 = 1203241 / 131072"
  unfolding PH9_def by (rule val_f32I) (rule rnd_up [where k = 3 and n = 9625928], simp_all)

lemma f32_99_99: "val (f32 99.99) = 13105889 / 131072"
  by (rule val_f32I) (rule rnd_up [where k = 6 and n = 13105889], simp_all)

lemma f32_2_3: "val (f32 2.3) = 9646899 / 4194304"
  by (rule val_f32I) (rule rnd_up [where k = 1 and n = 9646899], simp_all)

lemma f32_1e_9: "val (f32 (1 / 10 ^ 9)) = 9007199 / 9007199254740992"
  by (rule val_f32I) (rule rnd_down [where k = 30 and n = 9007199], simp_all)

lemma f32_2_15: "val (f32 2.15) = 4508877 / 2097152"
  by (rule val_f32I) (rule rnd_up [where k = 1 and n = 9017754], simp_all)

lemma f32_2_10: "val (f32 2.10) = 4404019 / 2097152"
  by (rule val_f32I) (rule rnd_up [where k = 1 and n = 8808038], simp_all)

lemma f32_2_05: "val (f32 2.05) = 8598323 / 4194304"
  by (rule val_f32I) (rule rnd_up [where k = 1 and n = 8598323], simp_all)

lemma f32_2_100: "val (f32 2.100) = 4404019 / 2097152"
  by (rule val_f32I) (rule rnd_up [where k = 1 and n = 8808038], simp_all)

lemma f32_2_105: "val (f32 2.105) = 4414505 / 2097152"
  by (rule val_f32I) (rule rnd_up [where k = 1 and n = 8829010], simp_all)

lemma f32_2_605: "val (f32 2.605) = 5463081 / 2097152"
  by (rule val_f32I) (rule rnd_up [where k = 1 and n = 10926162], simp_all)

lemma f32_1_9: "val (f32 1.9) = 15938355 / 8388608"
  by (rule val_f32I) (rule rnd_up [where k = 0 and n = 15938355], simp_all)

lemma f32_1_6: "val (f32 1.6) = 13421773 / 8388608"
  by (rule val_f32I) (rule rnd_up [where k = 0 and n = 13421773], simp_all)

lemma f32_2_49: "val (f32 2.49) = 10443817 / 4194304"
  by (rule val_f32I) (rule rnd_up [where k = 1 and n = 10443817], simp_all)

lemma val_MAIN_ALPHA: "val MAIN_ALPHA = 5033165 / 33554432"
  unfolding MAIN_ALPHA_def by (rule val_f32I) (rule rnd_down [where k = 3 and n = 10066330], simp_all)

lemma f32_2_5: "val (f32 2.5) = 5 / 2"
  by (rule val_f32I) (rule rnd_up [where k = 1 and n = 10485760], simp_all)

lemma f32_N_18: "val (f32 (real 20 - 2)) = 18"
  by (rule val_f32I) (rule rnd_up [where k = 4 and n = 9437184], simp_all)

lemma f32_1e9: "val (f32 (10 ^ 9)) = 1000000000"
  by (rule val_f32I) (rule rnd_up [where k = 29 and n = 15625000], simp_all)

lemma f32_64: "val (f32 64) = 64"
  by (rule val_f32I) (rule rnd_up [where k = 6 and n = 8388608], simp_all)

lemma f32_N_23: "val (f32 (real 25 - 2)) = 23"
  by (rule val_f32I) (rule rnd_up [where k = 4 and n = 12058624], simp_all)

lemma f32_46000: "val (f32 46000) = 46000"
  by (rule val_f32I) (rule rnd_up [where k = 15 and n = 11776000], simp_all)

lemma val_ADC_MAX: "val ADC_MAX = 4095"
  unfolding ADC_MAX_def by (rule val_f32I) (rule rnd_up [where k = 11 and n = 16773120], simp_all)

lemma val_ADC_VREF: "val ADC_VREF = 13841203 / 4194304"
  unfolding ADC_VREF_def by (rule val_f32I) (rule rnd_up [where k = 1 and n = 13841203], simp_all)


section \<open>Segment selection\<close>

lemma calculatePH_piecewise_segment:
  "useTwoLines s \<Longrightarrow> calculatePH_piecewise s v = line_of s (segment_taken s v) v"
  by (simp add: calculatePH_piecewise_def line_of_def segment_taken_def)

text \<open>
  C10. Evaluated exactly at the breakpoint voltage, a two-line model takes the low line
  whichever way it is oriented: the typical orientation tests \<open>v \<ge> v7_break\<close> for the
  low line and the inverted one \<open>v \<le> v7_break\<close>, and both hold at \<open>v = v7_break\<close>. So
  the two orientations route every other voltage to opposite lines and the breakpoint
  itself to the same one.
\<close>

theorem breakpoint_selects_low:
  "segment_taken s (v7_break s) = Low
   \<and> calculatePH_piecewise s (v7_break s) = mLow s * v7_break s + bLow s
   \<and> (segment_taken (s\<lparr>typicalDirection := True\<rparr>) v = Low) = (v \<ge> v7_break s)
   \<and> (segment_taken (s\<lparr>typicalDirection := False\<rparr>) v = Low) = (v \<le> v7_break s)
   \<and> (segment_taken (s\<lparr>typicalDirection := True\<rparr>) v
        = segment_taken (s\<lparr>typicalDirection := False\<rparr>) v) = (v = v7_break s)"
  by (auto simp add: calculatePH_piecewise_def segment_taken_def not_less)

text \<open>What each save function leaves in the globals.\<close>

lemma saveTwoLines_fields:
  "useTwoLines (saveTwoLines V4 V7 V9 s)"
  "typicalDirection (saveTwoLines V4 V7 V9 s) = (V4 > V7)"
  "v7_break (saveTwoLines V4 V7 V9 s) = V7"
  "mLow (saveTwoLines V4 V7 V9 s) = (PH4 - PH7) / (V4 - V7)"
  "bLow (saveTwoLines V4 V7 V9 s) = PH7 - (PH4 - PH7) / (V4 - V7) * V7"
  "mHigh (saveTwoLines V4 V7 V9 s) = (PH7 - PH9) / (V7 - V9)"
  "bHigh (saveTwoLines V4 V7 V9 s) = PH7 - (PH7 - PH9) / (V7 - V9) * V7"
  "filtV_main (saveTwoLines V4 V7 V9 s) = None"
  by (simp_all add: saveTwoLines_def Let_def)

lemma saveOneLine_fields:
  "\<not> useTwoLines (saveOneLine V4 V7 s)"
  "typicalDirection (saveOneLine V4 V7 s) = (V4 > V7)"
  "v7_break (saveOneLine V4 V7 s) = V7"
  "mLow (saveOneLine V4 V7 s) = (PH4 - PH7) / (V4 - V7)"
  "bLow (saveOneLine V4 V7 s) = PH7 - (PH4 - PH7) / (V4 - V7) * V7"
  "mHigh (saveOneLine V4 V7 s) = (PH4 - PH7) / (V4 - V7)"
  "bHigh (saveOneLine V4 V7 s) = PH7 - (PH4 - PH7) / (V4 - V7) * V7"
  "filtV_main (saveOneLine V4 V7 s) = None"
  by (simp_all add: saveOneLine_def Let_def)

lemma saveLinear_fields:
  "\<not> useQuadratic (saveLinear m b q)"
  "linM (saveLinear m b q) = m"
  "linB (saveLinear m b q) = b"
  "qa (saveLinear m b q) = qa q"
  "qb (saveLinear m b q) = qb q"
  "qc (saveLinear m b q) = qc q"
  "filtV (saveLinear m b q) = None"
  by (simp_all add: saveLinear_def)

lemma saveQuadratic_fields:
  "useQuadratic (saveQuadratic a b c q)"
  "linM (saveQuadratic a b c q) = linM q"
  "linB (saveQuadratic a b c q) = linB q"
  "qa (saveQuadratic a b c q) = a"
  "qb (saveQuadratic a b c q) = b"
  "qc (saveQuadratic a b c q) = c"
  "filtV (saveQuadratic a b c q) = None"
  by (simp_all add: saveQuadratic_def)

text \<open>
  C1. In a two-line model the stored flag \<open>typicalDirection\<close> alone orients the
  comparison with the breakpoint: with the flag set, \<open>v \<ge> v7_break\<close> takes the low line
  and \<open>v < v7_break\<close> the high line; with the flag clear the comparison is flipped,
  \<open>v \<le> v7_break\<close> takes the low line and \<open>v > v7_break\<close> the high line. Two models
  with the same flag and breakpoint take the same line whatever their slopes are.
  \<^verbatim>\<open>saveTwoLines\<close> sets the flag to \<open>V4 > V7\<close> and the breakpoint to \<open>V7\<close>, and a
  later \<^verbatim>\<open>loadCalibration\<close> reads the same flag back from the store.
\<close>

theorem direction_routing:
  assumes "useTwoLines s"
  shows "(typicalDirection s \<longrightarrow>
            (v \<ge> v7_break s \<longrightarrow> segment_taken s v = Low
               \<and> calculatePH_piecewise s v = mLow s * v + bLow s)
          \<and> (v < v7_break s \<longrightarrow> segment_taken s v = High
               \<and> calculatePH_piecewise s v = mHigh s * v + bHigh s))
       \<and> (\<not> typicalDirection s \<longrightarrow>
            (v \<le> v7_break s \<longrightarrow> segment_taken s v = Low
               \<and> calculatePH_piecewise s v = mLow s * v + bLow s)
          \<and> (v > v7_break s \<longrightarrow> segment_taken s v = High
               \<and> calculatePH_piecewise s v = mHigh s * v + bHigh s))
       \<and> (typicalDirection t = typicalDirection s \<and> v7_break t = v7_break s
            \<longrightarrow> segment_taken t v = segment_taken s v)
       \<and> useTwoLines (saveTwoLines V4 V7 V9 s0)
       \<and> v7_break (saveTwoLines V4 V7 V9 s0) = V7
       \<and> typicalDirection (saveTwoLines V4 V7 V9 s0) = (V4 > V7)
       \<and> typicalDirection (loadCalibration (saveTwoLines V4 V7 V9 s0)) = (V4 > V7)"
proof -
  have routed: "calculatePH_piecewise s v = line_of s (segment_taken s v) v"
    using assms by (rule calculatePH_piecewise_segment)
  have built: "useTwoLines (saveTwoLines V4 V7 V9 s0)
       \<and> v7_break (saveTwoLines V4 V7 V9 s0) = V7
       \<and> typicalDirection (saveTwoLines V4 V7 V9 s0) = (V4 > V7)"
    by (simp add: saveTwoLines_def Let_def)
  have loaded: "typicalDirection (loadCalibration (saveTwoLines V4 V7 V9 s0)) = (V4 > V7)"
    by (simp add: loadCalibration_def saveTwoLines_def Let_def getBool_def putBool_def
        putFloat_def)
  have sel: "(typicalDirection s \<longrightarrow>
            (v \<ge> v7_break s \<longrightarrow> segment_taken s v = Low)
          \<and> (v < v7_break s \<longrightarrow> segment_taken s v = High))
       \<and> (\<not> typicalDirection s \<longrightarrow>
            (v \<le> v7_break s \<longrightarrow> segment_taken s v = Low)
          \<and> (v > v7_break s \<longrightarrow> segment_taken s v = High))"
    by (auto simp add: segment_taken_def not_less)
  have same: "typicalDirection t = typicalDirection s \<and> v7_break t = v7_break s
            \<longrightarrow> segment_taken t v = segment_taken s v"
    by (simp add: segment_taken_def)
  from sel same built loaded show ?thesis
    unfolding routed by (auto simp add: line_of_def not_less)
qed

text \<open>Comparisons of the voltages used in the examples, by their values.\<close>

lemma routing_values:
  shows "f32 2.1 < f32 2.3"
    and "f32 1.9 < f32 2.1"
    and "f32 2.1 < f32 2.6"
    and "f32 1.6 < f32 2.1"
    and "0 < f32 1.8"
    and "0 < f32 2.6"
    and "0 < f32 2.1"
    and "0 < f32 0.01"
    and "0 < f32 (1 / 10 ^ 9)"
proof -

  show "f32 2.1 < f32 2.3"
    unfolding less_float_def f32_2_1 f32_2_3 by simp
  show "f32 1.9 < f32 2.1"
    unfolding less_float_def f32_1_9 f32_2_1 by simp
  show "f32 2.1 < f32 2.6"
    unfolding less_float_def f32_2_1 f32_2_6 by simp
  show "f32 1.6 < f32 2.1"
    unfolding less_float_def f32_1_6 f32_2_1 by simp
  show "0 < f32 1.8"
    unfolding less_float_def val_zero f32_1_8 by simp
  show "0 < f32 2.6"
    unfolding less_float_def val_zero f32_2_6 by simp
  show "0 < f32 2.1"
    unfolding less_float_def val_zero f32_2_1 by simp
  show "0 < f32 0.01"
    unfolding less_float_def val_zero f32_0_01 by simp
  show "0 < f32 (1 / 10 ^ 9)"
    unfolding less_float_def val_zero f32_1e_9 by simp
qed

text \<open>
  The routing at work: the fit of 2.6, 2.1, 1.8 (typical) sends 2.3 V to the low line and
  1.9 V to the high line; the fit of 1.6, 2.1, 2.4 (inverted, same breakpoint) sends them
  the other way.
\<close>

theorem direction_routing_witness:
  "useTwoLines (saveTwoLines (f32 2.6) (f32 2.1) (f32 1.8) (power_on []))
   \<and> typicalDirection (saveTwoLines (f32 2.6) (f32 2.1) (f32 1.8) (power_on []))
   \<and> segment_taken (saveTwoLines (f32 2.6) (f32 2.1) (f32 1.8) (power_on [])) (f32 2.3) = Low
   \<and> segment_taken (saveTwoLines (f32 2.6) (f32 2.1) (f32 1.8) (power_on [])) (f32 1.9) = High
   \<and> useTwoLines (saveTwoLines (f32 1.6) (f32 2.1) (f32 2.4) (power_on []))
   \<and> \<not> typicalDirection (saveTwoLines (f32 1.6) (f32 2.1) (f32 2.4) (power_on []))
   \<and> segment_taken (saveTwoLines (f32 1.6) (f32 2.1) (f32 2.4) (power_on [])) (f32 2.3) = High
   \<and> segment_taken (saveTwoLines (f32 1.6) (f32 2.1) (f32 2.4) (power_on [])) (f32 1.9) = Low"
proof -
  let ?a = "saveTwoLines (f32 2.6) (f32 2.1) (f32 1.8) (power_on [])"
  let ?b = "saveTwoLines (f32 1.6) (f32 2.1) (f32 2.4) (power_on [])"
  note cmp = routing_values(1-4)
  have a: "useTwoLines ?a" "typicalDirection ?a" "v7_break ?a = f32 2.1"
    using cmp(3) by (simp_all add: saveTwoLines_fields)
  have b: "useTwoLines ?b" "\<not> typicalDirection ?b" "v7_break ?b = f32 2.1"
    using cmp(4) by (simp_all add: saveTwoLines_fields not_less less_imp_le)
  have a1: "segment_taken ?a (f32 2.3) = Low"
    using direction_routing [OF a(1), of "f32 2.3" ?a 0 0 0 ?a] a(2,3) cmp(1)
    by (simp add: less_imp_le)
  have a2: "segment_taken ?a (f32 1.9) = High"
    using direction_routing [OF a(1), of "f32 1.9" ?a 0 0 0 ?a] a(2,3) cmp(2) by simp
  have b1: "segment_taken ?b (f32 2.3) = High"
    using direction_routing [OF b(1), of "f32 2.3" ?b 0 0 0 ?b] b(2,3) cmp(1) by simp
  have b2: "segment_taken ?b (f32 1.9) = Low"
    using direction_routing [OF b(1), of "f32 1.9" ?b 0 0 0 ?b] b(2,3) cmp(2)
    by (simp add: less_imp_le)
  from a(1,2) b(1,2) a1 a2 b1 b2 show ?thesis by blast
qed

section \<open>Fitting\<close>

text \<open>Requests that carry all their arguments.\<close>

lemma arg_v4_v7 [simp]:
  "hasArg [''v4'' \<mapsto> V4, ''v7'' \<mapsto> V7] ''v4''"
  "hasArg [''v4'' \<mapsto> V4, ''v7'' \<mapsto> V7] ''v7''"
  "arg [''v4'' \<mapsto> V4, ''v7'' \<mapsto> V7] ''v4'' = V4"
  "arg [''v4'' \<mapsto> V4, ''v7'' \<mapsto> V7] ''v7'' = V7"
  by (simp_all add: hasArg_def arg_def)

lemma arg_v4_v7_v9 [simp]:
  "hasArg [''v4'' \<mapsto> V4, ''v7'' \<mapsto> V7, ''v9'' \<mapsto> V9] ''v4''"
  "hasArg [''v4'' \<mapsto> V4, ''v7'' \<mapsto> V7, ''v9'' \<mapsto> V9] ''v7''"
  "hasArg [''v4'' \<mapsto> V4, ''v7'' \<mapsto> V7, ''v9'' \<mapsto> V9] ''v9''"
  "arg [''v4'' \<mapsto> V4, ''v7'' \<mapsto> V7, ''v9'' \<mapsto> V9] ''v4'' = V4"
  "arg [''v4'' \<mapsto> V4, ''v7'' \<mapsto> V7, ''v9'' \<mapsto> V9] ''v7'' = V7"
  "arg [''v4'' \<mapsto> V4, ''v7'' \<mapsto> V7, ''v9'' \<mapsto> V9] ''v9'' = V9"
  by (simp_all add: hasArg_def arg_def)

text \<open>What an accepted request leaves, and which requests are accepted.\<close>

lemma handleSetCal2_accepted:
  assumes "fst (handleSetCal2 rq s) = Reply200"
  shows "snd (handleSetCal2 rq s) = saveOneLine (arg rq ''v4'') (arg rq ''v7'') s"
    and "fst (handleSetCal2_quad rq q) = Reply200"
    and "snd (handleSetCal2_quad rq q)
           = saveLinear ((PH4 - PH7) / (arg rq ''v4'' - arg rq ''v7''))
               (PH7 - (PH4 - PH7) / (arg rq ''v4'' - arg rq ''v7'') * arg rq ''v7'') q"
  using assms
  by (auto simp add: handleSetCal2_def handleSetCal2_quad_def Let_def split: if_splits)

lemma handleSetCal3_accepted:
  assumes "fst (handleSetCal3 rq s) = Reply200"
  shows "snd (handleSetCal3 rq s)
           = saveTwoLines (arg rq ''v4'') (arg rq ''v7'') (arg rq ''v9'') s"
  using assms by (auto simp add: handleSetCal3_def Let_def split: if_splits)

lemma handleSetCal2_accepts:
  assumes "0 < V4" "0 < V7" "f32 0.01 \<le> \<bar>V4 - V7\<bar>"
  shows "handleSetCal2 [''v4'' \<mapsto> V4, ''v7'' \<mapsto> V7] s = (Reply200, saveOneLine V4 V7 s)"
    and "handleSetCal2_quad [''v4'' \<mapsto> V4, ''v7'' \<mapsto> V7] q
           = (Reply200, saveLinear ((PH4 - PH7) / (V4 - V7))
                (PH7 - (PH4 - PH7) / (V4 - V7) * V7) q)"
  using assms by (simp_all add: handleSetCal2_def handleSetCal2_quad_def Let_def not_le not_less)

lemma handleSetCal3_accepts:
  assumes "0 < V4" "0 < V7" "0 < V9"
    and "f32 0.01 \<le> \<bar>V4 - V7\<bar>" "f32 0.01 \<le> \<bar>V9 - V7\<bar>" "f32 0.01 \<le> \<bar>V9 - V4\<bar>"
  shows "handleSetCal3 [''v4'' \<mapsto> V4, ''v7'' \<mapsto> V7, ''v9'' \<mapsto> V9] s
           = (Reply200, saveTwoLines V4 V7 V9 s)"
  using assms by (simp add: handleSetCal3_def Let_def not_le not_less)

lemma handleSetCal2_too_close:
  assumes "0 < V4" "0 < V7" "\<bar>V4 - V7\<bar> < f32 0.01"
  shows "handleSetCal2 [''v4'' \<mapsto> V4, ''v7'' \<mapsto> V7] s = (Reply400 DegenerateFit, s)"
  using assms by (simp add: handleSetCal2_def Let_def not_le)

text \<open>The lines a save leaves, as \<^verbatim>\<open>calculatePH_piecewise\<close> evaluates them.\<close>

lemma calc_saveOneLine:
  "calculatePH_piecewise (saveOneLine V4 V7 s) v
     = (PH4 - PH7) / (V4 - V7) * v + (PH7 - (PH4 - PH7) / (V4 - V7) * V7)"
  by (simp add: calculatePH_piecewise_def saveOneLine_fields)

lemma calc_saveLinear: "calculatePH (saveLinear m b q) v = m * v + b"
  by (simp add: calculatePH_def saveLinear_fields)

lemma calc_saveQuadratic: "calculatePH (saveQuadratic a b c q) v = a * v * v + b * v + c"
  by (simp add: calculatePH_def saveQuadratic_fields)

lemma line_of_saveTwoLines:
  "line_of (saveTwoLines V4 V7 V9 s) Low v
     = (PH4 - PH7) / (V4 - V7) * v + (PH7 - (PH4 - PH7) / (V4 - V7) * V7)"
  "line_of (saveTwoLines V4 V7 V9 s) High v
     = (PH7 - PH9) / (V7 - V9) * v + (PH7 - (PH7 - PH9) / (V7 - V9) * V7)"
  by (simp_all add: line_of_def saveTwoLines_fields)

lemma calc_saveTwoLines:
  "calculatePH_piecewise (saveTwoLines V4 V7 V9 s) v
     = line_of (saveTwoLines V4 V7 V9 s) (segment_taken (saveTwoLines V4 V7 V9 s) v) v"
  by (rule calculatePH_piecewise_segment) (simp add: saveTwoLines_fields)

lemma segment_saveTwoLines:
  "segment_taken (saveTwoLines V4 V7 V9 s) V7 = Low"
  "V7 < V4 \<Longrightarrow> v < V7 \<Longrightarrow> segment_taken (saveTwoLines V4 V7 V9 s) v = High"
  "V7 < V4 \<Longrightarrow> V7 \<le> v \<Longrightarrow> segment_taken (saveTwoLines V4 V7 V9 s) v = Low"
  "V4 < V7 \<Longrightarrow> V7 < v \<Longrightarrow> segment_taken (saveTwoLines V4 V7 V9 s) v = High"
  "V4 < V7 \<Longrightarrow> v \<le> V7 \<Longrightarrow> segment_taken (saveTwoLines V4 V7 V9 s) v = Low"
  by (auto simp add: segment_taken_def saveTwoLines_fields)

subsection \<open>The two-point fit\<close>

text \<open>
  The two-point fit at the reference voltages 2.600 V and 2.100 V, at 100.01 V and
  100 V, and at 3.426 V and 3.416 V: the slope \<open>m\<close>, the intercept \<open>b\<close> and the line
  at both voltages, every operation rounded.
\<close>

lemma fit2_reference:
  defines "V4 \<equiv> f32 2.6"
  defines "V7 \<equiv> f32 2.1"
  defines "m \<equiv> (PH4 - PH7) / (V4 - V7)"
  defines "b \<equiv> PH7 - m * V7"
  shows "0 < V4"
    and "0 < V7"
    and "f32 0.01 \<le> \<bar>V4 - V7\<bar>"
    and "val (m * V7 + b) = 7"
    and "val (m * V4 + b) = 2102395 / 524288"
proof -
  have e1: "val V4 = 5452595 / 2097152"
    unfolding V4_def by (rule f32_2_6)
  have e2: "val V7 = 4404019 / 2097152"
    unfolding V7_def by (rule f32_2_1)
  have e3: "val (PH4 - PH7) = - (1567621 / 524288)"
    by (rule val_minusI [OF val_PH4 val_PH7]) (rule rnd_up_neg [where k = 1 and n = 12540968], simp_all)
  have e4: "val (V4 - V7) = 1 / 2"
    by (rule val_minusI [OF e1 e2]) (rule rnd_down [where k = 1 and n = 8388608], simp_all)
  have e5: "val ((PH4 - PH7) / (V4 - V7)) = - (1567621 / 262144)"
    by (rule val_divideI [OF e3 e4]) (rule rnd_up_neg [where k = 2 and n = 12540968], simp_all)
  have e6: "val m = - (1567621 / 262144)"
    unfolding m_def by (rule e5)
  have e7: "val (m * V7) = - (823001 / 65536)"
    by (rule val_timesI [OF e6 e2]) (rule rnd_up_neg [where k = 3 and n = 13168016], simp_all)
  have e8: "val (PH7 - m * V7) = 1281753 / 65536"
    by (rule val_minusI [OF val_PH7 e7]) (rule rnd_up [where k = 4 and n = 10254024], simp_all)
  have e9: "val b = 1281753 / 65536"
    unfolding b_def by (rule e8)
  have e10: "val \<bar>V4 - V7\<bar> = 1 / 2"
    by (rule val_absI [OF e4]) simp
  have e11: "val (m * V7 + b) = 7"
    by (rule val_plusI [OF e7 e9]) (rule rnd_up [where k = 2 and n = 14680064], simp_all)
  have e12: "val (m * V4) = - (8151629 / 524288)"
    by (rule val_timesI [OF e6 e1]) (rule rnd_up_neg [where k = 3 and n = 16303258], simp_all)
  have e13: "val (m * V4 + b) = 2102395 / 524288"
    by (rule val_plusI [OF e12 e9]) (rule rnd_up [where k = 2 and n = 8409580], simp_all)
  show "0 < V4"
    unfolding less_float_def val_zero e1 by simp
  show "0 < V7"
    unfolding less_float_def val_zero e2 by simp
  show "f32 0.01 \<le> \<bar>V4 - V7\<bar>"
    unfolding less_eq_float_def f32_0_01 e10 by simp
  show "val (m * V7 + b) = 7"
    by (rule e11)
  show "val (m * V4 + b) = 2102395 / 524288"
    by (rule e13)
qed

lemma fit2_far:
  defines "V4 \<equiv> f32 100.01"
  defines "V7 \<equiv> f32 100"
  defines "m \<equiv> (PH4 - PH7) / (V4 - V7)"
  defines "b \<equiv> PH7 - m * V7"
  shows "0 < V4"
    and "0 < V7"
    and "f32 0.01 \<le> \<bar>V4 - V7\<bar>"
    and "val (m * V7 + b) = 7"
    and "val (m * V4 + b) = 2053 / 512"
proof -
  have e1: "val V4 = 13108511 / 131072"
    unfolding V4_def by (rule f32_100_01)
  have e2: "val V7 = 100"
    unfolding V7_def by (rule f32_100)
  have e3: "val (PH4 - PH7) = - (1567621 / 524288)"
    by (rule val_minusI [OF val_PH4 val_PH7]) (rule rnd_up_neg [where k = 1 and n = 12540968], simp_all)
  have e4: "val (V4 - V7) = 1311 / 131072"
    by (rule val_minusI [OF e1 e2]) (rule rnd_down [where k = 7 and n = 10739712], simp_all)
  have e5: "val ((PH4 - PH7) / (V4 - V7)) = - (9795539 / 32768)"
    by (rule val_divideI [OF e3 e4]) (rule rnd_up_neg [where k = 8 and n = 9795539], simp_all)
  have e6: "val m = - (9795539 / 32768)"
    unfolding m_def by (rule e5)
  have e7: "val (m * V7) = - (7652765 / 256)"
    by (rule val_timesI [OF e6 e2]) (rule rnd_up_neg [where k = 14 and n = 15305530], simp_all)
  have e8: "val (PH7 - m * V7) = 7654557 / 256"
    by (rule val_minusI [OF val_PH7 e7]) (rule rnd_up [where k = 14 and n = 15309114], simp_all)
  have e9: "val b = 7654557 / 256"
    unfolding b_def by (rule e8)
  have e10: "val \<bar>V4 - V7\<bar> = 1311 / 131072"
    by (rule val_absI [OF e4]) simp
  have e11: "val (m * V7 + b) = 7"
    by (rule val_plusI [OF e7 e9]) (rule rnd_up [where k = 2 and n = 14680064], simp_all)
  have e12: "val (m * V4) = - (15307061 / 512)"
    by (rule val_timesI [OF e6 e1]) (rule rnd_up_neg [where k = 14 and n = 15307061], simp_all)
  have e13: "val (m * V4 + b) = 2053 / 512"
    by (rule val_plusI [OF e12 e9]) (rule rnd_up [where k = 2 and n = 8409088], simp_all)
  show "0 < V4"
    unfolding less_float_def val_zero e1 by simp
  show "0 < V7"
    unfolding less_float_def val_zero e2 by simp
  show "f32 0.01 \<le> \<bar>V4 - V7\<bar>"
    unfolding less_eq_float_def f32_0_01 e10 by simp
  show "val (m * V7 + b) = 7"
    by (rule e11)
  show "val (m * V4 + b) = 2053 / 512"
    by (rule e13)
qed

lemma fit2_close:
  defines "V4 \<equiv> f32 3.426"
  defines "V7 \<equiv> f32 3.416"
  defines "m \<equiv> (PH4 - PH7) / (V4 - V7)"
  defines "b \<equiv> PH7 - m * V7"
  shows "0 < V4"
    and "0 < V7"
    and "f32 0.01 \<le> \<bar>V4 - V7\<bar>"
    and "val (m * V7 + b) = 114689 / 16384"
    and "val (m * V4 + b) = 32851 / 8192"
proof -
  have e1: "val V4 = 7184843 / 2097152"
    unfolding V4_def by (rule f32_3_426)
  have e2: "val V7 = 7163871 / 2097152"
    unfolding V7_def by (rule f32_3_416)
  have e3: "val (PH4 - PH7) = - (1567621 / 524288)"
    by (rule val_minusI [OF val_PH4 val_PH7]) (rule rnd_up_neg [where k = 1 and n = 12540968], simp_all)
  have e4: "val (V4 - V7) = 5243 / 524288"
    by (rule val_minusI [OF e1 e2]) (rule rnd_down [where k = 7 and n = 10737664], simp_all)
  have e5: "val ((PH4 - PH7) / (V4 - V7)) = - (9797407 / 32768)"
    by (rule val_divideI [OF e3 e4]) (rule rnd_up_neg [where k = 8 and n = 9797407], simp_all)
  have e6: "val m = - (9797407 / 32768)"
    unfolding m_def by (rule e5)
  have e7: "val (m * V7) = - (16733971 / 16384)"
    by (rule val_timesI [OF e6 e2]) (rule rnd_up_neg [where k = 9 and n = 16733971], simp_all)
  have e8: "val (PH7 - m * V7) = 4212165 / 4096"
    by (rule val_minusI [OF val_PH7 e7]) (rule rnd_up [where k = 10 and n = 8424330], simp_all)
  have e9: "val b = 4212165 / 4096"
    unfolding b_def by (rule e8)
  have e10: "val \<bar>V4 - V7\<bar> = 5243 / 524288"
    by (rule val_absI [OF e4]) simp
  have e11: "val (m * V7 + b) = 114689 / 16384"
    by (rule val_plusI [OF e7 e9]) (rule rnd_up [where k = 2 and n = 14680192], simp_all)
  have e12: "val (m * V4) = - (8391479 / 8192)"
    by (rule val_timesI [OF e6 e1]) (rule rnd_up_neg [where k = 10 and n = 8391479], simp_all)
  have e13: "val (m * V4 + b) = 32851 / 8192"
    by (rule val_plusI [OF e12 e9]) (rule rnd_up [where k = 2 and n = 8409856], simp_all)
  show "0 < V4"
    unfolding less_float_def val_zero e1 by simp
  show "0 < V7"
    unfolding less_float_def val_zero e2 by simp
  show "f32 0.01 \<le> \<bar>V4 - V7\<bar>"
    unfolding less_eq_float_def f32_0_01 e10 by simp
  show "val (m * V7 + b) = 114689 / 16384"
    by (rule e11)
  show "val (m * V4 + b) = 32851 / 8192"
    by (rule e13)
qed




subsection \<open>The three-point fit\<close>

text \<open>
  The three-point fit at the reference voltages 2.600 V, 2.100 V and 1.800 V, at
  100.01 V, 100 V and 99.99 V, and at 2.6 V, 2.1 V and 2.3 V (the third voltage on the
  side of the first): both slopes and intercepts and the two lines at the voltages, every
  operation rounded.
\<close>

lemma fit3_reference:
  defines "V4 \<equiv> f32 2.6"
  defines "V7 \<equiv> f32 2.1"
  defines "V9 \<equiv> f32 1.8"
  defines "mL \<equiv> (PH4 - PH7) / (V4 - V7)"
  defines "bL \<equiv> PH7 - mL * V7"
  defines "mH \<equiv> (PH7 - PH9) / (V7 - V9)"
  defines "bH \<equiv> PH7 - mH * V7"
  shows "0 < V4"
    and "0 < V7"
    and "0 < V9"
    and "f32 0.01 \<le> \<bar>V4 - V7\<bar>"
    and "f32 0.01 \<le> \<bar>V9 - V7\<bar>"
    and "f32 0.01 \<le> \<bar>V9 - V4\<bar>"
    and "V7 < V4"
    and "V9 < V7"
    and "val (mL * V7 + bL) = 7"
    and "val (mH * V7 + bH) = 7"
    and "val (mH * V9 + bH) = 1203241 / 131072"
    and "val (mL * V4 + bL) = 2102395 / 524288"
    and "val (mL * V9 + bL) = 9221177 / 1048576"
proof -
  have e1: "val V4 = 5452595 / 2097152"
    unfolding V4_def by (rule f32_2_6)
  have e2: "val V7 = 4404019 / 2097152"
    unfolding V7_def by (rule f32_2_1)
  have e3: "val V9 = 7549747 / 4194304"
    unfolding V9_def by (rule f32_1_8)
  have e4: "val (PH4 - PH7) = - (1567621 / 524288)"
    by (rule val_minusI [OF val_PH4 val_PH7]) (rule rnd_up_neg [where k = 1 and n = 12540968], simp_all)
  have e5: "val (V4 - V7) = 1 / 2"
    by (rule val_minusI [OF e1 e2]) (rule rnd_down [where k = 1 and n = 8388608], simp_all)
  have e6: "val ((PH4 - PH7) / (V4 - V7)) = - (1567621 / 262144)"
    by (rule val_divideI [OF e4 e5]) (rule rnd_up_neg [where k = 2 and n = 12540968], simp_all)
  have e7: "val mL = - (1567621 / 262144)"
    unfolding mL_def by (rule e6)
  have e8: "val (mL * V7) = - (823001 / 65536)"
    by (rule val_timesI [OF e7 e2]) (rule rnd_up_neg [where k = 3 and n = 13168016], simp_all)
  have e9: "val (PH7 - mL * V7) = 1281753 / 65536"
    by (rule val_minusI [OF val_PH7 e8]) (rule rnd_up [where k = 4 and n = 10254024], simp_all)
  have e10: "val bL = 1281753 / 65536"
    unfolding bL_def by (rule e9)
  have e11: "val (PH7 - PH9) = - (285737 / 131072)"
    by (rule val_minusI [OF val_PH7 val_PH9]) (rule rnd_up_neg [where k = 1 and n = 9143584], simp_all)
  have e12: "val (V7 - V9) = 1258291 / 4194304"
    by (rule val_minusI [OF e2 e3]) (rule rnd_down [where k = 2 and n = 10066328], simp_all)
  have e13: "val ((PH7 - PH9) / (V7 - V9)) = - (15239309 / 2097152)"
    by (rule val_divideI [OF e11 e12]) (rule rnd_up_neg [where k = 2 and n = 15239309], simp_all)
  have e14: "val mH = - (15239309 / 2097152)"
    unfolding mH_def by (rule e13)
  have e15: "val (mH * V7) = - (8000637 / 524288)"
    by (rule val_timesI [OF e14 e2]) (rule rnd_up_neg [where k = 3 and n = 16001274], simp_all)
  have e16: "val (PH7 - mH * V7) = 11670653 / 524288"
    by (rule val_minusI [OF val_PH7 e15]) (rule rnd_up [where k = 4 and n = 11670653], simp_all)
  have e17: "val bH = 11670653 / 524288"
    unfolding bH_def by (rule e16)
  have e18: "val \<bar>V4 - V7\<bar> = 1 / 2"
    by (rule val_absI [OF e5]) simp
  have e19: "val (V9 - V7) = - (1258291 / 4194304)"
    by (rule val_minusI [OF e3 e2]) (rule rnd_down_neg [where k = 2 and n = 10066328], simp_all)
  have e20: "val \<bar>V9 - V7\<bar> = 1258291 / 4194304"
    by (rule val_absI [OF e19]) simp
  have e21: "val (V9 - V4) = - (3355443 / 4194304)"
    by (rule val_minusI [OF e3 e1]) (rule rnd_down_neg [where k = 1 and n = 13421772], simp_all)
  have e22: "val \<bar>V9 - V4\<bar> = 3355443 / 4194304"
    by (rule val_absI [OF e21]) simp
  have e23: "val (mL * V7 + bL) = 7"
    by (rule val_plusI [OF e8 e10]) (rule rnd_up [where k = 2 and n = 14680064], simp_all)
  have e24: "val (mH * V7 + bH) = 7"
    by (rule val_plusI [OF e15 e17]) (rule rnd_up [where k = 2 and n = 14680064], simp_all)
  have e25: "val (mH * V9) = - (6857689 / 524288)"
    by (rule val_timesI [OF e14 e3]) (rule rnd_up_neg [where k = 3 and n = 13715378], simp_all)
  have e26: "val (mH * V9 + bH) = 1203241 / 131072"
    by (rule val_plusI [OF e25 e17]) (rule rnd_up [where k = 3 and n = 9625928], simp_all)
  have e27: "val (mL * V4) = - (8151629 / 524288)"
    by (rule val_timesI [OF e7 e1]) (rule rnd_up_neg [where k = 3 and n = 16303258], simp_all)
  have e28: "val (mL * V4 + bL) = 2102395 / 524288"
    by (rule val_plusI [OF e27 e10]) (rule rnd_up [where k = 2 and n = 8409580], simp_all)
  have e29: "val (mL * V9) = - (11286871 / 1048576)"
    by (rule val_timesI [OF e7 e3]) (rule rnd_up_neg [where k = 3 and n = 11286871], simp_all)
  have e30: "val (mL * V9 + bL) = 9221177 / 1048576"
    by (rule val_plusI [OF e29 e10]) (rule rnd_up [where k = 3 and n = 9221177], simp_all)
  show "0 < V4"
    unfolding less_float_def val_zero e1 by simp
  show "0 < V7"
    unfolding less_float_def val_zero e2 by simp
  show "0 < V9"
    unfolding less_float_def val_zero e3 by simp
  show "f32 0.01 \<le> \<bar>V4 - V7\<bar>"
    unfolding less_eq_float_def f32_0_01 e18 by simp
  show "f32 0.01 \<le> \<bar>V9 - V7\<bar>"
    unfolding less_eq_float_def f32_0_01 e20 by simp
  show "f32 0.01 \<le> \<bar>V9 - V4\<bar>"
    unfolding less_eq_float_def f32_0_01 e22 by simp
  show "V7 < V4"
    unfolding less_float_def e2 e1 by simp
  show "V9 < V7"
    unfolding less_float_def e3 e2 by simp
  show "val (mL * V7 + bL) = 7"
    by (rule e23)
  show "val (mH * V7 + bH) = 7"
    by (rule e24)
  show "val (mH * V9 + bH) = 1203241 / 131072"
    by (rule e26)
  show "val (mL * V4 + bL) = 2102395 / 524288"
    by (rule e28)
  show "val (mL * V9 + bL) = 9221177 / 1048576"
    by (rule e30)
qed

lemma fit3_far:
  defines "V4 \<equiv> f32 100.01"
  defines "V7 \<equiv> f32 100"
  defines "V9 \<equiv> f32 99.99"
  defines "mL \<equiv> (PH4 - PH7) / (V4 - V7)"
  defines "bL \<equiv> PH7 - mL * V7"
  defines "mH \<equiv> (PH7 - PH9) / (V7 - V9)"
  defines "bH \<equiv> PH7 - mH * V7"
  shows "0 < V4"
    and "0 < V7"
    and "0 < V9"
    and "f32 0.01 \<le> \<bar>V4 - V7\<bar>"
    and "f32 0.01 \<le> \<bar>V9 - V7\<bar>"
    and "f32 0.01 \<le> \<bar>V9 - V4\<bar>"
    and "V7 < V4"
    and "V9 < V7"
    and "val (mL * V7 + bL) = 7"
    and "val (mH * V7 + bH) = 7"
    and "val (mH * V9 + bH) = 1175 / 128"
    and "val (mL * V4 + bL) = 2053 / 512"
    and "val (mL * V9 + bL) = 5115 / 512"
proof -
  have e1: "val V4 = 13108511 / 131072"
    unfolding V4_def by (rule f32_100_01)
  have e2: "val V7 = 100"
    unfolding V7_def by (rule f32_100)
  have e3: "val V9 = 13105889 / 131072"
    unfolding V9_def by (rule f32_99_99)
  have e4: "val (PH4 - PH7) = - (1567621 / 524288)"
    by (rule val_minusI [OF val_PH4 val_PH7]) (rule rnd_up_neg [where k = 1 and n = 12540968], simp_all)
  have e5: "val (V4 - V7) = 1311 / 131072"
    by (rule val_minusI [OF e1 e2]) (rule rnd_down [where k = 7 and n = 10739712], simp_all)
  have e6: "val ((PH4 - PH7) / (V4 - V7)) = - (9795539 / 32768)"
    by (rule val_divideI [OF e4 e5]) (rule rnd_up_neg [where k = 8 and n = 9795539], simp_all)
  have e7: "val mL = - (9795539 / 32768)"
    unfolding mL_def by (rule e6)
  have e8: "val (mL * V7) = - (7652765 / 256)"
    by (rule val_timesI [OF e7 e2]) (rule rnd_up_neg [where k = 14 and n = 15305530], simp_all)
  have e9: "val (PH7 - mL * V7) = 7654557 / 256"
    by (rule val_minusI [OF val_PH7 e8]) (rule rnd_up [where k = 14 and n = 15309114], simp_all)
  have e10: "val bL = 7654557 / 256"
    unfolding bL_def by (rule e9)
  have e11: "val (PH7 - PH9) = - (285737 / 131072)"
    by (rule val_minusI [OF val_PH7 val_PH9]) (rule rnd_up_neg [where k = 1 and n = 9143584], simp_all)
  have e12: "val (V7 - V9) = 1311 / 131072"
    by (rule val_minusI [OF e2 e3]) (rule rnd_down [where k = 7 and n = 10739712], simp_all)
  have e13: "val ((PH7 - PH9) / (V7 - V9)) = - (14283799 / 65536)"
    by (rule val_divideI [OF e11 e12]) (rule rnd_up_neg [where k = 7 and n = 14283799], simp_all)
  have e14: "val mH = - (14283799 / 65536)"
    unfolding mH_def by (rule e13)
  have e15: "val (mH * V7) = - (5579609 / 256)"
    by (rule val_timesI [OF e14 e2]) (rule rnd_up_neg [where k = 14 and n = 11159218], simp_all)
  have e16: "val (PH7 - mH * V7) = 5581401 / 256"
    by (rule val_minusI [OF val_PH7 e15]) (rule rnd_up [where k = 14 and n = 11162802], simp_all)
  have e17: "val bH = 5581401 / 256"
    unfolding bH_def by (rule e16)
  have e18: "val \<bar>V4 - V7\<bar> = 1311 / 131072"
    by (rule val_absI [OF e5]) simp
  have e19: "val (V9 - V7) = - (1311 / 131072)"
    by (rule val_minusI [OF e3 e2]) (rule rnd_down_neg [where k = 7 and n = 10739712], simp_all)
  have e20: "val \<bar>V9 - V7\<bar> = 1311 / 131072"
    by (rule val_absI [OF e19]) simp
  have e21: "val (V9 - V4) = - (1311 / 65536)"
    by (rule val_minusI [OF e3 e1]) (rule rnd_down_neg [where k = 6 and n = 10739712], simp_all)
  have e22: "val \<bar>V9 - V4\<bar> = 1311 / 65536"
    by (rule val_absI [OF e21]) simp
  have e23: "val (mL * V7 + bL) = 7"
    by (rule val_plusI [OF e8 e10]) (rule rnd_up [where k = 2 and n = 14680064], simp_all)
  have e24: "val (mH * V7 + bH) = 7"
    by (rule val_plusI [OF e15 e17]) (rule rnd_up [where k = 2 and n = 14680064], simp_all)
  have e25: "val (mH * V9) = - (5579051 / 256)"
    by (rule val_timesI [OF e14 e3]) (rule rnd_up_neg [where k = 14 and n = 11158102], simp_all)
  have e26: "val (mH * V9 + bH) = 1175 / 128"
    by (rule val_plusI [OF e25 e17]) (rule rnd_up [where k = 3 and n = 9625600], simp_all)
  have e27: "val (mL * V4) = - (15307061 / 512)"
    by (rule val_timesI [OF e7 e1]) (rule rnd_up_neg [where k = 14 and n = 15307061], simp_all)
  have e28: "val (mL * V4 + bL) = 2053 / 512"
    by (rule val_plusI [OF e27 e10]) (rule rnd_up [where k = 2 and n = 8409088], simp_all)
  have e29: "val (mL * V9) = - (15303999 / 512)"
    by (rule val_timesI [OF e7 e3]) (rule rnd_up_neg [where k = 14 and n = 15303999], simp_all)
  have e30: "val (mL * V9 + bL) = 5115 / 512"
    by (rule val_plusI [OF e29 e10]) (rule rnd_up [where k = 3 and n = 10475520], simp_all)
  show "0 < V4"
    unfolding less_float_def val_zero e1 by simp
  show "0 < V7"
    unfolding less_float_def val_zero e2 by simp
  show "0 < V9"
    unfolding less_float_def val_zero e3 by simp
  show "f32 0.01 \<le> \<bar>V4 - V7\<bar>"
    unfolding less_eq_float_def f32_0_01 e18 by simp
  show "f32 0.01 \<le> \<bar>V9 - V7\<bar>"
    unfolding less_eq_float_def f32_0_01 e20 by simp
  show "f32 0.01 \<le> \<bar>V9 - V4\<bar>"
    unfolding less_eq_float_def f32_0_01 e22 by simp
  show "V7 < V4"
    unfolding less_float_def e2 e1 by simp
  show "V9 < V7"
    unfolding less_float_def e3 e2 by simp
  show "val (mL * V7 + bL) = 7"
    by (rule e23)
  show "val (mH * V7 + bH) = 7"
    by (rule e24)
  show "val (mH * V9 + bH) = 1175 / 128"
    by (rule e26)
  show "val (mL * V4 + bL) = 2053 / 512"
    by (rule e28)
  show "val (mL * V9 + bL) = 5115 / 512"
    by (rule e30)
qed

lemma fit3_same_side:
  defines "V4 \<equiv> f32 2.6"
  defines "V7 \<equiv> f32 2.1"
  defines "V9 \<equiv> f32 2.3"
  defines "mL \<equiv> (PH4 - PH7) / (V4 - V7)"
  defines "bL \<equiv> PH7 - mL * V7"
  defines "mH \<equiv> (PH7 - PH9) / (V7 - V9)"
  defines "bH \<equiv> PH7 - mH * V7"
  shows "0 < V4"
    and "0 < V7"
    and "0 < V9"
    and "f32 0.01 \<le> \<bar>V4 - V7\<bar>"
    and "f32 0.01 \<le> \<bar>V9 - V7\<bar>"
    and "f32 0.01 \<le> \<bar>V9 - V4\<bar>"
    and "V7 < V4"
    and "V7 < V9"
    and "val (mL * V7 + bL) = 7"
    and "val (mH * V7 + bH) = 7"
    and "val (mH * V9 + bH) = 1203241 / 131072"
    and "val (mL * V4 + bL) = 2102395 / 524288"
    and "val (mL * V9 + bL) = 6085935 / 1048576"
proof -
  have e1: "val V4 = 5452595 / 2097152"
    unfolding V4_def by (rule f32_2_6)
  have e2: "val V7 = 4404019 / 2097152"
    unfolding V7_def by (rule f32_2_1)
  have e3: "val V9 = 9646899 / 4194304"
    unfolding V9_def by (rule f32_2_3)
  have e4: "val (PH4 - PH7) = - (1567621 / 524288)"
    by (rule val_minusI [OF val_PH4 val_PH7]) (rule rnd_up_neg [where k = 1 and n = 12540968], simp_all)
  have e5: "val (V4 - V7) = 1 / 2"
    by (rule val_minusI [OF e1 e2]) (rule rnd_down [where k = 1 and n = 8388608], simp_all)
  have e6: "val ((PH4 - PH7) / (V4 - V7)) = - (1567621 / 262144)"
    by (rule val_divideI [OF e4 e5]) (rule rnd_up_neg [where k = 2 and n = 12540968], simp_all)
  have e7: "val mL = - (1567621 / 262144)"
    unfolding mL_def by (rule e6)
  have e8: "val (mL * V7) = - (823001 / 65536)"
    by (rule val_timesI [OF e7 e2]) (rule rnd_up_neg [where k = 3 and n = 13168016], simp_all)
  have e9: "val (PH7 - mL * V7) = 1281753 / 65536"
    by (rule val_minusI [OF val_PH7 e8]) (rule rnd_up [where k = 4 and n = 10254024], simp_all)
  have e10: "val bL = 1281753 / 65536"
    unfolding bL_def by (rule e9)
  have e11: "val (PH7 - PH9) = - (285737 / 131072)"
    by (rule val_minusI [OF val_PH7 val_PH9]) (rule rnd_up_neg [where k = 1 and n = 9143584], simp_all)
  have e12: "val (V7 - V9) = - (838861 / 4194304)"
    by (rule val_minusI [OF e2 e3]) (rule rnd_down_neg [where k = 3 and n = 13421776], simp_all)
  have e13: "val ((PH7 - PH9) / (V7 - V9)) = 11429477 / 1048576"
    by (rule val_divideI [OF e11 e12]) (rule rnd_up [where k = 3 and n = 11429477], simp_all)
  have e14: "val mH = 11429477 / 1048576"
    unfolding mH_def by (rule e13)
  have e15: "val (mH * V7) = 6000475 / 262144"
    by (rule val_timesI [OF e14 e2]) (rule rnd_up [where k = 4 and n = 12000950], simp_all)
  have e16: "val (PH7 - mH * V7) = - (4165467 / 262144)"
    by (rule val_minusI [OF val_PH7 e15]) (rule rnd_up_neg [where k = 3 and n = 16661868], simp_all)
  have e17: "val bH = - (4165467 / 262144)"
    unfolding bH_def by (rule e16)
  have e18: "val \<bar>V4 - V7\<bar> = 1 / 2"
    by (rule val_absI [OF e5]) simp
  have e19: "val (V9 - V7) = 838861 / 4194304"
    by (rule val_minusI [OF e3 e2]) (rule rnd_down [where k = 3 and n = 13421776], simp_all)
  have e20: "val \<bar>V9 - V7\<bar> = 838861 / 4194304"
    by (rule val_absI [OF e19]) simp
  have e21: "val (V9 - V4) = - (1258291 / 4194304)"
    by (rule val_minusI [OF e3 e1]) (rule rnd_down_neg [where k = 2 and n = 10066328], simp_all)
  have e22: "val \<bar>V9 - V4\<bar> = 1258291 / 4194304"
    by (rule val_absI [OF e21]) simp
  have e23: "val (mL * V7 + bL) = 7"
    by (rule val_plusI [OF e8 e10]) (rule rnd_up [where k = 2 and n = 14680064], simp_all)
  have e24: "val (mH * V7 + bH) = 7"
    by (rule val_plusI [OF e15 e17]) (rule rnd_up [where k = 2 and n = 14680064], simp_all)
  have e25: "val (mH * V9) = 6571949 / 262144"
    by (rule val_timesI [OF e14 e3]) (rule rnd_up [where k = 4 and n = 13143898], simp_all)
  have e26: "val (mH * V9 + bH) = 1203241 / 131072"
    by (rule val_plusI [OF e25 e17]) (rule rnd_up [where k = 3 and n = 9625928], simp_all)
  have e27: "val (mL * V4) = - (8151629 / 524288)"
    by (rule val_timesI [OF e7 e1]) (rule rnd_up_neg [where k = 3 and n = 16303258], simp_all)
  have e28: "val (mL * V4 + bL) = 2102395 / 524288"
    by (rule val_plusI [OF e27 e10]) (rule rnd_up [where k = 2 and n = 8409580], simp_all)
  have e29: "val (mL * V9) = - (14422113 / 1048576)"
    by (rule val_timesI [OF e7 e3]) (rule rnd_up_neg [where k = 3 and n = 14422113], simp_all)
  have e30: "val (mL * V9 + bL) = 6085935 / 1048576"
    by (rule val_plusI [OF e29 e10]) (rule rnd_up [where k = 2 and n = 12171870], simp_all)
  show "0 < V4"
    unfolding less_float_def val_zero e1 by simp
  show "0 < V7"
    unfolding less_float_def val_zero e2 by simp
  show "0 < V9"
    unfolding less_float_def val_zero e3 by simp
  show "f32 0.01 \<le> \<bar>V4 - V7\<bar>"
    unfolding less_eq_float_def f32_0_01 e18 by simp
  show "f32 0.01 \<le> \<bar>V9 - V7\<bar>"
    unfolding less_eq_float_def f32_0_01 e20 by simp
  show "f32 0.01 \<le> \<bar>V9 - V4\<bar>"
    unfolding less_eq_float_def f32_0_01 e22 by simp
  show "V7 < V4"
    unfolding less_float_def e2 e1 by simp
  show "V7 < V9"
    unfolding less_float_def e2 e3 by simp
  show "val (mL * V7 + bL) = 7"
    by (rule e23)
  show "val (mH * V7 + bH) = 7"
    by (rule e24)
  show "val (mH * V9 + bH) = 1203241 / 131072"
    by (rule e26)
  show "val (mL * V4 + bL) = 2102395 / 524288"
    by (rule e28)
  show "val (mL * V9 + bL) = 6085935 / 1048576"
    by (rule e30)
qed




subsection \<open>Refused requests\<close>

text \<open>The voltages 2.100 V and 2.105 V, and 2.6 V and 2.605 V, are closer than \<^verbatim>\<open>0.01f\<close>.\<close>

lemma close2:
  defines "V4 \<equiv> f32 2.100"
  defines "V7 \<equiv> f32 2.105"
  shows "0 < V4"
    and "0 < V7"
    and "\<bar>V4 - V7\<bar> < f32 0.01"
proof -
  have e1: "val V4 = 4404019 / 2097152"
    unfolding V4_def by (rule f32_2_100)
  have e2: "val V7 = 4414505 / 2097152"
    unfolding V7_def by (rule f32_2_105)
  have e3: "val (V4 - V7) = - (5243 / 1048576)"
    by (rule val_minusI [OF e1 e2]) (rule rnd_down_neg [where k = 8 and n = 10737664], simp_all)
  have e4: "val \<bar>V4 - V7\<bar> = 5243 / 1048576"
    by (rule val_absI [OF e3]) simp
  show "0 < V4"
    unfolding less_float_def val_zero e1 by simp
  show "0 < V7"
    unfolding less_float_def val_zero e2 by simp
  show "\<bar>V4 - V7\<bar> < f32 0.01"
    unfolding less_float_def e4 f32_0_01 by simp
qed

lemma close3:
  defines "V4 \<equiv> f32 2.6"
  defines "V7 \<equiv> f32 2.605"
  shows "0 < V4"
    and "0 < V7"
    and "\<bar>V4 - V7\<bar> < f32 0.01"
proof -
  have e1: "val V4 = 5452595 / 2097152"
    unfolding V4_def by (rule f32_2_6)
  have e2: "val V7 = 5463081 / 2097152"
    unfolding V7_def by (rule f32_2_605)
  have e3: "val (V4 - V7) = - (5243 / 1048576)"
    by (rule val_minusI [OF e1 e2]) (rule rnd_down_neg [where k = 8 and n = 10737664], simp_all)
  have e4: "val \<bar>V4 - V7\<bar> = 5243 / 1048576"
    by (rule val_absI [OF e3]) simp
  show "0 < V4"
    unfolding less_float_def val_zero e1 by simp
  show "0 < V7"
    unfolding less_float_def val_zero e2 by simp
  show "\<bar>V4 - V7\<bar> < f32 0.01"
    unfolding less_float_def e4 f32_0_01 by simp
qed

text \<open>
  C4. A handler that answers anything but 200 returns the state it was given: the
  discriminant, the direction flag, the breakpoint, every coefficient, the filter, and the
  store's journal, to which no put was added. That holds for the two-point and the
  three-point handler of both sketches, and a request with a voltage that is not positive
  or with two voltages whose float difference is below \<^verbatim>\<open>0.01f\<close> in magnitude, the
  comparison the source makes, is answered that way.
\<close>

theorem rejected_fit_keeps_state:
  "(fst (handleSetCal2 rq s) \<noteq> Reply200 \<longrightarrow> snd (handleSetCal2 rq s) = s)
   \<and> (fst (handleSetCal3 rq s) \<noteq> Reply200 \<longrightarrow> snd (handleSetCal3 rq s) = s)
   \<and> (fst (handleSetCal2_quad rq q) \<noteq> Reply200 \<longrightarrow> snd (handleSetCal2_quad rq q) = q)
   \<and> (fst (handleSetCal3_quad rq q) \<noteq> Reply200 \<longrightarrow> snd (handleSetCal3_quad rq q) = q)
   \<and> (V4 \<le> 0 \<or> V7 \<le> 0 \<or> \<bar>V4 - V7\<bar> < f32 0.01 \<longrightarrow>
        fst (handleSetCal2 [''v4'' \<mapsto> V4, ''v7'' \<mapsto> V7] s) \<noteq> Reply200
      \<and> fst (handleSetCal2_quad [''v4'' \<mapsto> V4, ''v7'' \<mapsto> V7] q) \<noteq> Reply200)
   \<and> (V4 \<le> 0 \<or> V7 \<le> 0 \<or> V9 \<le> 0
        \<or> \<bar>V4 - V7\<bar> < f32 0.01 \<or> \<bar>V9 - V7\<bar> < f32 0.01 \<or> \<bar>V9 - V4\<bar> < f32 0.01 \<longrightarrow>
        fst (handleSetCal3 [''v4'' \<mapsto> V4, ''v7'' \<mapsto> V7, ''v9'' \<mapsto> V9] s) \<noteq> Reply200
      \<and> fst (handleSetCal3_quad [''v4'' \<mapsto> V4, ''v7'' \<mapsto> V7, ''v9'' \<mapsto> V9] q) \<noteq> Reply200)"
proof -
  have h2: "fst (handleSetCal2 rq s) \<noteq> Reply200 \<longrightarrow> snd (handleSetCal2 rq s) = s"
    by (simp add: handleSetCal2_def Let_def)
  have h3: "fst (handleSetCal3 rq s) \<noteq> Reply200 \<longrightarrow> snd (handleSetCal3 rq s) = s"
    by (simp add: handleSetCal3_def Let_def)
  have q2: "fst (handleSetCal2_quad rq q) \<noteq> Reply200 \<longrightarrow> snd (handleSetCal2_quad rq q) = q"
    by (simp add: handleSetCal2_quad_def Let_def)
  have q3: "fst (handleSetCal3_quad rq q) \<noteq> Reply200 \<longrightarrow> snd (handleSetCal3_quad rq q) = q"
    by (simp add: handleSetCal3_quad_def Let_def split: option.split)
  have r2: "V4 \<le> 0 \<or> V7 \<le> 0 \<or> \<bar>V4 - V7\<bar> < f32 0.01 \<longrightarrow>
        fst (handleSetCal2 [''v4'' \<mapsto> V4, ''v7'' \<mapsto> V7] s) \<noteq> Reply200
      \<and> fst (handleSetCal2_quad [''v4'' \<mapsto> V4, ''v7'' \<mapsto> V7] q) \<noteq> Reply200"
    by (simp add: handleSetCal2_def handleSetCal2_quad_def Let_def)
  have r3: "V4 \<le> 0 \<or> V7 \<le> 0 \<or> V9 \<le> 0
        \<or> \<bar>V4 - V7\<bar> < f32 0.01 \<or> \<bar>V9 - V7\<bar> < f32 0.01 \<or> \<bar>V9 - V4\<bar> < f32 0.01 \<longrightarrow>
        fst (handleSetCal3 [''v4'' \<mapsto> V4, ''v7'' \<mapsto> V7, ''v9'' \<mapsto> V9] s) \<noteq> Reply200
      \<and> fst (handleSetCal3_quad [''v4'' \<mapsto> V4, ''v7'' \<mapsto> V7, ''v9'' \<mapsto> V9] q) \<noteq> Reply200"
    by (simp add: handleSetCal3_def handleSetCal3_quad_def Let_def)
  from h2 h3 q2 q3 r2 r3 show ?thesis by blast
qed

text \<open>
  The two-point request 2.100 V, 2.105 V (0.005 V apart) on a calibrated two-line model,
  and a three-point request with a voltage of zero on the quadratic sketch.
\<close>

theorem rejected_fit_keeps_state_witness:
  "fst (handleSetCal2 [''v4'' \<mapsto> f32 2.100, ''v7'' \<mapsto> f32 2.105]
         (saveTwoLines (f32 2.6) (f32 2.1) (f32 1.8) (power_on []))) = Reply400 DegenerateFit
   \<and> snd (handleSetCal2 [''v4'' \<mapsto> f32 2.100, ''v7'' \<mapsto> f32 2.105]
         (saveTwoLines (f32 2.6) (f32 2.1) (f32 1.8) (power_on [])))
       = saveTwoLines (f32 2.6) (f32 2.1) (f32 1.8) (power_on [])
   \<and> fst (handleSetCal3_quad [''v4'' \<mapsto> f32 2.100, ''v7'' \<mapsto> f32 2.105, ''v9'' \<mapsto> 0]
         (saveLinear (- f32 6) (f32 19) (power_on_quad []))) = Reply400 InvalidInput
   \<and> snd (handleSetCal3_quad [''v4'' \<mapsto> f32 2.100, ''v7'' \<mapsto> f32 2.105, ''v9'' \<mapsto> 0]
         (saveLinear (- f32 6) (f32 19) (power_on_quad [])))
       = saveLinear (- f32 6) (f32 19) (power_on_quad [])"
proof -
  let ?rq2 = "[''v4'' \<mapsto> f32 2.100, ''v7'' \<mapsto> f32 2.105]"
  let ?rq3 = "[''v4'' \<mapsto> f32 2.100, ''v7'' \<mapsto> f32 2.105, ''v9'' \<mapsto> 0 :: float]"
  let ?s = "saveTwoLines (f32 2.6) (f32 2.1) (f32 1.8) (power_on [])"
  let ?q = "saveLinear (- f32 6) (f32 19) (power_on_quad [])"
  have a: "fst (handleSetCal2 ?rq2 ?s) = Reply400 DegenerateFit"
    unfolding handleSetCal2_too_close [OF close2(1) close2(2) close2(3)] by simp
  have pos: "\<not> f32 2.100 \<le> 0" "\<not> f32 2.105 \<le> 0"
    using close2(1) close2(2) by (simp_all add: not_le)
  have b: "fst (handleSetCal3_quad ?rq3 ?q) = Reply400 InvalidInput"
    using pos by (simp add: handleSetCal3_quad_def Let_def)
  have na: "fst (handleSetCal2 ?rq2 ?s) \<noteq> Reply200"
    unfolding a by simp
  have nb: "fst (handleSetCal3_quad ?rq3 ?q) \<noteq> Reply200"
    unfolding b by simp
  from rejected_fit_keeps_state [of ?rq2 ?s ?q "f32 2.100" "f32 2.105" 0] na
  have c: "snd (handleSetCal2 ?rq2 ?s) = ?s" by blast
  from rejected_fit_keeps_state [of ?rq3 ?s ?q "f32 2.100" "f32 2.105" 0] nb
  have d: "snd (handleSetCal3_quad ?rq3 ?q) = ?q" by blast
  from a b c d show ?thesis by blast
qed

section \<open>Persistence\<close>

text \<open>A get after puts: the newest entry of the key answers.\<close>

lemma get_put [simp]:
  "getBool (putBool k b st) k d = b"
  "getFloat (putFloat k x st) k e = x"
  "k' \<noteq> k \<Longrightarrow> getBool (putBool k' b st) k d = getBool st k d"
  "k' \<noteq> k \<Longrightarrow> getBool (putFloat k' x st) k d = getBool st k d"
  "k' \<noteq> k \<Longrightarrow> getFloat (putBool k' b st) k e = getFloat st k e"
  "k' \<noteq> k \<Longrightarrow> getFloat (putFloat k' x st) k e = getFloat st k e"
  by (simp_all add: getBool_def getFloat_def putBool_def putFloat_def)

text \<open>
  A load over the store that a save has left, whatever the globals hold when the load
  runs (\<open>t\<close> is any state of the globals): every global that \<^verbatim>\<open>loadCalibration\<close>
  assigns comes back as the save left it, and the load touches nothing else.
\<close>

lemma load_over_saveOneLine:
  "loadCalibration (t\<lparr>prefs := prefs (saveOneLine V4 V7 s)\<rparr>)
     = (saveOneLine V4 V7 s)\<lparr>filtV_main := filtV_main t\<rparr>"
  by (simp add: loadCalibration_def saveOneLine_def Let_def)

lemma load_over_saveTwoLines:
  "loadCalibration (t\<lparr>prefs := prefs (saveTwoLines V4 V7 V9 s)\<rparr>)
     = (saveTwoLines V4 V7 V9 s)\<lparr>filtV_main := filtV_main t\<rparr>"
  by (simp add: loadCalibration_def saveTwoLines_def Let_def)

lemma load_saveOneLine: "loadCalibration (saveOneLine V4 V7 s) = saveOneLine V4 V7 s"
  by (simp add: loadCalibration_def saveOneLine_def Let_def)

lemma load_saveTwoLines: "loadCalibration (saveTwoLines V4 V7 V9 s) = saveTwoLines V4 V7 V9 s"
  by (simp add: loadCalibration_def saveTwoLines_def Let_def)

lemma reboot_saveOneLine:
  "loadCalibration (power_on (prefs (saveOneLine V4 V7 s))) = saveOneLine V4 V7 s"
  by (simp add: loadCalibration_def power_on_def saveOneLine_def Let_def)

lemma reboot_saveTwoLines:
  "loadCalibration (power_on (prefs (saveTwoLines V4 V7 V9 s))) = saveTwoLines V4 V7 V9 s"
  by (simp add: loadCalibration_def power_on_def saveTwoLines_def Let_def)

lemma load_over_saveLinear:
  "useQuadratic (loadCalibration_quad (r\<lparr>prefs_quad := prefs_quad (saveLinear m b q)\<rparr>)) = False"
  "linM (loadCalibration_quad (r\<lparr>prefs_quad := prefs_quad (saveLinear m b q)\<rparr>)) = m"
  "linB (loadCalibration_quad (r\<lparr>prefs_quad := prefs_quad (saveLinear m b q)\<rparr>)) = b"
  by (simp_all add: loadCalibration_quad_def saveLinear_def)

lemma load_over_saveQuadratic:
  "useQuadratic (loadCalibration_quad (r\<lparr>prefs_quad := prefs_quad (saveQuadratic a b c q)\<rparr>))
     = True"
  "qa (loadCalibration_quad (r\<lparr>prefs_quad := prefs_quad (saveQuadratic a b c q)\<rparr>)) = a"
  "qb (loadCalibration_quad (r\<lparr>prefs_quad := prefs_quad (saveQuadratic a b c q)\<rparr>)) = b"
  "qc (loadCalibration_quad (r\<lparr>prefs_quad := prefs_quad (saveQuadratic a b c q)\<rparr>)) = c"
  by (simp_all add: loadCalibration_quad_def saveQuadratic_def)

lemma load_saveLinear:
  "useQuadratic (loadCalibration_quad (saveLinear m b q)) = False"
  "linM (loadCalibration_quad (saveLinear m b q)) = m"
  "linB (loadCalibration_quad (saveLinear m b q)) = b"
  by (simp_all add: loadCalibration_quad_def saveLinear_def)

lemma load_saveQuadratic:
  "useQuadratic (loadCalibration_quad (saveQuadratic a b c q)) = True"
  "qa (loadCalibration_quad (saveQuadratic a b c q)) = a"
  "qb (loadCalibration_quad (saveQuadratic a b c q)) = b"
  "qc (loadCalibration_quad (saveQuadratic a b c q)) = c"
  by (simp_all add: loadCalibration_quad_def saveQuadratic_def)

lemma load_quad_idem: "loadCalibration_quad (loadCalibration_quad q) = loadCalibration_quad q"
  by (simp add: loadCalibration_quad_def getBool_def getFloat_def
      split: option.split pval.split)

text \<open>
  In the quadratic sketch a save writes the coefficients of the model it activates only, so
  the coefficients of the other model come back from the load as the store holds them.
  They are the ones in memory whenever memory and store agree, that is, whenever a load
  would change nothing; a load establishes that and both saves keep it.
\<close>

lemma load_quad_fields:
  "useQuadratic (loadCalibration_quad q) = getBool (prefs_quad q) ''quad'' False"
  "linM (loadCalibration_quad q) = getFloat (prefs_quad q) ''m'' (linM q)"
  "linB (loadCalibration_quad q) = getFloat (prefs_quad q) ''b'' (linB q)"
  "qa (loadCalibration_quad q) = getFloat (prefs_quad q) ''qa'' (qa q)"
  "qb (loadCalibration_quad q) = getFloat (prefs_quad q) ''qb'' (qb q)"
  "qc (loadCalibration_quad q) = getFloat (prefs_quad q) ''qc'' (qc q)"
  "filtV (loadCalibration_quad q) = filtV q"
  "prefs_quad (loadCalibration_quad q) = prefs_quad q"
  by (simp_all add: loadCalibration_quad_def)

lemma load_saveLinear_synced:
  assumes "loadCalibration_quad q = q"
  shows "loadCalibration_quad (saveLinear m b q) = saveLinear m b q"
proof -
  have "qa (loadCalibration_quad q) = qa q" "qb (loadCalibration_quad q) = qb q"
    "qc (loadCalibration_quad q) = qc q"
    by (simp_all only: assms)
  then have "getFloat (prefs_quad q) ''qa'' (qa q) = qa q"
    "getFloat (prefs_quad q) ''qb'' (qb q) = qb q"
    "getFloat (prefs_quad q) ''qc'' (qc q) = qc q"
    by (simp_all only: load_quad_fields)
  then show ?thesis
    by (simp add: loadCalibration_quad_def saveLinear_def)
qed

lemma load_saveQuadratic_synced:
  assumes "loadCalibration_quad q = q"
  shows "loadCalibration_quad (saveQuadratic a b c q) = saveQuadratic a b c q"
proof -
  have "linM (loadCalibration_quad q) = linM q" "linB (loadCalibration_quad q) = linB q"
    by (simp_all only: assms)
  then have "getFloat (prefs_quad q) ''m'' (linM q) = linM q"
    "getFloat (prefs_quad q) ''b'' (linB q) = linB q"
    by (simp_all only: load_quad_fields)
  then show ?thesis
    by (simp add: loadCalibration_quad_def saveQuadratic_def)
qed

text \<open>
  C6. A load reproduces the model that the last save made active, from the store alone.
  In the two-line sketch, whatever the globals hold when \<^verbatim>\<open>loadCalibration\<close> runs (the
  stale state \<open>t\<close>, or the initialisers after a reboot), the discriminant, the direction
  flag, the breakpoint, both slopes and both intercepts come back as \<^verbatim>\<open>saveOneLine\<close> or
  \<^verbatim>\<open>saveTwoLines\<close> left them, float for float; the load assigns nothing else. In the
  quadratic sketch the discriminant and the coefficients of the active model come back,
  so \<^verbatim>\<open>calculatePH\<close> is the same function before and after; the whole state comes back
  when memory and store agreed before the save, as they do from the first load on. The
  store keeps the float it was given, so nothing is lost in between.
\<close>

theorem persist_load_roundtrip:
  "loadCalibration (t\<lparr>prefs := prefs (saveOneLine V4 V7 s)\<rparr>)
     = (saveOneLine V4 V7 s)\<lparr>filtV_main := filtV_main t\<rparr>
   \<and> loadCalibration (t\<lparr>prefs := prefs (saveTwoLines V4 V7 V9 s)\<rparr>)
     = (saveTwoLines V4 V7 V9 s)\<lparr>filtV_main := filtV_main t\<rparr>
   \<and> loadCalibration (power_on (prefs (saveOneLine V4 V7 s))) = saveOneLine V4 V7 s
   \<and> loadCalibration (power_on (prefs (saveTwoLines V4 V7 V9 s))) = saveTwoLines V4 V7 V9 s
   \<and> loadCalibration (saveOneLine V4 V7 s) = saveOneLine V4 V7 s
   \<and> loadCalibration (saveTwoLines V4 V7 V9 s) = saveTwoLines V4 V7 V9 s
   \<and> useQuadratic (loadCalibration_quad (r\<lparr>prefs_quad := prefs_quad (saveLinear m b q)\<rparr>))
        = useQuadratic (saveLinear m b q)
   \<and> linM (loadCalibration_quad (r\<lparr>prefs_quad := prefs_quad (saveLinear m b q)\<rparr>)) = m
   \<and> linB (loadCalibration_quad (r\<lparr>prefs_quad := prefs_quad (saveLinear m b q)\<rparr>)) = b
   \<and> calculatePH (loadCalibration_quad (r\<lparr>prefs_quad := prefs_quad (saveLinear m b q)\<rparr>)) v
        = calculatePH (saveLinear m b q) v
   \<and> useQuadratic (loadCalibration_quad (r\<lparr>prefs_quad := prefs_quad (saveQuadratic a' b' c' q)\<rparr>))
        = useQuadratic (saveQuadratic a' b' c' q)
   \<and> qa (loadCalibration_quad (r\<lparr>prefs_quad := prefs_quad (saveQuadratic a' b' c' q)\<rparr>)) = a'
   \<and> qb (loadCalibration_quad (r\<lparr>prefs_quad := prefs_quad (saveQuadratic a' b' c' q)\<rparr>)) = b'
   \<and> qc (loadCalibration_quad (r\<lparr>prefs_quad := prefs_quad (saveQuadratic a' b' c' q)\<rparr>)) = c'
   \<and> calculatePH (loadCalibration_quad (r\<lparr>prefs_quad := prefs_quad (saveQuadratic a' b' c' q)\<rparr>)) v
        = calculatePH (saveQuadratic a' b' c' q) v
   \<and> useQuadratic (loadCalibration_quad (saveLinear m b q)) = useQuadratic (saveLinear m b q)
   \<and> linM (loadCalibration_quad (saveLinear m b q)) = m
   \<and> linB (loadCalibration_quad (saveLinear m b q)) = b
   \<and> calculatePH (loadCalibration_quad (saveLinear m b q)) v = calculatePH (saveLinear m b q) v
   \<and> useQuadratic (loadCalibration_quad (saveQuadratic a' b' c' q))
        = useQuadratic (saveQuadratic a' b' c' q)
   \<and> qa (loadCalibration_quad (saveQuadratic a' b' c' q)) = a'
   \<and> qb (loadCalibration_quad (saveQuadratic a' b' c' q)) = b'
   \<and> qc (loadCalibration_quad (saveQuadratic a' b' c' q)) = c'
   \<and> calculatePH (loadCalibration_quad (saveQuadratic a' b' c' q)) v
        = calculatePH (saveQuadratic a' b' c' q) v
   \<and> loadCalibration_quad (loadCalibration_quad q) = loadCalibration_quad q
   \<and> (loadCalibration_quad q = q \<longrightarrow>
         loadCalibration_quad (saveLinear m b q) = saveLinear m b q
       \<and> loadCalibration_quad (saveQuadratic a' b' c' q) = saveQuadratic a' b' c' q)"
proof -
  have over_lin: "calculatePH (loadCalibration_quad (r\<lparr>prefs_quad := prefs_quad (saveLinear m b q)\<rparr>)) v
      = calculatePH (saveLinear m b q) v"
    by (simp add: calculatePH_def load_over_saveLinear saveLinear_fields)
  have over_quad: "calculatePH
        (loadCalibration_quad (r\<lparr>prefs_quad := prefs_quad (saveQuadratic a' b' c' q)\<rparr>)) v
      = calculatePH (saveQuadratic a' b' c' q) v"
    by (simp add: calculatePH_def load_over_saveQuadratic saveQuadratic_fields)
  have lin: "calculatePH (loadCalibration_quad (saveLinear m b q)) v
      = calculatePH (saveLinear m b q) v"
    by (simp add: calculatePH_def load_saveLinear saveLinear_fields)
  have quad: "calculatePH (loadCalibration_quad (saveQuadratic a' b' c' q)) v
      = calculatePH (saveQuadratic a' b' c' q) v"
    by (simp add: calculatePH_def load_saveQuadratic saveQuadratic_fields)
  have flags: "useQuadratic (saveLinear m b q) = False"
    "useQuadratic (saveQuadratic a' b' c' q) = True"
    by (simp_all add: saveLinear_fields saveQuadratic_fields)
  have synced: "loadCalibration_quad q = q \<longrightarrow>
         loadCalibration_quad (saveLinear m b q) = saveLinear m b q
       \<and> loadCalibration_quad (saveQuadratic a' b' c' q) = saveQuadratic a' b' c' q"
    using load_saveLinear_synced [of q m b] load_saveQuadratic_synced [of q a' b' c']
    by blast
  show ?thesis
    unfolding load_over_saveOneLine load_over_saveTwoLines reboot_saveOneLine
      reboot_saveTwoLines load_saveOneLine load_saveTwoLines load_over_saveLinear
      load_over_saveQuadratic load_saveLinear load_saveQuadratic flags over_lin over_quad
      lin quad load_quad_idem
    using synced by simp
qed

text \<open>The slope of the initialisers and the high slope of the reference fit.\<close>

lemma stale_slope:
  shows "val (- f32 2.49) = - (10443817 / 4194304)"
    and "val ((PH7 - PH9) / (f32 2.1 - f32 1.8)) = - (15239309 / 2097152)"
proof -
  have e1: "val (- f32 2.49) = - (10443817 / 4194304)"
    by (rule val_uminusI [OF f32_2_49]) simp
  have e2: "val (PH7 - PH9) = - (285737 / 131072)"
    by (rule val_minusI [OF val_PH7 val_PH9]) (rule rnd_up_neg [where k = 1 and n = 9143584], simp_all)
  have e3: "val (f32 2.1 - f32 1.8) = 1258291 / 4194304"
    by (rule val_minusI [OF f32_2_1 f32_1_8]) (rule rnd_down [where k = 2 and n = 10066328], simp_all)
  have e4: "val ((PH7 - PH9) / (f32 2.1 - f32 1.8)) = - (15239309 / 2097152)"
    by (rule val_divideI [OF e2 e3]) (rule rnd_up_neg [where k = 2 and n = 15239309], simp_all)
  show "val (- f32 2.49) = - (10443817 / 4194304)"
    by (rule e1)
  show "val ((PH7 - PH9) / (f32 2.1 - f32 1.8)) = - (15239309 / 2097152)"
    by (rule e4)
qed

text \<open>
  The reference three-point fit is saved from power-on. A reboot on the store it left
  gives the saved model back, and so does a load over the store with the initialisers
  still in the globals. In the quadratic sketch, from a first boot on an empty store: a
  linear save, then a quadratic save, each followed by a load.
\<close>

theorem persist_load_roundtrip_witness:
  "loadCalibration (power_on (prefs (saveTwoLines (f32 2.6) (f32 2.1) (f32 1.8) (power_on []))))
     = saveTwoLines (f32 2.6) (f32 2.1) (f32 1.8) (power_on [])
   \<and> mHigh (loadCalibration ((power_on [])\<lparr>prefs :=
        prefs (saveTwoLines (f32 2.6) (f32 2.1) (f32 1.8) (power_on []))\<rparr>))
     = mHigh (saveTwoLines (f32 2.6) (f32 2.1) (f32 1.8) (power_on []))
   \<and> mHigh (power_on []) \<noteq> mHigh (saveTwoLines (f32 2.6) (f32 2.1) (f32 1.8) (power_on []))
   \<and> loadCalibration_quad (loadCalibration_quad (power_on_quad []))
     = loadCalibration_quad (power_on_quad [])
   \<and> loadCalibration_quad (saveLinear (- f32 5.98) (f32 19.558)
        (loadCalibration_quad (power_on_quad [])))
     = saveLinear (- f32 5.98) (f32 19.558) (loadCalibration_quad (power_on_quad []))
   \<and> loadCalibration_quad (saveQuadratic (f32 1) (- f32 10) (f32 22)
        (loadCalibration_quad (power_on_quad [])))
     = saveQuadratic (f32 1) (- f32 10) (f32 22) (loadCalibration_quad (power_on_quad []))"
proof -
  let ?q = "loadCalibration_quad (power_on_quad [])"
  let ?s = "saveTwoLines (f32 2.6) (f32 2.1) (f32 1.8) (power_on [])"
  have idem: "loadCalibration_quad ?q = ?q"
    by (rule load_quad_idem)
  note rt = persist_load_roundtrip [where t = "power_on []" and ?V4.0 = "f32 2.6"
      and ?V7.0 = "f32 2.1" and s = "power_on []" and ?V9.0 = "f32 1.8"
      and r = "power_on_quad []" and m = "- f32 5.98" and b = "f32 19.558" and q = ?q
      and v = 0 and a' = "f32 1" and b' = "- f32 10" and c' = "f32 22"]
  from rt have a: "loadCalibration (power_on (prefs ?s)) = ?s"
    by blast
  from rt have "loadCalibration ((power_on [])\<lparr>prefs := prefs ?s\<rparr>)
      = ?s\<lparr>filtV_main := filtV_main (power_on [])\<rparr>"
    by blast
  then have b: "mHigh (loadCalibration ((power_on [])\<lparr>prefs := prefs ?s\<rparr>)) = mHigh ?s"
    by simp
  have m0: "mHigh (power_on []) = - f32 2.49"
    by (simp add: power_on_def)
  have c: "mHigh (power_on []) \<noteq> mHigh ?s"
    unfolding m0 saveTwoLines_fields float_eq_iff stale_slope by simp
  from rt idem have d: "loadCalibration_quad (saveLinear (- f32 5.98) (f32 19.558) ?q)
      = saveLinear (- f32 5.98) (f32 19.558) ?q"
    and e: "loadCalibration_quad (saveQuadratic (f32 1) (- f32 10) (f32 22) ?q)
      = saveQuadratic (f32 1) (- f32 10) (f32 22) ?q"
    by blast+
  from a b c idem d e show ?thesis by blast
qed

section \<open>Smoothing\<close>

text \<open>
  The seeding step computes \<open>v + alpha * (v - v)\<close>: the difference is 0, the product is
  0 and the sum is \<open>v\<close>, none of the three operations rounds.
\<close>

lemma float_seed: "x + a * (x - x) = (x::float)"
  by (simp add: float_self_cancel float_mult_zero float_add_zero)

lemma smooth_main_seed:
  assumes "filtV_main s = None"
  shows "smooth_main x s = (x, s\<lparr>filtV_main := Some x\<rparr>)"
  using assms by (simp add: smooth_main_def Let_def float_seed)

lemma smooth_main_step:
  assumes "filtV_main s = Some p"
  shows "smooth_main x s
    = (p + MAIN_ALPHA * (x - p), s\<lparr>filtV_main := Some (p + MAIN_ALPHA * (x - p))\<rparr>)"
  using assms by (simp add: smooth_main_def Let_def)

lemma accepted_resets_filter:
  "fst (handleSetCal2 rq s) = Reply200 \<Longrightarrow> filtV_main (snd (handleSetCal2 rq s)) = None"
  "fst (handleSetCal3 rq s) = Reply200 \<Longrightarrow> filtV_main (snd (handleSetCal3 rq s)) = None"
  "fst (handleSetCal2_quad rq q) = Reply200 \<Longrightarrow> filtV (snd (handleSetCal2_quad rq q)) = None"
  "fst (handleSetCal3_quad rq q) = Reply200 \<Longrightarrow> filtV (snd (handleSetCal3_quad rq q)) = None"
  by (simp_all add: handleSetCal2_def handleSetCal3_def handleSetCal2_quad_def
      handleSetCal3_quad_def Let_def saveOneLine_fields saveTwoLines_fields saveLinear_fields
      saveQuadratic_fields split: if_splits option.splits)

text \<open>
  C8. The filter step on a reading \<open>x\<close>: when the filter is unseeded (at power-on, and
  after every accepted fit, which stores \<^verbatim>\<open>NAN\<close>) the step returns \<open>x\<close> itself and
  keeps it; when the filter holds \<open>p\<close> it returns and keeps \<open>p + alpha * (x - p)\<close>. The
  same holds for \<^verbatim>\<open>readPHVoltage\<close> of the quadratic sketch on its scaled reading.
  Equality is equality of floats.
\<close>

theorem smoother_seeds:
  "(filtV_main s = None \<longrightarrow>
        fst (smooth_main x s) = x \<and> filtV_main (snd (smooth_main x s)) = Some x
      \<and> fst (readVoltageMainSmoothed src s) = readVoltageRawTrimmed src)
   \<and> (filtV_main s = Some p \<longrightarrow>
        fst (smooth_main x s) = p + MAIN_ALPHA * (x - p)
      \<and> filtV_main (snd (smooth_main x s)) = Some (p + MAIN_ALPHA * (x - p)))
   \<and> filtV_main (power_on st) = None
   \<and> filtV_main (saveOneLine V4 V7 s) = None
   \<and> filtV_main (saveTwoLines V4 V7 V9 s) = None
   \<and> (fst (handleSetCal2 rq s) = Reply200 \<longrightarrow>
        fst (smooth_main x (snd (handleSetCal2 rq s))) = x)
   \<and> (fst (handleSetCal3 rq s) = Reply200 \<longrightarrow>
        fst (smooth_main x (snd (handleSetCal3 rq s))) = x)
   \<and> (filtV q = None \<longrightarrow>
        fst (readPHVoltage src q) = trimmed_mean 20 src * VOLTAGE_SCALE)
   \<and> (filtV q = Some p \<longrightarrow>
        fst (readPHVoltage src q)
          = p + IIR_ALPHA * (trimmed_mean 20 src * VOLTAGE_SCALE - p))
   \<and> filtV (power_on_quad st) = None
   \<and> (fst (handleSetCal2_quad rq q) = Reply200 \<longrightarrow>
        fst (readPHVoltage src (snd (handleSetCal2_quad rq q)))
          = trimmed_mean 20 src * VOLTAGE_SCALE)
   \<and> (fst (handleSetCal3_quad rq q) = Reply200 \<longrightarrow>
        fst (readPHVoltage src (snd (handleSetCal3_quad rq q)))
          = trimmed_mean 20 src * VOLTAGE_SCALE)"
proof -
  have seed: "filtV_main t = None \<Longrightarrow> fst (smooth_main x t) = x
      \<and> filtV_main (snd (smooth_main x t)) = Some x
      \<and> fst (readVoltageMainSmoothed src t) = readVoltageRawTrimmed src" for t
    by (simp add: smooth_main_seed readVoltageMainSmoothed_def)
  have step: "filtV_main s = Some p \<Longrightarrow> fst (smooth_main x s) = p + MAIN_ALPHA * (x - p)
      \<and> filtV_main (snd (smooth_main x s)) = Some (p + MAIN_ALPHA * (x - p))"
    by (simp add: smooth_main_step)
  have qseed: "filtV t = None \<Longrightarrow>
      fst (readPHVoltage src t) = trimmed_mean 20 src * VOLTAGE_SCALE" for t
    by (simp add: readPHVoltage_def Let_def float_seed)
  have qstep: "filtV q = Some p \<Longrightarrow> fst (readPHVoltage src q)
      = p + IIR_ALPHA * (trimmed_mean 20 src * VOLTAGE_SCALE - p)"
    by (simp add: readPHVoltage_def Let_def)
  have init: "filtV_main (power_on st) = None" "filtV (power_on_quad st) = None"
    by (simp_all add: power_on_def power_on_quad_def)
  show ?thesis
    using seed [of s] step qseed [of q] qstep init
      seed [OF accepted_resets_filter(1), of rq s]
      seed [OF accepted_resets_filter(2), of rq s]
      qseed [OF accepted_resets_filter(3), of rq q]
      qseed [OF accepted_resets_filter(4), of rq q]
    by (simp add: saveOneLine_fields saveTwoLines_fields)
qed

text \<open>The filter step from 2.3 V on a reading of 2.5 V: 2.3299999237060546875 V.\<close>

lemma smooth_step:
  shows "val (f32 2.3 + MAIN_ALPHA * (f32 2.5 - f32 2.3)) = 1221591 / 524288"
proof -
  have e1: "val (f32 2.5 - f32 2.3) = 838861 / 4194304"
    by (rule val_minusI [OF f32_2_5 f32_2_3]) (rule rnd_down [where k = 3 and n = 13421776], simp_all)
  have e2: "val (MAIN_ALPHA * (f32 2.5 - f32 2.3)) = 4026533 / 134217728"
    by (rule val_timesI [OF val_MAIN_ALPHA e1]) (rule rnd_down [where k = 6 and n = 16106132], simp_all)
  have e3: "val (f32 2.3 + MAIN_ALPHA * (f32 2.5 - f32 2.3)) = 1221591 / 524288"
    by (rule val_plusI [OF f32_2_3 e2]) (rule rnd_up [where k = 1 and n = 9772728], simp_all)
  show "val (f32 2.3 + MAIN_ALPHA * (f32 2.5 - f32 2.3)) = 1221591 / 524288"
    by (rule e3)
qed

text \<open>
  Power-on, a first reading of 2.3 V, a second of 2.5 V, then an accepted two-point fit and
  a reading of 2.5 V.
\<close>

theorem smoother_seeds_witness:
  "filtV_main (power_on []) = None
   \<and> fst (smooth_main (f32 2.3) (power_on [])) = f32 2.3
   \<and> filtV_main (snd (smooth_main (f32 2.3) (power_on []))) = Some (f32 2.3)
   \<and> fst (smooth_main (f32 2.5) (snd (smooth_main (f32 2.3) (power_on []))))
       = f32 2.3 + MAIN_ALPHA * (f32 2.5 - f32 2.3)
   \<and> val (fst (smooth_main (f32 2.5) (snd (smooth_main (f32 2.3) (power_on [])))))
       = 2.3299999237060546875
   \<and> fst (handleSetCal2 [''v4'' \<mapsto> f32 2.6, ''v7'' \<mapsto> f32 2.1]
        (snd (smooth_main (f32 2.5) (snd (smooth_main (f32 2.3) (power_on [])))))) = Reply200
   \<and> fst (smooth_main (f32 2.5) (snd (handleSetCal2 [''v4'' \<mapsto> f32 2.6, ''v7'' \<mapsto> f32 2.1]
        (snd (smooth_main (f32 2.5) (snd (smooth_main (f32 2.3) (power_on []))))))))
       = f32 2.5"
proof -
  let ?s0 = "power_on []"
  let ?s1 = "snd (smooth_main (f32 2.3) ?s0)"
  let ?s2 = "snd (smooth_main (f32 2.5) ?s1)"
  let ?rq = "[''v4'' \<mapsto> f32 2.6, ''v7'' \<mapsto> f32 2.1]"
  have i: "filtV_main ?s0 = None"
    by (simp add: power_on_def)
  from smoother_seeds [of ?s0 "f32 2.3" "\<lambda>i. 0" 0 "[]" 0 0 0 ?rq "power_on_quad []"] i
  have a: "fst (smooth_main (f32 2.3) ?s0) = f32 2.3" "filtV_main ?s1 = Some (f32 2.3)"
    by blast+
  from smoother_seeds [of ?s1 "f32 2.5" "\<lambda>i. 0" "f32 2.3" "[]" 0 0 0 ?rq "power_on_quad []"] a(2)
  have b: "fst (smooth_main (f32 2.5) ?s1) = f32 2.3 + MAIN_ALPHA * (f32 2.5 - f32 2.3)"
    by blast
  have bv: "val (fst (smooth_main (f32 2.5) ?s1)) = 2.3299999237060546875"
    unfolding b smooth_step by simp
  have ok: "fst (handleSetCal2 ?rq ?s2) = Reply200"
    unfolding handleSetCal2_accepts(1) [OF fit2_reference(1) fit2_reference(2) fit2_reference(3)]
    by simp
  from smoother_seeds [of ?s2 "f32 2.5" "\<lambda>i. 0" 0 "[]" 0 0 0 ?rq "power_on_quad []"] ok
  have c: "fst (smooth_main (f32 2.5) (snd (handleSetCal2 ?rq ?s2))) = f32 2.5"
    by blast
  from i a b bv ok c show ?thesis by blast
qed

section \<open>The quadratic through three points\<close>

text \<open>
  The three coefficients, as sums of the Lagrange terms \<open>A1\<close>, \<open>A2\<close>, \<open>A3\<close>: in exact
  arithmetic two of the three terms vanish at each control voltage.
\<close>

lemma lagrange_at_1:
  "(A1 + A2 + A3) * x1 * x1 + - (A1 * (x2 + x3) + A2 * (x1 + x3) + A3 * (x1 + x2)) * x1
     + (A1 * (x2 * x3) + A2 * (x1 * x3) + A3 * (x1 * x2))
   = A1 * ((x1 - x2) * (x1 - x3))" for A1 :: real
  by (simp add: algebra_simps)

lemma lagrange_at_2:
  "(A1 + A2 + A3) * x2 * x2 + - (A1 * (x2 + x3) + A2 * (x1 + x3) + A3 * (x1 + x2)) * x2
     + (A1 * (x2 * x3) + A2 * (x1 * x3) + A3 * (x1 * x2))
   = A2 * ((x2 - x1) * (x2 - x3))" for A1 :: real
  by (simp add: algebra_simps)

lemma lagrange_at_3:
  "(A1 + A2 + A3) * x3 * x3 + - (A1 * (x2 + x3) + A2 * (x1 + x3) + A3 * (x1 + x2)) * x3
     + (A1 * (x2 * x3) + A2 * (x1 * x3) + A3 * (x1 * x2))
   = A3 * ((x3 - x1) * (x3 - x2))" for A1 :: real
  by (simp add: algebra_simps)

lemma solve_exact_Some:
  assumes "solveQuadraticFrom3Points_exact x1 y1 x2 y2 x3 y3 = Some (a, b, c)"
  shows "a * x1 * x1 + b * x1 + c = y1"
    and "a * x2 * x2 + b * x2 + c = y2"
    and "a * x3 * x3 + b * x3 + c = y3"
proof -
  let ?d1 = "(x1 - x2) * (x1 - x3)" and ?d2 = "(x2 - x1) * (x2 - x3)"
    and ?d3 = "(x3 - x1) * (x3 - x2)"
  from assms have big: "\<not> \<bar>?d1\<bar> < 1 / 10 ^ 9" "\<not> \<bar>?d2\<bar> < 1 / 10 ^ 9" "\<not> \<bar>?d3\<bar> < 1 / 10 ^ 9"
    by (auto simp add: solveQuadraticFrom3Points_exact_def Let_def split: if_splits)
  then have nz: "?d1 \<noteq> 0" "?d2 \<noteq> 0" "?d3 \<noteq> 0"
    by auto
  from assms big have abc: "a = y1 / ?d1 + y2 / ?d2 + y3 / ?d3"
    "b = - (y1 / ?d1 * (x2 + x3) + y2 / ?d2 * (x1 + x3) + y3 / ?d3 * (x1 + x2))"
    "c = y1 / ?d1 * (x2 * x3) + y2 / ?d2 * (x1 * x3) + y3 / ?d3 * (x1 * x2)"
    by (simp_all add: solveQuadraticFrom3Points_exact_def Let_def)
  show "a * x1 * x1 + b * x1 + c = y1"
    unfolding abc lagrange_at_1 using nz(1) by simp
  show "a * x2 * x2 + b * x2 + c = y2"
    unfolding abc lagrange_at_2 using nz(2) by simp
  show "a * x3 * x3 + b * x3 + c = y3"
    unfolding abc lagrange_at_3 using nz(3) by simp
qed

text \<open>The solver of the firmware on floats: when it succeeds, and with what.\<close>

lemma solve_None_iff:
  "solveQuadraticFrom3Points x1 y1 x2 y2 x3 y3 = None \<longleftrightarrow>
     \<bar>(x1 - x2) * (x1 - x3)\<bar> < f32 (1 / 10 ^ 9) \<or> \<bar>(x2 - x1) * (x2 - x3)\<bar> < f32 (1 / 10 ^ 9)
     \<or> \<bar>(x3 - x1) * (x3 - x2)\<bar> < f32 (1 / 10 ^ 9)"
  by (simp add: solveQuadraticFrom3Points_def Let_def)

lemma solve_Some_eq:
  fixes x1 y1 x2 y2 x3 y3 :: float
  defines "d1 \<equiv> (x1 - x2) * (x1 - x3)"
  defines "d2 \<equiv> (x2 - x1) * (x2 - x3)"
  defines "d3 \<equiv> (x3 - x1) * (x3 - x2)"
  defines "A1 \<equiv> y1 / d1"
  defines "A2 \<equiv> y2 / d2"
  defines "A3 \<equiv> y3 / d3"
  assumes big: "f32 (1 / 10 ^ 9) \<le> \<bar>d1\<bar>" "f32 (1 / 10 ^ 9) \<le> \<bar>d2\<bar>" "f32 (1 / 10 ^ 9) \<le> \<bar>d3\<bar>"
  shows "solveQuadraticFrom3Points x1 y1 x2 y2 x3 y3
    = Some (A1 + A2 + A3,
            - (A1 * (x2 + x3) + A2 * (x1 + x3) + A3 * (x1 + x2)),
            A1 * (x2 * x3) + A2 * (x1 * x3) + A3 * (x1 * x2))"
  using big unfolding A1_def A2_def A3_def d1_def d2_def d3_def
  by (simp add: solveQuadraticFrom3Points_def Let_def not_less)

lemma handleSetCal3_quad_accepted:
  assumes "fst (handleSetCal3_quad rq q) = Reply200"
  shows "\<exists>a b c. solveQuadraticFrom3Points (arg rq ''v4'') PH4 (arg rq ''v7'') PH7
            (arg rq ''v9'') PH9 = Some (a, b, c)
          \<and> snd (handleSetCal3_quad rq q) = saveQuadratic a b c q"
  using assms
  by (auto simp add: handleSetCal3_quad_def Let_def split: if_splits option.splits)

lemma handleSetCal3_quad_accepts:
  assumes "0 < V4" "0 < V7" "0 < V9"
    and "f32 0.01 \<le> \<bar>V4 - V7\<bar>" "f32 0.01 \<le> \<bar>V9 - V7\<bar>" "f32 0.01 \<le> \<bar>V9 - V4\<bar>"
    and "solveQuadraticFrom3Points V4 PH4 V7 PH7 V9 PH9 = Some (a, b, c)"
  shows "handleSetCal3_quad [''v4'' \<mapsto> V4, ''v7'' \<mapsto> V7, ''v9'' \<mapsto> V9] q
           = (Reply200, saveQuadratic a b c q)"
  using assms by (simp add: handleSetCal3_quad_def Let_def not_le not_less)

text \<open>
  The quadratic fit at the reference voltages 2.600 V, 2.100 V and 1.800 V and at
  2.15 V, 2.10 V and 2.05 V: the denominators, the Lagrange terms, the coefficients and
  the quadratic at the three voltages, every operation rounded.
\<close>

lemma quad_reference:
  defines "V4 \<equiv> f32 2.6"
  defines "V7 \<equiv> f32 2.1"
  defines "V9 \<equiv> f32 1.8"
  defines "d1 \<equiv> (V4 - V7) * (V4 - V9)"
  defines "d2 \<equiv> (V7 - V4) * (V7 - V9)"
  defines "d3 \<equiv> (V9 - V4) * (V9 - V7)"
  defines "A1 \<equiv> PH4 / d1"
  defines "A2 \<equiv> PH7 / d2"
  defines "A3 \<equiv> PH9 / d3"
  defines "a \<equiv> A1 + A2 + A3"
  defines "b \<equiv> - (A1 * (V7 + V9) + A2 * (V4 + V9) + A3 * (V4 + V7))"
  defines "c \<equiv> A1 * (V7 * V9) + A2 * (V4 * V9) + A3 * (V4 * V7)"
  shows "0 < V4"
    and "0 < V7"
    and "0 < V9"
    and "f32 0.01 \<le> \<bar>V4 - V7\<bar>"
    and "f32 0.01 \<le> \<bar>V9 - V7\<bar>"
    and "f32 0.01 \<le> \<bar>V9 - V4\<bar>"
    and "f32 (1 / 10 ^ 9) \<le> \<bar>d1\<bar>"
    and "f32 (1 / 10 ^ 9) \<le> \<bar>d2\<bar>"
    and "f32 (1 / 10 ^ 9) \<le> \<bar>d3\<bar>"
    and "val a = 421615 / 262144"
    and "val b = - (887303 / 65536)"
    and "val c = 1857257 / 65536"
    and "val (a * V4 * V4 + b * V4 + c) = 525597 / 131072"
    and "val (a * V7 * V7 + b * V7 + c) = 1835005 / 262144"
    and "val (a * V9 * V9 + b * V9 + c) = 2406479 / 262144"
proof -
  have e1: "val V4 = 5452595 / 2097152"
    unfolding V4_def by (rule f32_2_6)
  have e2: "val V7 = 4404019 / 2097152"
    unfolding V7_def by (rule f32_2_1)
  have e3: "val V9 = 7549747 / 4194304"
    unfolding V9_def by (rule f32_1_8)
  have e4: "val (V4 - V7) = 1 / 2"
    by (rule val_minusI [OF e1 e2]) (rule rnd_down [where k = 1 and n = 8388608], simp_all)
  have e5: "val (V4 - V9) = 3355443 / 4194304"
    by (rule val_minusI [OF e1 e3]) (rule rnd_down [where k = 1 and n = 13421772], simp_all)
  have e6: "val ((V4 - V7) * (V4 - V9)) = 3355443 / 8388608"
    by (rule val_timesI [OF e4 e5]) (rule rnd_down [where k = 2 and n = 13421772], simp_all)
  have e7: "val d1 = 3355443 / 8388608"
    unfolding d1_def by (rule e6)
  have e8: "val (V7 - V4) = - (1 / 2)"
    by (rule val_minusI [OF e2 e1]) (rule rnd_down_neg [where k = 1 and n = 8388608], simp_all)
  have e9: "val (V7 - V9) = 1258291 / 4194304"
    by (rule val_minusI [OF e2 e3]) (rule rnd_down [where k = 2 and n = 10066328], simp_all)
  have e10: "val ((V7 - V4) * (V7 - V9)) = - (1258291 / 8388608)"
    by (rule val_timesI [OF e8 e9]) (rule rnd_down_neg [where k = 3 and n = 10066328], simp_all)
  have e11: "val d2 = - (1258291 / 8388608)"
    unfolding d2_def by (rule e10)
  have e12: "val (V9 - V4) = - (3355443 / 4194304)"
    by (rule val_minusI [OF e3 e1]) (rule rnd_down_neg [where k = 1 and n = 13421772], simp_all)
  have e13: "val (V9 - V7) = - (1258291 / 4194304)"
    by (rule val_minusI [OF e3 e2]) (rule rnd_down_neg [where k = 2 and n = 10066328], simp_all)
  have e14: "val ((V9 - V4) * (V9 - V7)) = 4026531 / 16777216"
    by (rule val_timesI [OF e12 e13]) (rule rnd_down [where k = 3 and n = 16106124], simp_all)
  have e15: "val d3 = 4026531 / 16777216"
    unfolding d3_def by (rule e14)
  have e16: "val (PH4 / d1) = 1313997 / 131072"
    by (rule val_divideI [OF val_PH4 e7]) (rule rnd_up [where k = 3 and n = 10511976], simp_all)
  have e17: "val A1 = 1313997 / 131072"
    unfolding A1_def by (rule e16)
  have e18: "val (PH7 / d2) = - (12233389 / 262144)"
    by (rule val_divideI [OF val_PH7 e11]) (rule rnd_up_neg [where k = 5 and n = 12233389], simp_all)
  have e19: "val A2 = - (12233389 / 262144)"
    unfolding A2_def by (rule e18)
  have e20: "val (PH9 / d3) = 5013505 / 131072"
    by (rule val_divideI [OF val_PH9 e15]) (rule rnd_up [where k = 5 and n = 10027010], simp_all)
  have e21: "val A3 = 5013505 / 131072"
    unfolding A3_def by (rule e20)
  have e22: "val (A1 + A2) = - (9605395 / 262144)"
    by (rule val_plusI [OF e17 e19]) (rule rnd_up_neg [where k = 5 and n = 9605395], simp_all)
  have e23: "val (A1 + A2 + A3) = 421615 / 262144"
    by (rule val_plusI [OF e22 e21]) (rule rnd_up [where k = 0 and n = 13491680], simp_all)
  have e24: "val a = 421615 / 262144"
    unfolding a_def by (rule e23)
  have e25: "val (V7 + V9) = 16357785 / 4194304"
    by (rule val_plusI [OF e2 e3]) (rule rnd_up [where k = 1 and n = 16357785], simp_all)
  have e26: "val (A1 * (V7 + V9)) = 1281147 / 32768"
    by (rule val_timesI [OF e17 e25]) (rule rnd_up [where k = 5 and n = 10249176], simp_all)
  have e27: "val (V4 + V9) = 2306867 / 524288"
    by (rule val_plusI [OF e1 e3]) (rule rnd_up [where k = 2 and n = 9227468], simp_all)
  have e28: "val (A2 * (V4 + V9)) = - (13456727 / 65536)"
    by (rule val_timesI [OF e19 e27]) (rule rnd_up_neg [where k = 7 and n = 13456727], simp_all)
  have e29: "val (A1 * (V7 + V9) + A2 * (V4 + V9)) = - (10894433 / 65536)"
    by (rule val_plusI [OF e26 e28]) (rule rnd_up_neg [where k = 7 and n = 10894433], simp_all)
  have e30: "val (V4 + V7) = 4928307 / 1048576"
    by (rule val_plusI [OF e1 e2]) (rule rnd_up [where k = 2 and n = 9856614], simp_all)
  have e31: "val (A3 * (V4 + V7)) = 1472717 / 8192"
    by (rule val_timesI [OF e21 e30]) (rule rnd_up [where k = 7 and n = 11781736], simp_all)
  have e32: "val (A1 * (V7 + V9) + A2 * (V4 + V9) + A3 * (V4 + V7)) = 887303 / 65536"
    by (rule val_plusI [OF e29 e31]) (rule rnd_up [where k = 3 and n = 14196848], simp_all)
  have e33: "val (- (A1 * (V7 + V9) + A2 * (V4 + V9) + A3 * (V4 + V7))) = - (887303 / 65536)"
    by (rule val_uminusI [OF e32]) simp
  have e34: "val b = - (887303 / 65536)"
    unfolding b_def by (rule e33)
  have e35: "val (V7 * V9) = 3963617 / 1048576"
    by (rule val_timesI [OF e2 e3]) (rule rnd_up [where k = 1 and n = 15854468], simp_all)
  have e36: "val (A1 * (V7 * V9)) = 9933817 / 262144"
    by (rule val_timesI [OF e17 e35]) (rule rnd_up [where k = 5 and n = 9933817], simp_all)
  have e37: "val (V4 * V9) = 9814671 / 2097152"
    by (rule val_timesI [OF e1 e3]) (rule rnd_up [where k = 2 and n = 9814671], simp_all)
  have e38: "val (A2 * (V4 * V9)) = - (14313065 / 65536)"
    by (rule val_timesI [OF e19 e37]) (rule rnd_up_neg [where k = 7 and n = 14313065], simp_all)
  have e39: "val (A1 * (V7 * V9) + A2 * (V4 * V9)) = - (11829611 / 65536)"
    by (rule val_plusI [OF e36 e38]) (rule rnd_up_neg [where k = 7 and n = 11829611], simp_all)
  have e40: "val (V4 * V7) = 11450449 / 2097152"
    by (rule val_timesI [OF e1 e2]) (rule rnd_up [where k = 2 and n = 11450449], simp_all)
  have e41: "val (A3 * (V4 * V7)) = 3421717 / 16384"
    by (rule val_timesI [OF e21 e40]) (rule rnd_up [where k = 7 and n = 13686868], simp_all)
  have e42: "val (A1 * (V7 * V9) + A2 * (V4 * V9) + A3 * (V4 * V7)) = 1857257 / 65536"
    by (rule val_plusI [OF e39 e41]) (rule rnd_up [where k = 4 and n = 14858056], simp_all)
  have e43: "val c = 1857257 / 65536"
    unfolding c_def by (rule e42)
  have e44: "val \<bar>V4 - V7\<bar> = 1 / 2"
    by (rule val_absI [OF e4]) simp
  have e45: "val \<bar>V9 - V7\<bar> = 1258291 / 4194304"
    by (rule val_absI [OF e13]) simp
  have e46: "val \<bar>V9 - V4\<bar> = 3355443 / 4194304"
    by (rule val_absI [OF e12]) simp
  have e47: "val \<bar>d1\<bar> = 3355443 / 8388608"
    by (rule val_absI [OF e7]) simp
  have e48: "val \<bar>d2\<bar> = 1258291 / 8388608"
    by (rule val_absI [OF e11]) simp
  have e49: "val \<bar>d3\<bar> = 4026531 / 16777216"
    by (rule val_absI [OF e15]) simp
  have e50: "val (a * V4) = 1096199 / 262144"
    by (rule val_timesI [OF e24 e1]) (rule rnd_up [where k = 2 and n = 8769592], simp_all)
  have e51: "val (a * V4 * V4) = 11400469 / 1048576"
    by (rule val_timesI [OF e50 e1]) (rule rnd_up [where k = 3 and n = 11400469], simp_all)
  have e52: "val (b * V4) = - (9227951 / 262144)"
    by (rule val_timesI [OF e34 e1]) (rule rnd_up_neg [where k = 5 and n = 9227951], simp_all)
  have e53: "val (a * V4 * V4 + b * V4) = - (3188917 / 131072)"
    by (rule val_plusI [OF e51 e52]) (rule rnd_up_neg [where k = 4 and n = 12755668], simp_all)
  have e54: "val (a * V4 * V4 + b * V4 + c) = 525597 / 131072"
    by (rule val_plusI [OF e53 e43]) (rule rnd_up [where k = 2 and n = 8409552], simp_all)
  have e55: "val (a * V7) = 14166263 / 4194304"
    by (rule val_timesI [OF e24 e2]) (rule rnd_up [where k = 1 and n = 14166263], simp_all)
  have e56: "val (a * V7 * V7) = 14874575 / 2097152"
    by (rule val_timesI [OF e55 e2]) (rule rnd_up [where k = 2 and n = 14874575], simp_all)
  have e57: "val (b * V7) = - (7453345 / 262144)"
    by (rule val_timesI [OF e34 e2]) (rule rnd_up_neg [where k = 4 and n = 14906690], simp_all)
  have e58: "val (a * V7 * V7 + b * V7) = - (5594023 / 262144)"
    by (rule val_plusI [OF e56 e57]) (rule rnd_up_neg [where k = 4 and n = 11188046], simp_all)
  have e59: "val (a * V7 * V7 + b * V7 + c) = 1835005 / 262144"
    by (rule val_plusI [OF e58 e43]) (rule rnd_up [where k = 2 and n = 14680040], simp_all)
  have e60: "val (a * V9) = 758907 / 262144"
    by (rule val_timesI [OF e24 e3]) (rule rnd_up [where k = 1 and n = 12142512], simp_all)
  have e61: "val (a * V9 * V9) = 10928261 / 2097152"
    by (rule val_timesI [OF e60 e3]) (rule rnd_up [where k = 2 and n = 10928261], simp_all)
  have e62: "val (b * V9) = - (12777163 / 524288)"
    by (rule val_timesI [OF e34 e3]) (rule rnd_up_neg [where k = 4 and n = 12777163], simp_all)
  have e63: "val (a * V9 * V9 + b * V9) = - (5022549 / 262144)"
    by (rule val_plusI [OF e61 e62]) (rule rnd_up_neg [where k = 4 and n = 10045098], simp_all)
  have e64: "val (a * V9 * V9 + b * V9 + c) = 2406479 / 262144"
    by (rule val_plusI [OF e63 e43]) (rule rnd_up [where k = 3 and n = 9625916], simp_all)
  show "0 < V4"
    unfolding less_float_def val_zero e1 by simp
  show "0 < V7"
    unfolding less_float_def val_zero e2 by simp
  show "0 < V9"
    unfolding less_float_def val_zero e3 by simp
  show "f32 0.01 \<le> \<bar>V4 - V7\<bar>"
    unfolding less_eq_float_def f32_0_01 e44 by simp
  show "f32 0.01 \<le> \<bar>V9 - V7\<bar>"
    unfolding less_eq_float_def f32_0_01 e45 by simp
  show "f32 0.01 \<le> \<bar>V9 - V4\<bar>"
    unfolding less_eq_float_def f32_0_01 e46 by simp
  show "f32 (1 / 10 ^ 9) \<le> \<bar>d1\<bar>"
    unfolding less_eq_float_def f32_1e_9 e47 by simp
  show "f32 (1 / 10 ^ 9) \<le> \<bar>d2\<bar>"
    unfolding less_eq_float_def f32_1e_9 e48 by simp
  show "f32 (1 / 10 ^ 9) \<le> \<bar>d3\<bar>"
    unfolding less_eq_float_def f32_1e_9 e49 by simp
  show "val a = 421615 / 262144"
    by (rule e24)
  show "val b = - (887303 / 65536)"
    by (rule e34)
  show "val c = 1857257 / 65536"
    by (rule e43)
  show "val (a * V4 * V4 + b * V4 + c) = 525597 / 131072"
    by (rule e54)
  show "val (a * V7 * V7 + b * V7 + c) = 1835005 / 262144"
    by (rule e59)
  show "val (a * V9 * V9 + b * V9 + c) = 2406479 / 262144"
    by (rule e64)
qed

lemma quad_close:
  defines "V4 \<equiv> f32 2.15"
  defines "V7 \<equiv> f32 2.10"
  defines "V9 \<equiv> f32 2.05"
  defines "d1 \<equiv> (V4 - V7) * (V4 - V9)"
  defines "d2 \<equiv> (V7 - V4) * (V7 - V9)"
  defines "d3 \<equiv> (V9 - V4) * (V9 - V7)"
  defines "A1 \<equiv> PH4 / d1"
  defines "A2 \<equiv> PH7 / d2"
  defines "A3 \<equiv> PH9 / d3"
  defines "a \<equiv> A1 + A2 + A3"
  defines "b \<equiv> - (A1 * (V7 + V9) + A2 * (V4 + V9) + A3 * (V4 + V7))"
  defines "c \<equiv> A1 * (V7 * V9) + A2 * (V4 * V9) + A3 * (V4 * V7)"
  shows "0 < V4"
    and "0 < V7"
    and "0 < V9"
    and "f32 0.01 \<le> \<bar>V4 - V7\<bar>"
    and "f32 0.01 \<le> \<bar>V9 - V7\<bar>"
    and "f32 0.01 \<le> \<bar>V9 - V4\<bar>"
    and "f32 (1 / 10 ^ 9) \<le> \<bar>d1\<bar>"
    and "f32 (1 / 10 ^ 9) \<le> \<bar>d2\<bar>"
    and "f32 (1 / 10 ^ 9) \<le> \<bar>d3\<bar>"
    and "val a = - (663539 / 4096)"
    and "val b = 643775 / 1024"
    and "val c = - (613209 / 1024)"
    and "val (a * V4 * V4 + b * V4 + c) = 65679 / 16384"
    and "val (a * V7 * V7 + b * V7 + c) = 114669 / 16384"
    and "val (a * V9 * V9 + b * V9 + c) = 75193 / 8192"
proof -
  have e1: "val V4 = 4508877 / 2097152"
    unfolding V4_def by (rule f32_2_15)
  have e2: "val V7 = 4404019 / 2097152"
    unfolding V7_def by (rule f32_2_10)
  have e3: "val V9 = 8598323 / 4194304"
    unfolding V9_def by (rule f32_2_05)
  have e4: "val (V4 - V7) = 52429 / 1048576"
    by (rule val_minusI [OF e1 e2]) (rule rnd_down [where k = 5 and n = 13421824], simp_all)
  have e5: "val (V4 - V9) = 419431 / 4194304"
    by (rule val_minusI [OF e1 e3]) (rule rnd_down [where k = 4 and n = 13421792], simp_all)
  have e6: "val ((V4 - V7) * (V4 - V9)) = 10737475 / 2147483648"
    by (rule val_timesI [OF e4 e5]) (rule rnd_down [where k = 8 and n = 10737475], simp_all)
  have e7: "val d1 = 10737475 / 2147483648"
    unfolding d1_def by (rule e6)
  have e8: "val (V7 - V4) = - (52429 / 1048576)"
    by (rule val_minusI [OF e2 e1]) (rule rnd_down_neg [where k = 5 and n = 13421824], simp_all)
  have e9: "val (V7 - V9) = 209715 / 4194304"
    by (rule val_minusI [OF e2 e3]) (rule rnd_down [where k = 5 and n = 13421760], simp_all)
  have e10: "val ((V7 - V4) * (V7 - V9)) = - (10737449 / 4294967296)"
    by (rule val_timesI [OF e8 e9]) (rule rnd_down_neg [where k = 9 and n = 10737449], simp_all)
  have e11: "val d2 = - (10737449 / 4294967296)"
    unfolding d2_def by (rule e10)
  have e12: "val (V9 - V4) = - (419431 / 4194304)"
    by (rule val_minusI [OF e3 e1]) (rule rnd_down_neg [where k = 4 and n = 13421792], simp_all)
  have e13: "val (V9 - V7) = - (209715 / 4194304)"
    by (rule val_minusI [OF e3 e2]) (rule rnd_down_neg [where k = 5 and n = 13421760], simp_all)
  have e14: "val ((V9 - V4) * (V9 - V7)) = 10737423 / 2147483648"
    by (rule val_timesI [OF e12 e13]) (rule rnd_down [where k = 8 and n = 10737423], simp_all)
  have e15: "val d3 = 10737423 / 2147483648"
    unfolding d3_def by (rule e14)
  have e16: "val (PH4 / d1) = 13139899 / 16384"
    by (rule val_divideI [OF val_PH4 e7]) (rule rnd_up [where k = 9 and n = 13139899], simp_all)
  have e17: "val A1 = 13139899 / 16384"
    unfolding A1_def by (rule e16)
  have e18: "val (PH7 / d2) = - (11468767 / 4096)"
    by (rule val_divideI [OF val_PH7 e11]) (rule rnd_up_neg [where k = 11 and n = 11468767], simp_all)
  have e19: "val A2 = - (11468767 / 4096)"
    unfolding A2_def by (rule e18)
  have e20: "val (PH9 / d3) = 7520253 / 4096"
    by (rule val_divideI [OF val_PH9 e15]) (rule rnd_up [where k = 10 and n = 15040506], simp_all)
  have e21: "val A3 = 7520253 / 4096"
    unfolding A3_def by (rule e20)
  have e22: "val (A1 + A2) = - (511487 / 256)"
    by (rule val_plusI [OF e17 e19]) (rule rnd_up_neg [where k = 10 and n = 16367584], simp_all)
  have e23: "val (A1 + A2 + A3) = - (663539 / 4096)"
    by (rule val_plusI [OF e22 e21]) (rule rnd_up_neg [where k = 7 and n = 10616624], simp_all)
  have e24: "val a = - (663539 / 4096)"
    unfolding a_def by (rule e23)
  have e25: "val (V7 + V9) = 2175795 / 524288"
    by (rule val_plusI [OF e2 e3]) (rule rnd_up [where k = 2 and n = 8703180], simp_all)
  have e26: "val (A1 * (V7 + V9)) = 3408161 / 1024"
    by (rule val_timesI [OF e17 e25]) (rule rnd_up [where k = 11 and n = 13632644], simp_all)
  have e27: "val (V4 + V9) = 4404019 / 1048576"
    by (rule val_plusI [OF e1 e3]) (rule rnd_up [where k = 2 and n = 8808038], simp_all)
  have e28: "val (A2 * (V4 + V9)) = - (12042205 / 1024)"
    by (rule val_timesI [OF e19 e27]) (rule rnd_up_neg [where k = 13 and n = 12042205], simp_all)
  have e29: "val (A1 * (V7 + V9) + A2 * (V4 + V9)) = - (2158511 / 256)"
    by (rule val_plusI [OF e26 e28]) (rule rnd_up_neg [where k = 13 and n = 8634044], simp_all)
  have e30: "val (V4 + V7) = 17 / 4"
    by (rule val_plusI [OF e1 e2]) (rule rnd_up [where k = 2 and n = 8912896], simp_all)
  have e31: "val (A3 * (V4 + V7)) = 7990269 / 1024"
    by (rule val_timesI [OF e21 e30]) (rule rnd_up [where k = 12 and n = 15980538], simp_all)
  have e32: "val (A1 * (V7 + V9) + A2 * (V4 + V9) + A3 * (V4 + V7)) = - (643775 / 1024)"
    by (rule val_plusI [OF e29 e31]) (rule rnd_up_neg [where k = 9 and n = 10300400], simp_all)
  have e33: "val (- (A1 * (V7 + V9) + A2 * (V4 + V9) + A3 * (V4 + V7))) = 643775 / 1024"
    by (rule val_uminusI [OF e32]) simp
  have e34: "val b = 643775 / 1024"
    unfolding b_def by (rule e33)
  have e35: "val (V7 * V9) = 9028239 / 2097152"
    by (rule val_timesI [OF e2 e3]) (rule rnd_up [where k = 2 and n = 9028239], simp_all)
  have e36: "val (A1 * (V7 * V9)) = 1767727 / 512"
    by (rule val_timesI [OF e17 e35]) (rule rnd_up [where k = 11 and n = 14141816], simp_all)
  have e37: "val (V4 * V9) = 4621599 / 1048576"
    by (rule val_timesI [OF e1 e3]) (rule rnd_up [where k = 2 and n = 9243198], simp_all)
  have e38: "val (A2 * (V4 * V9)) = - (3159287 / 256)"
    by (rule val_timesI [OF e19 e37]) (rule rnd_up_neg [where k = 13 and n = 12637148], simp_all)
  have e39: "val (A1 * (V7 * V9) + A2 * (V4 * V9)) = - (4550847 / 512)"
    by (rule val_plusI [OF e36 e38]) (rule rnd_up_neg [where k = 13 and n = 9101694], simp_all)
  have e40: "val (V4 * V7) = 9468641 / 2097152"
    by (rule val_timesI [OF e1 e2]) (rule rnd_up [where k = 2 and n = 9468641], simp_all)
  have e41: "val (A3 * (V4 * V7)) = 8488485 / 1024"
    by (rule val_timesI [OF e21 e40]) (rule rnd_up [where k = 13 and n = 8488485], simp_all)
  have e42: "val (A1 * (V7 * V9) + A2 * (V4 * V9) + A3 * (V4 * V7)) = - (613209 / 1024)"
    by (rule val_plusI [OF e39 e41]) (rule rnd_up_neg [where k = 9 and n = 9811344], simp_all)
  have e43: "val c = - (613209 / 1024)"
    unfolding c_def by (rule e42)
  have e44: "val \<bar>V4 - V7\<bar> = 52429 / 1048576"
    by (rule val_absI [OF e4]) simp
  have e45: "val \<bar>V9 - V7\<bar> = 209715 / 4194304"
    by (rule val_absI [OF e13]) simp
  have e46: "val \<bar>V9 - V4\<bar> = 419431 / 4194304"
    by (rule val_absI [OF e12]) simp
  have e47: "val \<bar>d1\<bar> = 10737475 / 2147483648"
    by (rule val_absI [OF e7]) simp
  have e48: "val \<bar>d2\<bar> = 10737449 / 4294967296"
    by (rule val_absI [OF e11]) simp
  have e49: "val \<bar>d3\<bar> = 10737423 / 2147483648"
    by (rule val_absI [OF e15]) simp
  have e50: "val (a * V4) = - (11412871 / 32768)"
    by (rule val_timesI [OF e24 e1]) (rule rnd_up_neg [where k = 8 and n = 11412871], simp_all)
  have e51: "val (a * V4 * V4) = - (12268837 / 16384)"
    by (rule val_timesI [OF e50 e1]) (rule rnd_up_neg [where k = 9 and n = 12268837], simp_all)
  have e52: "val (b * V4) = 5536465 / 4096"
    by (rule val_timesI [OF e34 e1]) (rule rnd_up [where k = 10 and n = 11072930], simp_all)
  have e53: "val (a * V4 * V4 + b * V4) = 9877023 / 16384"
    by (rule val_plusI [OF e51 e52]) (rule rnd_up [where k = 9 and n = 9877023], simp_all)
  have e54: "val (a * V4 * V4 + b * V4 + c) = 65679 / 16384"
    by (rule val_plusI [OF e53 e43]) (rule rnd_up [where k = 2 and n = 8406912], simp_all)
  have e55: "val (a * V7) = - (11147455 / 32768)"
    by (rule val_timesI [OF e24 e2]) (rule rnd_up_neg [where k = 8 and n = 11147455], simp_all)
  have e56: "val (a * V7 * V7) = - (11704827 / 16384)"
    by (rule val_timesI [OF e55 e2]) (rule rnd_up_neg [where k = 9 and n = 11704827], simp_all)
  have e57: "val (b * V7) = 2703855 / 2048"
    by (rule val_timesI [OF e34 e2]) (rule rnd_up [where k = 10 and n = 10815420], simp_all)
  have e58: "val (a * V7 * V7 + b * V7) = 9926013 / 16384"
    by (rule val_plusI [OF e56 e57]) (rule rnd_up [where k = 9 and n = 9926013], simp_all)
  have e59: "val (a * V7 * V7 + b * V7 + c) = 114669 / 16384"
    by (rule val_plusI [OF e58 e43]) (rule rnd_up [where k = 2 and n = 14677632], simp_all)
  have e60: "val (a * V9) = - (10882039 / 32768)"
    by (rule val_timesI [OF e24 e3]) (rule rnd_up_neg [where k = 8 and n = 10882039], simp_all)
  have e61: "val (a * V9 * V9) = - (5577045 / 8192)"
    by (rule val_timesI [OF e60 e3]) (rule rnd_up_neg [where k = 9 and n = 11154090], simp_all)
  have e62: "val (b * V9) = 5278955 / 4096"
    by (rule val_timesI [OF e34 e3]) (rule rnd_up [where k = 10 and n = 10557910], simp_all)
  have e63: "val (a * V9 * V9 + b * V9) = 4980865 / 8192"
    by (rule val_plusI [OF e61 e62]) (rule rnd_up [where k = 9 and n = 9961730], simp_all)
  have e64: "val (a * V9 * V9 + b * V9 + c) = 75193 / 8192"
    by (rule val_plusI [OF e63 e43]) (rule rnd_up [where k = 3 and n = 9624704], simp_all)
  show "0 < V4"
    unfolding less_float_def val_zero e1 by simp
  show "0 < V7"
    unfolding less_float_def val_zero e2 by simp
  show "0 < V9"
    unfolding less_float_def val_zero e3 by simp
  show "f32 0.01 \<le> \<bar>V4 - V7\<bar>"
    unfolding less_eq_float_def f32_0_01 e44 by simp
  show "f32 0.01 \<le> \<bar>V9 - V7\<bar>"
    unfolding less_eq_float_def f32_0_01 e45 by simp
  show "f32 0.01 \<le> \<bar>V9 - V4\<bar>"
    unfolding less_eq_float_def f32_0_01 e46 by simp
  show "f32 (1 / 10 ^ 9) \<le> \<bar>d1\<bar>"
    unfolding less_eq_float_def f32_1e_9 e47 by simp
  show "f32 (1 / 10 ^ 9) \<le> \<bar>d2\<bar>"
    unfolding less_eq_float_def f32_1e_9 e48 by simp
  show "f32 (1 / 10 ^ 9) \<le> \<bar>d3\<bar>"
    unfolding less_eq_float_def f32_1e_9 e49 by simp
  show "val a = - (663539 / 4096)"
    by (rule e24)
  show "val b = 643775 / 1024"
    by (rule e34)
  show "val c = - (613209 / 1024)"
    by (rule e43)
  show "val (a * V4 * V4 + b * V4 + c) = 65679 / 16384"
    by (rule e54)
  show "val (a * V7 * V7 + b * V7 + c) = 114669 / 16384"
    by (rule e59)
  show "val (a * V9 * V9 + b * V9 + c) = 75193 / 8192"
    by (rule e64)
qed

text \<open>
  C9, as the code has it. In exact arithmetic the formula of
  \<^verbatim>\<open>solveQuadraticFrom3Points\<close> gives, whenever none of its three denominators is
  within \<open>10\<^sup>-\<^sup>9\<close> of zero, a quadratic that passes exactly through the three control
  points. The firmware computes the formula in binary32. An accepted three-point request
  of the quadratic sketch stores the coefficients the solver returns and \<^verbatim>\<open>calculatePH\<close>
  evaluates \<open>a * v * v + b * v + c\<close> with them; at the reference voltages 2.600 V,
  2.100 V and 1.800 V the results are 4.01, 7.00 and 9.18 within \<open>10\<^sup>-\<^sup>4\<close> (about
  \<open>1.3 \<times> 10\<^sup>-\<^sup>5\<close> below each). The tolerance is not met by every accepted request: the
  Lagrange terms grow as the voltages get close and their sum cancels.
\<close>

theorem quadratic_interpolates:
  "(solveQuadraticFrom3Points_exact x1 y1 x2 y2 x3 y3 = Some (a, b, c) \<longrightarrow>
        a * x1 * x1 + b * x1 + c = y1
      \<and> a * x2 * x2 + b * x2 + c = y2
      \<and> a * x3 * x3 + b * x3 + c = y3)
   \<and> (1 / 10 ^ 9 \<le> \<bar>(x1 - x2) * (x1 - x3)\<bar> \<and> 1 / 10 ^ 9 \<le> \<bar>(x2 - x1) * (x2 - x3)\<bar>
        \<and> 1 / 10 ^ 9 \<le> \<bar>(x3 - x1) * (x3 - x2)\<bar> \<longrightarrow>
        solveQuadraticFrom3Points_exact x1 y1 x2 y2 x3 y3 \<noteq> None)
   \<and> (fst (handleSetCal3_quad rq q) = Reply200 \<longrightarrow>
        (\<exists>a b c. solveQuadraticFrom3Points (arg rq ''v4'') PH4 (arg rq ''v7'') PH7
                    (arg rq ''v9'') PH9 = Some (a, b, c)
           \<and> snd (handleSetCal3_quad rq q) = saveQuadratic a b c q
           \<and> useQuadratic (snd (handleSetCal3_quad rq q))
           \<and> calculatePH (snd (handleSetCal3_quad rq q)) v = a * v * v + b * v + c))
   \<and> fst (handleSetCal3_quad [''v4'' \<mapsto> f32 2.6, ''v7'' \<mapsto> f32 2.1, ''v9'' \<mapsto> f32 1.8] q) = Reply200
   \<and> \<bar>val (calculatePH
              (snd (handleSetCal3_quad [''v4'' \<mapsto> f32 2.6, ''v7'' \<mapsto> f32 2.1, ''v9'' \<mapsto> f32 1.8] q))
              (f32 2.6)) - 4.01\<bar> \<le> 1 / 10 ^ 4
   \<and> \<bar>val (calculatePH
              (snd (handleSetCal3_quad [''v4'' \<mapsto> f32 2.6, ''v7'' \<mapsto> f32 2.1, ''v9'' \<mapsto> f32 1.8] q))
              (f32 2.1)) - 7.00\<bar> \<le> 1 / 10 ^ 4
   \<and> \<bar>val (calculatePH
              (snd (handleSetCal3_quad [''v4'' \<mapsto> f32 2.6, ''v7'' \<mapsto> f32 2.1, ''v9'' \<mapsto> f32 1.8] q))
              (f32 1.8)) - 9.18\<bar> \<le> 1 / 10 ^ 4"
proof -
  let ?rq = "[''v4'' \<mapsto> f32 2.6, ''v7'' \<mapsto> f32 2.1, ''v9'' \<mapsto> f32 1.8]"
  have pts: "solveQuadraticFrom3Points_exact x1 y1 x2 y2 x3 y3 = Some (a, b, c) \<longrightarrow>
        a * x1 * x1 + b * x1 + c = y1
      \<and> a * x2 * x2 + b * x2 + c = y2
      \<and> a * x3 * x3 + b * x3 + c = y3"
    using solve_exact_Some [of x1 y1 x2 y2 x3 y3 a b c] by blast
  have tot: "1 / 10 ^ 9 \<le> \<bar>(x1 - x2) * (x1 - x3)\<bar> \<and> 1 / 10 ^ 9 \<le> \<bar>(x2 - x1) * (x2 - x3)\<bar>
        \<and> 1 / 10 ^ 9 \<le> \<bar>(x3 - x1) * (x3 - x2)\<bar> \<longrightarrow>
        solveQuadraticFrom3Points_exact x1 y1 x2 y2 x3 y3 \<noteq> None"
    by (simp add: solveQuadraticFrom3Points_exact_def Let_def not_less)
  have fit: "\<exists>a b c. solveQuadraticFrom3Points (arg rq ''v4'') PH4 (arg rq ''v7'') PH7
                    (arg rq ''v9'') PH9 = Some (a, b, c)
           \<and> snd (handleSetCal3_quad rq q) = saveQuadratic a b c q
           \<and> useQuadratic (snd (handleSetCal3_quad rq q))
           \<and> calculatePH (snd (handleSetCal3_quad rq q)) v = a * v * v + b * v + c"
    if ok: "fst (handleSetCal3_quad rq q) = Reply200"
  proof -
    from handleSetCal3_quad_accepted [OF ok] obtain a b c where
      sol: "solveQuadraticFrom3Points (arg rq ''v4'') PH4 (arg rq ''v7'') PH7
            (arg rq ''v9'') PH9 = Some (a, b, c)"
      and q': "snd (handleSetCal3_quad rq q) = saveQuadratic a b c q"
      by blast
    have "useQuadratic (snd (handleSetCal3_quad rq q))"
      "calculatePH (snd (handleSetCal3_quad rq q)) v = a * v * v + b * v + c"
      unfolding q' by (simp_all add: saveQuadratic_fields calc_saveQuadratic)
    with sol q' show ?thesis by blast
  qed
  note sol = solve_Some_eq [where ?y1.0 = PH4 and ?y2.0 = PH7 and ?y3.0 = PH9,
      OF quad_reference(7) quad_reference(8) quad_reference(9)]
  note acc = handleSetCal3_quad_accepts [OF quad_reference(1) quad_reference(2)
      quad_reference(3) quad_reference(4) quad_reference(5) quad_reference(6) sol]
  have r: "fst (handleSetCal3_quad ?rq q) = Reply200"
    unfolding acc by simp
  have at4: "\<bar>val (calculatePH (snd (handleSetCal3_quad ?rq q)) (f32 2.6)) - 4.01\<bar> \<le> 1 / 10 ^ 4"
    unfolding acc snd_conv calc_saveQuadratic quad_reference(13) by simp
  have at7: "\<bar>val (calculatePH (snd (handleSetCal3_quad ?rq q)) (f32 2.1)) - 7.00\<bar> \<le> 1 / 10 ^ 4"
    unfolding acc snd_conv calc_saveQuadratic quad_reference(14) by simp
  have at9: "\<bar>val (calculatePH (snd (handleSetCal3_quad ?rq q)) (f32 1.8)) - 9.18\<bar> \<le> 1 / 10 ^ 4"
    unfolding acc snd_conv calc_saveQuadratic quad_reference(15) by simp
  from pts tot fit r at4 at7 at9 show ?thesis by blast
qed

text \<open>
  The reference voltages through the quadratic sketch from power-on, and the exact
  formula on the points \<open>(1, 1)\<close>, \<open>(2, 4)\<close>, \<open>(3, 9)\<close> of the parabola \<open>y = x\<^sup>2\<close>.
\<close>

theorem quadratic_interpolates_witness:
  "fst (handleSetCal3_quad [''v4'' \<mapsto> f32 2.6, ''v7'' \<mapsto> f32 2.1, ''v9'' \<mapsto> f32 1.8]
          (power_on_quad [])) = Reply200
   \<and> useQuadratic (snd (handleSetCal3_quad [''v4'' \<mapsto> f32 2.6, ''v7'' \<mapsto> f32 2.1, ''v9'' \<mapsto> f32 1.8]
          (power_on_quad [])))
   \<and> \<bar>val (calculatePH (snd (handleSetCal3_quad [''v4'' \<mapsto> f32 2.6, ''v7'' \<mapsto> f32 2.1, ''v9'' \<mapsto> f32 1.8]
          (power_on_quad []))) (f32 2.6)) - 4.01\<bar> \<le> 1 / 10 ^ 4
   \<and> \<bar>val (calculatePH (snd (handleSetCal3_quad [''v4'' \<mapsto> f32 2.6, ''v7'' \<mapsto> f32 2.1, ''v9'' \<mapsto> f32 1.8]
          (power_on_quad []))) (f32 2.1)) - 7.00\<bar> \<le> 1 / 10 ^ 4
   \<and> \<bar>val (calculatePH (snd (handleSetCal3_quad [''v4'' \<mapsto> f32 2.6, ''v7'' \<mapsto> f32 2.1, ''v9'' \<mapsto> f32 1.8]
          (power_on_quad []))) (f32 1.8)) - 9.18\<bar> \<le> 1 / 10 ^ 4
   \<and> solveQuadraticFrom3Points_exact 1 1 2 4 3 9 = Some (1, 0, 0)
   \<and> (1::real) * 2 * 2 + 0 * 2 + 0 = 4"
proof -
  let ?rq = "[''v4'' \<mapsto> f32 2.6, ''v7'' \<mapsto> f32 2.1, ''v9'' \<mapsto> f32 1.8]"
  have ex: "solveQuadraticFrom3Points_exact 1 1 2 4 3 9 = Some (1, 0, 0)"
    by (simp add: solveQuadraticFrom3Points_exact_def Let_def)
  note th = quadratic_interpolates [of 1 1 2 4 3 9 1 0 0 ?rq "power_on_quad []" 0]
  from th ex have pt: "(1::real) * 2 * 2 + 0 * 2 + 0 = 4"
    by blast
  from th have "fst (handleSetCal3_quad ?rq (power_on_quad [])) = Reply200
    \<and> useQuadratic (snd (handleSetCal3_quad ?rq (power_on_quad [])))"
    by blast
  with th ex pt show ?thesis by blast
qed

text \<open>
  C9 as the specification states it has every accepted quadratic fit pass through its
  control points within \<open>10\<^sup>-\<^sup>4\<close> in floating point. The voltages 2.15 V, 2.10 V and
  2.05 V pass every check of the handler and of the solver, and the quadratic they leave
  gives 6.99884033203125 at 2.10 V.
\<close>

theorem quadratic_interpolates_counterexample:
  "fst (handleSetCal3_quad [''v4'' \<mapsto> f32 2.15, ''v7'' \<mapsto> f32 2.10, ''v9'' \<mapsto> f32 2.05]
          (power_on_quad [])) = Reply200
   \<and> solveQuadraticFrom3Points (f32 2.15) PH4 (f32 2.10) PH7 (f32 2.05) PH9 \<noteq> None
   \<and> val (calculatePH (snd (handleSetCal3_quad
          [''v4'' \<mapsto> f32 2.15, ''v7'' \<mapsto> f32 2.10, ''v9'' \<mapsto> f32 2.05] (power_on_quad [])))
          (f32 2.10)) = 6.99884033203125
   \<and> 1 / 10 ^ 4 < \<bar>val (calculatePH (snd (handleSetCal3_quad
          [''v4'' \<mapsto> f32 2.15, ''v7'' \<mapsto> f32 2.10, ''v9'' \<mapsto> f32 2.05] (power_on_quad [])))
          (f32 2.10)) - 7.00\<bar>"
proof -
  let ?rq = "[''v4'' \<mapsto> f32 2.15, ''v7'' \<mapsto> f32 2.10, ''v9'' \<mapsto> f32 2.05]"
  note sol = solve_Some_eq [where ?y1.0 = PH4 and ?y2.0 = PH7 and ?y3.0 = PH9,
      OF quad_close(7) quad_close(8) quad_close(9)]
  note acc = handleSetCal3_quad_accepts [OF quad_close(1) quad_close(2)
      quad_close(3) quad_close(4) quad_close(5) quad_close(6) sol]
  have a: "fst (handleSetCal3_quad ?rq (power_on_quad [])) = Reply200"
    unfolding acc by simp
  have b: "solveQuadraticFrom3Points (f32 2.15) PH4 (f32 2.10) PH7 (f32 2.05) PH9 \<noteq> None"
    unfolding sol by simp
  have c: "val (calculatePH (snd (handleSetCal3_quad ?rq (power_on_quad []))) (f32 2.10))
      = 6.99884033203125"
    unfolding acc snd_conv calc_saveQuadratic quad_close(14) by simp
  have d: "1 / 10 ^ 4
      < \<bar>val (calculatePH (snd (handleSetCal3_quad ?rq (power_on_quad []))) (f32 2.10)) - 7.00\<bar>"
    unfolding acc snd_conv calc_saveQuadratic quad_close(14) by simp
  from a b c d show ?thesis by blast
qed

section \<open>Classification of refused requests\<close>

text \<open>
  Two floats whose magnitudes are not below \<^verbatim>\<open>0.01f\<close> have a float product whose
  magnitude is not below \<^verbatim>\<open>1e-9f\<close>: the exact product is at least the square of
  \<^verbatim>\<open>0.01f\<close>, about \<open>10\<^sup>-\<^sup>4\<close>, and rounding changes it by at most one part in
  \<open>2\<^sup>2\<^sup>4\<close>.
\<close>

lemma product_apart:
  fixes a b :: float
  assumes "\<not> \<bar>a\<bar> < f32 0.01" and "\<not> \<bar>b\<bar> < f32 0.01"
  shows "\<not> \<bar>a * b\<bar> < f32 (1 / 10 ^ 9)"
proof -
  let ?p = "val a * val b"
  let ?C = "5368709 / 536870912 :: real"
  have A: "?C \<le> \<bar>val a\<bar>"
    using assms(1) unfolding less_float_def val_abs f32_0_01 by simp
  have B: "?C \<le> \<bar>val b\<bar>"
    using assms(2) unfolding less_float_def val_abs f32_0_01 by simp
  have "?C * ?C \<le> \<bar>val a\<bar> * \<bar>val b\<bar>"
    using A B by (intro mult_mono) simp_all
  then have P: "?C * ?C \<le> \<bar>?p\<bar>"
    by (simp only: abs_mult)
  have "(2::real) powi (- 126) \<le> ?C * ?C"
    by (simp add: power_int_minus)
  then have big: "2 powi (- 126) \<le> \<bar>?p\<bar>"
    using P by linarith
  have "\<bar>rnd ?p - ?p\<bar> \<le> \<bar>?p\<bar> / 2 ^ 24"
    using big by (rule rnd_error)
  then have err: "\<bar>rnd ?p - ?p\<bar> \<le> \<bar>?p\<bar> / 16777216"
    by simp
  have low: "?C * ?C - ?C * ?C / 16777216 \<le> \<bar>rnd ?p\<bar>"
    using err P by linarith
  show ?thesis
    unfolding less_float_def val_abs val_times f32_1e_9
    using low by simp
qed

lemma solve_after_checks:
  assumes "\<not> \<bar>v4 - v7\<bar> < f32 0.01" "\<not> \<bar>v9 - v7\<bar> < f32 0.01" "\<not> \<bar>v9 - v4\<bar> < f32 0.01"
  shows "solveQuadraticFrom3Points v4 y1 v7 y2 v9 y3 \<noteq> None"
proof -
  have sym: "\<not> \<bar>v7 - v4\<bar> < f32 0.01" "\<not> \<bar>v7 - v9\<bar> < f32 0.01"
    "\<not> \<bar>v4 - v9\<bar> < f32 0.01"
    unfolding float_abs_diff_commute [of v7 v4] float_abs_diff_commute [of v7 v9]
      float_abs_diff_commute [of v4 v9]
    by (rule assms)+
  show ?thesis
    unfolding solve_None_iff
    using product_apart [OF assms(1) sym(3)] product_apart [OF sym(1) sym(2)]
      product_apart [OF assms(3) assms(2)]
    by blast
qed

lemma handleSetCal3_quad_reply:
  "fst (handleSetCal3_quad rq q) =
     (if \<not> hasArg rq ''v7'' \<or> \<not> hasArg rq ''v4'' \<or> \<not> hasArg rq ''v9''
      then Reply400 MissingArgument
      else if arg rq ''v7'' \<le> 0 \<or> arg rq ''v4'' \<le> 0 \<or> arg rq ''v9'' \<le> 0
      then Reply400 InvalidInput
      else if \<bar>arg rq ''v4'' - arg rq ''v7''\<bar> < f32 0.01
              \<or> \<bar>arg rq ''v9'' - arg rq ''v7''\<bar> < f32 0.01
              \<or> \<bar>arg rq ''v9'' - arg rq ''v4''\<bar> < f32 0.01
      then Reply400 DegenerateFit
      else Reply200)"
proof -
  have "fst (case solveQuadraticFrom3Points v4 PH4 v7 PH7 v9 PH9 of
               None \<Rightarrow> (Reply400 SingularFit, q)
             | Some (a, b, c) \<Rightarrow> (Reply200, saveQuadratic a b c q)) = Reply200"
    if "\<not> \<bar>v4 - v7\<bar> < f32 0.01" "\<not> \<bar>v9 - v7\<bar> < f32 0.01" "\<not> \<bar>v9 - v4\<bar> < f32 0.01"
    for v4 v7 v9
    using solve_after_checks [OF that, of PH4 PH7 PH9] by (auto split: option.split)
  then show ?thesis
    by (simp add: handleSetCal3_quad_def Let_def)
qed

text \<open>The solver on two identical voltages: one factor of a denominator is zero.\<close>

lemma float_zero_mult: "0 * a = (0::float)"
  by (simp add: float_eq_iff val_times)

lemma float_abs_zero: "\<bar>0\<bar> = (0::float)"
  by (simp add: float_eq_iff val_abs)

lemma solve_identical:
  "solveQuadraticFrom3Points x1 y1 x1 y2 x3 y3 = None"
  "solveQuadraticFrom3Points x1 y1 x2 y2 x1 y3 = None"
  "solveQuadraticFrom3Points x1 y1 x2 y2 x2 y3 = None"
  unfolding solve_None_iff float_self_cancel float_zero_mult float_mult_zero float_abs_zero
  using routing_values(9) by blast+




section \<open>The trimmed mean\<close>

text \<open>
  The loop, as the float sum of the readings it has still to take, added one by one in
  the order they are read, and their running extremes.
\<close>

lemma sample_loop_eq:
  "sample_loop N src i (sm, mn, mx) =
     (foldl (+) sm (map src [i..<N]), fold min (map src [i..<N]) mn,
      fold max (map src [i..<N]) mx)"
proof (induction k \<equiv> "N - i" arbitrary: i sm mn mx)
  case 0
  then have "\<not> i < N" by simp
  then show ?case by (subst sample_loop.simps) simp
next
  case (Suc k)
  then have lt: "i < N" and k: "k = N - Suc i" by simp_all
  have upt: "[i..<N] = i # [Suc i..<N]"
    using lt by (rule upt_conv_Cons)
  have mn: "(if src i < mn then src i else mn) = min (src i) mn"
    by (auto simp add: min_def)
  have mx: "(if src i > mx then src i else mx) = max (src i) mx"
    by (auto simp add: max_def)
  have "sample_loop N src i (sm, mn, mx)
      = sample_loop N src (Suc i) (sm + src i, min (src i) mn, max (src i) mx)"
    using lt by (subst sample_loop.simps) (simp add: Let_def mn mx)
  also have "\<dots> = (foldl (+) (sm + src i) (map src [Suc i..<N]),
      fold min (map src [Suc i..<N]) (min (src i) mn),
      fold max (map src [Suc i..<N]) (max (src i) mx))"
    by (rule Suc.hyps(1) [OF k])
  finally show ?case
    by (simp add: upt)
qed

lemma fold_min_Min: "fold min xs (m::float) = Min (insert m (set xs))"
  using Min.set_eq_fold [of m xs] by simp

lemma fold_max_Max: "fold max xs (m::float) = Max (insert m (set xs))"
  using Max.set_eq_fold [of m xs] by simp

lemma trimmed_mean_eq:
  "trimmed_mean N src =
     (foldl (+) 0 (map src [0..<N]) - Min (insert (f32 (10 ^ 9)) (set (map src [0..<N])))
        - Max (insert (- f32 (10 ^ 9)) (set (map src [0..<N])))) / f32 (real N - 2)"
  by (simp add: trimmed_mean_def sample_loop_eq fold_min_Min fold_max_Max)

text \<open>
  The result when the readings meet the start values of the running extremes: the float
  sum of all readings, less the smallest and less the largest reading, divided by
  \<^verbatim>\<open>(float)(N - 2)\<close>.
\<close>

lemma trimmed_mean_formula:
  assumes count: "3 \<le> N"
    and lo: "\<exists>i<N. src i \<le> f32 (10 ^ 9)"
    and hi: "\<exists>i<N. - f32 (10 ^ 9) \<le> src i"
  shows "trimmed_mean N src
      = (foldl (+) 0 (map src [0..<N]) - Min (set (map src [0..<N]))
          - Max (set (map src [0..<N]))) / f32 (real N - 2)"
proof -
  define rs where "rs = map src [0..<N]"
  have len: "length rs = N"
    by (simp add: rs_def)
  with count have ne: "set rs \<noteq> {}"
    by auto
  from lo obtain i where i: "i < N" "src i \<le> f32 (10 ^ 9)" by blast
  from hi obtain j where j: "j < N" "- f32 (10 ^ 9) \<le> src j" by blast
  have "src i \<in> set rs" "src j \<in> set rs"
    using i(1) j(1) by (simp_all add: rs_def)
  then have "Min (set rs) \<le> src i" "src j \<le> Max (set rs)"
    by simp_all
  with i(2) j(2) have bounds: "Min (set rs) \<le> f32 (10 ^ 9)" "- f32 (10 ^ 9) \<le> Max (set rs)"
    by (blast intro: order_trans)+
  have "Min (insert (f32 (10 ^ 9)) (set rs)) = min (f32 (10 ^ 9)) (Min (set rs))"
    using ne by (intro Min_insert) simp_all
  also have "\<dots> = Min (set rs)"
    using bounds(1) by (rule min_absorb2)
  finally have mn: "Min (insert (f32 (10 ^ 9)) (set rs)) = Min (set rs)" .
  have "Max (insert (- f32 (10 ^ 9)) (set rs)) = max (- f32 (10 ^ 9)) (Max (set rs))"
    using ne by (intro Max_insert) simp_all
  also have "\<dots> = Max (set rs)"
    using bounds(2) by (rule max_absorb2)
  finally have mx: "Max (insert (- f32 (10 ^ 9)) (set rs)) = Max (set rs)" .
  show ?thesis
    unfolding trimmed_mean_eq rs_def [symmetric] mn mx ..
qed

text \<open>
  Taking one occurrence of the smallest and one occurrence of the largest value out of a
  list of at least two.
\<close>

lemma Max_in_remove1_Min:
  fixes xs :: "'a::linorder list"
  assumes "2 \<le> length xs"
  shows "Max (set xs) \<in> set (remove1 (Min (set xs)) xs)"
proof (cases "Max (set xs) = Min (set xs)")
  case False
  from assms have ne: "set xs \<noteq> {}" by auto
  have "Max (set xs) \<in> set xs"
    using ne by (intro Max_in) simp_all
  with False show ?thesis by simp
next
  case True
  from assms have ne: "set xs \<noteq> {}" by auto
  have min_in: "Min (set xs) \<in> set xs"
    using ne by (intro Min_in) simp_all
  have "length (remove1 (Min (set xs)) xs) = length xs - 1"
    using min_in by (simp add: length_remove1)
  with assms have "remove1 (Min (set xs)) xs \<noteq> []"
    by auto
  then obtain y where y: "y \<in> set (remove1 (Min (set xs)) xs)"
    by (cases "remove1 (Min (set xs)) xs") auto
  then have yin: "y \<in> set xs"
    using set_remove1_subset [of "Min (set xs)" xs] by blast
  have "Min (set xs) \<le> y" "y \<le> Max (set xs)"
    using yin by simp_all
  with True have "y = Max (set xs)" by simp
  with y show ?thesis by simp
qed

lemma sum_val_remove1:
  assumes "x \<in> set xs"
  shows "sum_list (map val (remove1 x xs)) = sum_list (map val xs) - val x"
  using sum_list_map_remove1 [OF assms, of val] by simp

text \<open>
  The float sum of readings between 0 V and 64 V, up to a total of 1280 V: every partial
  sum stays below \<open>2\<^sup>1\<^sup>1\<close>, so every addition is off by at most \<open>2\<^sup>-\<^sup>1\<^sup>4\<close>.
\<close>

lemma foldl_plus_error:
  fixes xs :: "float list"
  assumes "\<forall>x\<in>set xs. 0 \<le> val x \<and> val x \<le> 64"
    and "\<bar>val a - A\<bar> \<le> E" and "0 \<le> A"
    and "A + 64 * real (length xs) \<le> 1280"
    and "E + real (length xs) / 2 ^ 14 \<le> 1"
  shows "\<bar>val (foldl (+) a xs) - (A + sum_list (map val xs))\<bar> \<le> E + real (length xs) / 2 ^ 14"
  using assms
proof (induction xs arbitrary: a A E)
  case Nil
  then show ?case by simp
next
  case (Cons x xs)
  from Cons.prems(1) have x: "0 \<le> val x" "val x \<le> 64"
    and rest: "\<forall>y\<in>set xs. 0 \<le> val y \<and> val y \<le> 64"
    by simp_all
  from Cons.prems(4) have A: "A + 64 + 64 * real (length xs) \<le> 1280"
    by (simp add: algebra_simps)
  from Cons.prems(5) have E: "E + 1 / 2 ^ 14 + real (length xs) / 2 ^ 14 \<le> 1"
    by (simp add: field_simps)
  have len0: "0 \<le> real (length xs)" by simp
  have E1: "E \<le> 1"
    using E len0 by (simp add: field_simps)
  have A1: "A \<le> 1216"
    using A len0 by linarith
  have "\<bar>val a + val x\<bar> < 2048"
    using Cons.prems(2,3) x E1 A1 by linarith
  then have "\<bar>val a + val x\<bar> < 2 ^ 11"
    by simp
  then have "\<bar>rnd (val a + val x) - (val a + val x)\<bar> \<le> 2 ^ 11 / 2 ^ 25"
    by (rule rnd_error_below)
  then have r: "\<bar>rnd (val a + val x) - (val a + val x)\<bar> \<le> 1 / 16384"
    by simp
  have "\<bar>rnd (val a + val x) - (A + val x)\<bar> \<le> E + 1 / 16384"
    using r Cons.prems(2) by linarith
  then have step: "\<bar>val (a + x) - (A + val x)\<bar> \<le> E + 1 / 2 ^ 14"
    unfolding val_plus by simp
  have "\<bar>val (foldl (+) (a + x) xs) - (A + val x + sum_list (map val xs))\<bar>
      \<le> E + 1 / 2 ^ 14 + real (length xs) / 2 ^ 14"
    using rest step _ _ E
  proof (rule Cons.IH)
    show "0 \<le> A + val x" using Cons.prems(3) x(1) by simp
    show "A + val x + 64 * real (length xs) \<le> 1280" using A x(2) by linarith
  qed
  then show ?case
    by (simp add: field_simps)
qed

text \<open>
  Twenty readings between 0 V and 64 V (the bus voltage register of the INA226 ends at
  40.96 V): the result is within \<open>10\<^sup>-\<^sup>4\<close> V of the exact mean of the eighteen
  readings that remain when one occurrence of the smallest and one occurrence of the
  largest value are taken out. The twenty additions and the two subtractions are each off
  by at most \<open>2\<^sup>-\<^sup>1\<^sup>4\<close> and the division by at most \<open>2\<^sup>-\<^sup>1\<^sup>8\<close>.
\<close>

lemma trimmed_mean_accuracy:
  assumes range: "\<forall>i<20. 0 \<le> src i \<and> src i \<le> f32 64"
  shows "(let rs = map src [0..<20];
              kept = remove1 (Max (set rs)) (remove1 (Min (set rs)) rs)
          in length kept = 18
           \<and> \<bar>val (trimmed_mean 20 src) - sum_list (map val kept) / 18\<bar> \<le> 1 / 10 ^ 4)"
proof -
  define rs where "rs = map src [0..<20]"
  define kept where "kept = remove1 (Max (set rs)) (remove1 (Min (set rs)) rs)"
  define S where "S = sum_list (map val rs)"
  have len: "length rs = 20"
    by (simp add: rs_def)
  then have ne: "set rs \<noteq> {}" and two: "2 \<le> length rs"
    by auto
  have in_range: "0 \<le> val x \<and> val x \<le> 64" if "x \<in> set rs" for x
  proof -
    from that obtain i where "i < 20" "x = src i"
      by (auto simp add: rs_def)
    with range have "0 \<le> x \<and> x \<le> f32 64"
      by blast
    then show ?thesis
      unfolding less_eq_float_def val_zero f32_64 .
  qed
  have mn_in: "Min (set rs) \<in> set rs"
    using ne by (intro Min_in) simp_all
  have mx_in': "Max (set rs) \<in> set (remove1 (Min (set rs)) rs)"
    by (rule Max_in_remove1_Min [OF two])
  have mx_in: "Max (set rs) \<in> set rs"
    using ne by (intro Max_in) simp_all
  have klen: "length kept = 18"
    unfolding kept_def using mn_in mx_in' len by (simp add: length_remove1)
  have ksum: "sum_list (map val kept) = S - val (Min (set rs)) - val (Max (set rs))"
    unfolding kept_def S_def
    by (simp add: sum_val_remove1 [OF mx_in'] sum_val_remove1 [OF mn_in])
  \<comment> \<open>the readings meet the start values of the running extremes\<close>
  have "src 0 \<in> set rs"
    by (simp add: rs_def)
  then have r0: "0 \<le> val (src 0)" "val (src 0) \<le> 64"
    using in_range by blast+
  have "src 0 \<le> f32 (10 ^ 9)"
    unfolding less_eq_float_def f32_1e9 using r0 by simp
  then have lo: "\<exists>i<20. src i \<le> f32 (10 ^ 9)"
    by (intro exI [of _ 0]) simp
  have "- f32 (10 ^ 9) \<le> src 0"
    unfolding less_eq_float_def val_uminus f32_1e9 using r0 by simp
  then have hi: "\<exists>i<20. - f32 (10 ^ 9) \<le> src i"
    by (intro exI [of _ 0]) simp
  have c: "(3::nat) \<le> 20"
    by simp
  have formula: "trimmed_mean 20 src
      = (foldl (+) 0 rs - Min (set rs) - Max (set rs)) / f32 (real 20 - 2)"
    unfolding rs_def by (rule trimmed_mean_formula [OF c lo hi])
  \<comment> \<open>the float sum\<close>
  have S0: "0 \<le> S"
    unfolding S_def using in_range by (intro sum_list_nonneg) auto
  have "S \<le> sum_list (map (\<lambda>x. 64) rs)"
    unfolding S_def using in_range by (intro sum_list_mono) auto
  then have S1: "S \<le> 1280"
    by (simp add: sum_list_triv len)
  have "\<bar>val (foldl (+) 0 rs) - (0 + sum_list (map val rs))\<bar> \<le> 0 + real (length rs) / 2 ^ 14"
    using in_range by (intro foldl_plus_error) (simp_all add: len)
  then have e1: "\<bar>val (foldl (+) 0 rs) - S\<bar> \<le> 20 / 16384"
    by (simp add: len S_def)
  \<comment> \<open>the two subtractions\<close>
  note mn = in_range [OF mn_in] and mx = in_range [OF mx_in]
  let ?T0 = "foldl (+) 0 rs"
  let ?T1 = "?T0 - Min (set rs)"
  let ?T2 = "?T1 - Max (set rs)"
  have "\<bar>val ?T0 - val (Min (set rs))\<bar> < 2048"
    using e1 S0 S1 mn by linarith
  then have "\<bar>val ?T0 - val (Min (set rs))\<bar> < 2 ^ 11"
    by simp
  then have "\<bar>rnd (val ?T0 - val (Min (set rs))) - (val ?T0 - val (Min (set rs)))\<bar>
      \<le> 2 ^ 11 / 2 ^ 25"
    by (rule rnd_error_below)
  then have "\<bar>val ?T1 - (val ?T0 - val (Min (set rs)))\<bar> \<le> 1 / 16384"
    by (simp add: val_minus)
  with e1 have e2: "\<bar>val ?T1 - (S - val (Min (set rs)))\<bar> \<le> 21 / 16384"
    by linarith
  have "\<bar>val ?T1 - val (Max (set rs))\<bar> < 2048"
    using e2 S0 S1 mn mx by linarith
  then have "\<bar>val ?T1 - val (Max (set rs))\<bar> < 2 ^ 11"
    by simp
  then have "\<bar>rnd (val ?T1 - val (Max (set rs))) - (val ?T1 - val (Max (set rs)))\<bar>
      \<le> 2 ^ 11 / 2 ^ 25"
    by (rule rnd_error_below)
  then have "\<bar>val ?T2 - (val ?T1 - val (Max (set rs)))\<bar> \<le> 1 / 16384"
    by (simp add: val_minus)
  with e2 have e3: "\<bar>val ?T2 - (S - val (Min (set rs)) - val (Max (set rs)))\<bar> \<le> 22 / 16384"
    by linarith
  \<comment> \<open>the division\<close>
  have "\<bar>val ?T2\<bar> < 2304"
    using e3 S0 S1 mn mx by linarith
  then have "\<bar>val ?T2 / 18\<bar> < 2 ^ 7"
    by simp
  then have "\<bar>rnd (val ?T2 / 18) - val ?T2 / 18\<bar> \<le> 2 ^ 7 / 2 ^ 25"
    by (rule rnd_error_below)
  then have "\<bar>val (?T2 / f32 (real 20 - 2)) - val ?T2 / 18\<bar> \<le> 1 / 262144"
    unfolding val_divide f32_N_18 by simp
  then have e4: "\<bar>val (trimmed_mean 20 src) - val ?T2 / 18\<bar> \<le> 1 / 262144"
    unfolding formula .
  have "\<bar>val ?T2 / 18 - (S - val (Min (set rs)) - val (Max (set rs))) / 18\<bar> \<le> 22 / 16384 / 18"
    using e3 by (simp add: field_simps flip: diff_divide_distrib)
  with e4 have "\<bar>val (trimmed_mean 20 src) - (S - val (Min (set rs)) - val (Max (set rs))) / 18\<bar>
      \<le> 1 / 262144 + 22 / 16384 / 18"
    by linarith
  then have "\<bar>val (trimmed_mean 20 src) - sum_list (map val kept) / 18\<bar> \<le> 1 / 10 ^ 4"
    unfolding ksum by simp
  with klen show ?thesis
    unfolding Let_def rs_def [symmetric] kept_def [symmetric] by blast
qed

text \<open>
  C7, as the code has it. The sum is the float sum of all \<open>N\<close> readings, each addition
  rounded. The running minimum starts at \<^verbatim>\<open>1e9f\<close> and the running maximum at
  \<^verbatim>\<open>-1e9f\<close>, so they end as the smallest and the largest reading when some reading
  is at most \<^verbatim>\<open>1e9f\<close> and some reading is at least \<^verbatim>\<open>-1e9f\<close>, as every bus voltage
  is. Then, for every count \<open>N \<ge> 3\<close> and every such sequence of readings \<open>rs\<close>, the
  result is \<open>(sum - min - max) / (N - 2)\<close> in float arithmetic: the smallest value is
  subtracted once and the largest value is subtracted once, whichever readings share
  them, and both are readings of the sequence. \<^verbatim>\<open>readVoltageRawTrimmed\<close> is the case
  \<open>N = 20\<close>; on readings between 0 V and 64 V its result is within \<open>10\<^sup>-\<^sup>4\<close> V of the
  exact mean of the eighteen readings left when one occurrence of the smallest and one
  occurrence of the largest value are taken out, further occurrences of either staying in.
\<close>

theorem trimmed_mean_drops_one_min_one_max:
  assumes count: "3 \<le> N"
    and lo: "\<exists>i<N. src i \<le> f32 (10 ^ 9)"
    and hi: "\<exists>i<N. - f32 (10 ^ 9) \<le> src i"
  shows "(let rs = map src [0..<N]
          in trimmed_mean N src
               = (foldl (+) 0 rs - Min (set rs) - Max (set rs)) / f32 (real N - 2)
           \<and> Min (set rs) \<in> set rs \<and> Max (set rs) \<in> set rs
           \<and> (\<forall>x \<in> set rs. Min (set rs) \<le> x \<and> x \<le> Max (set rs))
           \<and> length rs = N)
       \<and> readVoltageRawTrimmed src = trimmed_mean 20 src
       \<and> ((\<forall>i<20. 0 \<le> src i \<and> src i \<le> f32 64) \<longrightarrow>
            (let rs = map src [0..<20];
                 kept = remove1 (Max (set rs)) (remove1 (Min (set rs)) rs)
             in length kept = 18
              \<and> \<bar>val (readVoltageRawTrimmed src) - sum_list (map val kept) / 18\<bar> \<le> 1 / 10 ^ 4))"
proof -
  define rs where "rs = map src [0..<N]"
  have len: "length rs = N"
    by (simp add: rs_def)
  with count have ne: "set rs \<noteq> {}"
    by auto
  have formula: "trimmed_mean N src
      = (foldl (+) 0 rs - Min (set rs) - Max (set rs)) / f32 (real N - 2)"
    unfolding rs_def using count lo hi by (rule trimmed_mean_formula)
  have mem: "Min (set rs) \<in> set rs" "Max (set rs) \<in> set rs"
    using ne by (simp_all add: Min_in Max_in)
  have ext: "\<forall>x \<in> set rs. Min (set rs) \<le> x \<and> x \<le> Max (set rs)"
    by simp
  have first: "(let rs = map src [0..<N]
          in trimmed_mean N src
               = (foldl (+) 0 rs - Min (set rs) - Max (set rs)) / f32 (real N - 2)
           \<and> Min (set rs) \<in> set rs \<and> Max (set rs) \<in> set rs
           \<and> (\<forall>x \<in> set rs. Min (set rs) \<le> x \<and> x \<le> Max (set rs))
           \<and> length rs = N)"
    unfolding Let_def rs_def [symmetric] using formula mem ext len by blast
  have r: "readVoltageRawTrimmed src = trimmed_mean 20 src"
    by (rule readVoltageRawTrimmed_def)
  have acc: "(\<forall>i<20. 0 \<le> src i \<and> src i \<le> f32 64) \<longrightarrow>
            (let rs = map src [0..<20];
                 kept = remove1 (Max (set rs)) (remove1 (Min (set rs)) rs)
             in length kept = 18
              \<and> \<bar>val (readVoltageRawTrimmed src) - sum_list (map val kept) / 18\<bar> \<le> 1 / 10 ^ 4)"
    unfolding r using trimmed_mean_accuracy [of src] by blast
  from first r acc show ?thesis by blast
qed

text \<open>
  Twenty readings with the smallest value 2.1 V twice and the largest value 2.5 V twice:
  the float sum of the twenty, less 2.1 once and 2.5 once, divided by 18. The exact mean
  of the eighteen readings left (one of 2.1 V, one of 2.5 V, sixteen of 2.3 V) is 2.3 V
  up to the rounding of the literals.
\<close>

lemma mean20:
  defines "x1 \<equiv> f32 2.1"
  defines "x2 \<equiv> f32 2.5"
  defines "x3 \<equiv> f32 2.3"
  shows "x1 \<le> x1"
    and "x1 \<le> x2"
    and "x1 \<le> x3"
    and "x1 \<le> x2"
    and "x2 \<le> x2"
    and "x3 \<le> x2"
    and "x1 \<le> f32 (10 ^ 9)"
    and "- f32 (10 ^ 9) \<le> x2"
    and "val ((0 + x1 + x1 + x2 + x2 + x3 + x3 + x3 + x3 + x3 + x3 + x3 + x3 + x3 + x3 + x3 + x3 + x3 + x3 + x3 + x3 - x1 - x2) / f32 (real 20 - 2)) = 4823449 / 2097152"
    and "0 \<le> x1"
    and "0 \<le> x2"
    and "0 \<le> x3"
    and "x1 \<le> f32 64"
    and "x2 \<le> f32 64"
    and "x3 \<le> f32 64"
    and "x1 < x2"
proof -
  have e1: "val x1 = 4404019 / 2097152"
    unfolding x1_def by (rule f32_2_1)
  have e2: "val x2 = 5 / 2"
    unfolding x2_def by (rule f32_2_5)
  have e3: "val x3 = 9646899 / 4194304"
    unfolding x3_def by (rule f32_2_3)
  have e4: "val (0 + x1) = 4404019 / 2097152"
    by (rule val_plusI [OF val_zero e1]) (rule rnd_up [where k = 1 and n = 8808038], simp_all)
  have e5: "val (0 + x1 + x1) = 4404019 / 1048576"
    by (rule val_plusI [OF e4 e1]) (rule rnd_up [where k = 2 and n = 8808038], simp_all)
  have e6: "val (0 + x1 + x1 + x2) = 7025459 / 1048576"
    by (rule val_plusI [OF e5 e2]) (rule rnd_up [where k = 2 and n = 14050918], simp_all)
  have e7: "val (0 + x1 + x1 + x2 + x2) = 9646899 / 1048576"
    by (rule val_plusI [OF e6 e2]) (rule rnd_up [where k = 3 and n = 9646899], simp_all)
  have e8: "val (0 + x1 + x1 + x2 + x2 + x3) = 23 / 2"
    by (rule val_plusI [OF e7 e3]) (rule rnd_up [where k = 3 and n = 12058624], simp_all)
  have e9: "val (0 + x1 + x1 + x2 + x2 + x3 + x3) = 14470349 / 1048576"
    by (rule val_plusI [OF e8 e3]) (rule rnd_up [where k = 3 and n = 14470349], simp_all)
  have e10: "val (0 + x1 + x1 + x2 + x2 + x3 + x3 + x3) = 8441037 / 524288"
    by (rule val_plusI [OF e9 e3]) (rule rnd_up [where k = 4 and n = 8441037], simp_all)
  have e11: "val (0 + x1 + x1 + x2 + x2 + x3 + x3 + x3 + x3) = 9646899 / 524288"
    by (rule val_plusI [OF e10 e3]) (rule rnd_up [where k = 4 and n = 9646899], simp_all)
  have e12: "val (0 + x1 + x1 + x2 + x2 + x3 + x3 + x3 + x3 + x3) = 10852761 / 524288"
    by (rule val_plusI [OF e11 e3]) (rule rnd_up [where k = 4 and n = 10852761], simp_all)
  have e13: "val (0 + x1 + x1 + x2 + x2 + x3 + x3 + x3 + x3 + x3 + x3) = 12058623 / 524288"
    by (rule val_plusI [OF e12 e3]) (rule rnd_up [where k = 4 and n = 12058623], simp_all)
  have e14: "val (0 + x1 + x1 + x2 + x2 + x3 + x3 + x3 + x3 + x3 + x3 + x3) = 13264485 / 524288"
    by (rule val_plusI [OF e13 e3]) (rule rnd_up [where k = 4 and n = 13264485], simp_all)
  have e15: "val (0 + x1 + x1 + x2 + x2 + x3 + x3 + x3 + x3 + x3 + x3 + x3 + x3) = 14470347 / 524288"
    by (rule val_plusI [OF e14 e3]) (rule rnd_up [where k = 4 and n = 14470347], simp_all)
  have e16: "val (0 + x1 + x1 + x2 + x2 + x3 + x3 + x3 + x3 + x3 + x3 + x3 + x3 + x3) = 15676209 / 524288"
    by (rule val_plusI [OF e15 e3]) (rule rnd_up [where k = 4 and n = 15676209], simp_all)
  have e17: "val (0 + x1 + x1 + x2 + x2 + x3 + x3 + x3 + x3 + x3 + x3 + x3 + x3 + x3 + x3) = 2110259 / 65536"
    by (rule val_plusI [OF e16 e3]) (rule rnd_up [where k = 5 and n = 8441036], simp_all)
  have e18: "val (0 + x1 + x1 + x2 + x2 + x3 + x3 + x3 + x3 + x3 + x3 + x3 + x3 + x3 + x3 + x3) = 9043967 / 262144"
    by (rule val_plusI [OF e17 e3]) (rule rnd_up [where k = 5 and n = 9043967], simp_all)
  have e19: "val (0 + x1 + x1 + x2 + x2 + x3 + x3 + x3 + x3 + x3 + x3 + x3 + x3 + x3 + x3 + x3 + x3) = 4823449 / 131072"
    by (rule val_plusI [OF e18 e3]) (rule rnd_up [where k = 5 and n = 9646898], simp_all)
  have e20: "val (0 + x1 + x1 + x2 + x2 + x3 + x3 + x3 + x3 + x3 + x3 + x3 + x3 + x3 + x3 + x3 + x3 + x3) = 10249829 / 262144"
    by (rule val_plusI [OF e19 e3]) (rule rnd_up [where k = 5 and n = 10249829], simp_all)
  have e21: "val (0 + x1 + x1 + x2 + x2 + x3 + x3 + x3 + x3 + x3 + x3 + x3 + x3 + x3 + x3 + x3 + x3 + x3 + x3) = 1356595 / 32768"
    by (rule val_plusI [OF e20 e3]) (rule rnd_up [where k = 5 and n = 10852760], simp_all)
  have e22: "val (0 + x1 + x1 + x2 + x2 + x3 + x3 + x3 + x3 + x3 + x3 + x3 + x3 + x3 + x3 + x3 + x3 + x3 + x3 + x3) = 11455691 / 262144"
    by (rule val_plusI [OF e21 e3]) (rule rnd_up [where k = 5 and n = 11455691], simp_all)
  have e23: "val (0 + x1 + x1 + x2 + x2 + x3 + x3 + x3 + x3 + x3 + x3 + x3 + x3 + x3 + x3 + x3 + x3 + x3 + x3 + x3 + x3) = 6029311 / 131072"
    by (rule val_plusI [OF e22 e3]) (rule rnd_up [where k = 5 and n = 12058622], simp_all)
  have e24: "val (0 + x1 + x1 + x2 + x2 + x3 + x3 + x3 + x3 + x3 + x3 + x3 + x3 + x3 + x3 + x3 + x3 + x3 + x3 + x3 + x3 - x1) = 1438515 / 32768"
    by (rule val_minusI [OF e23 e1]) (rule rnd_up [where k = 5 and n = 11508120], simp_all)
  have e25: "val (0 + x1 + x1 + x2 + x2 + x3 + x3 + x3 + x3 + x3 + x3 + x3 + x3 + x3 + x3 + x3 + x3 + x3 + x3 + x3 + x3 - x1 - x2) = 1356595 / 32768"
    by (rule val_minusI [OF e24 e2]) (rule rnd_up [where k = 5 and n = 10852760], simp_all)
  have e26: "val ((0 + x1 + x1 + x2 + x2 + x3 + x3 + x3 + x3 + x3 + x3 + x3 + x3 + x3 + x3 + x3 + x3 + x3 + x3 + x3 + x3 - x1 - x2) / f32 (real 20 - 2)) = 4823449 / 2097152"
    by (rule val_divideI [OF e25 f32_N_18]) (rule rnd_up [where k = 1 and n = 9646898], simp_all)
  have e27: "val (- f32 (10 ^ 9)) = - 1000000000"
    by (rule val_uminusI [OF f32_1e9]) simp
  show "x1 \<le> x1"
    unfolding less_eq_float_def e1 by simp
  show "x1 \<le> x2"
    unfolding less_eq_float_def e1 e2 by simp
  show "x1 \<le> x3"
    unfolding less_eq_float_def e1 e3 by simp
  show "x1 \<le> x2"
    unfolding less_eq_float_def e1 e2 by simp
  show "x2 \<le> x2"
    unfolding less_eq_float_def e2 by simp
  show "x3 \<le> x2"
    unfolding less_eq_float_def e3 e2 by simp
  show "x1 \<le> f32 (10 ^ 9)"
    unfolding less_eq_float_def e1 f32_1e9 by simp
  show "- f32 (10 ^ 9) \<le> x2"
    unfolding less_eq_float_def e27 e2 by simp
  show "val ((0 + x1 + x1 + x2 + x2 + x3 + x3 + x3 + x3 + x3 + x3 + x3 + x3 + x3 + x3 + x3 + x3 + x3 + x3 + x3 + x3 - x1 - x2) / f32 (real 20 - 2)) = 4823449 / 2097152"
    by (rule e26)
  show "0 \<le> x1"
    unfolding less_eq_float_def val_zero e1 by simp
  show "0 \<le> x2"
    unfolding less_eq_float_def val_zero e2 by simp
  show "0 \<le> x3"
    unfolding less_eq_float_def val_zero e3 by simp
  show "x1 \<le> f32 64"
    unfolding less_eq_float_def e1 f32_64 by simp
  show "x2 \<le> f32 64"
    unfolding less_eq_float_def e2 f32_64 by simp
  show "x3 \<le> f32 64"
    unfolding less_eq_float_def e3 f32_64 by simp
  show "x1 < x2"
    unfolding less_float_def e1 e2 by simp
qed

theorem trimmed_mean_drops_one_min_one_max_witness:
  "readVoltageRawTrimmed
     ((!) [f32 2.1, f32 2.1, f32 2.5, f32 2.5, f32 2.3, f32 2.3, f32 2.3, f32 2.3, f32 2.3,
           f32 2.3, f32 2.3, f32 2.3, f32 2.3, f32 2.3, f32 2.3, f32 2.3, f32 2.3, f32 2.3,
           f32 2.3, f32 2.3])
     = (foldl (+) 0
          [f32 2.1, f32 2.1, f32 2.5, f32 2.5, f32 2.3, f32 2.3, f32 2.3, f32 2.3, f32 2.3,
           f32 2.3, f32 2.3, f32 2.3, f32 2.3, f32 2.3, f32 2.3, f32 2.3, f32 2.3, f32 2.3,
           f32 2.3, f32 2.3] - f32 2.1 - f32 2.5) / f32 (real 20 - 2)
   \<and> val (readVoltageRawTrimmed
     ((!) [f32 2.1, f32 2.1, f32 2.5, f32 2.5, f32 2.3, f32 2.3, f32 2.3, f32 2.3, f32 2.3,
           f32 2.3, f32 2.3, f32 2.3, f32 2.3, f32 2.3, f32 2.3, f32 2.3, f32 2.3, f32 2.3,
           f32 2.3, f32 2.3])) = 2.299999713897705078125
   \<and> \<bar>val (readVoltageRawTrimmed
     ((!) [f32 2.1, f32 2.1, f32 2.5, f32 2.5, f32 2.3, f32 2.3, f32 2.3, f32 2.3, f32 2.3,
           f32 2.3, f32 2.3, f32 2.3, f32 2.3, f32 2.3, f32 2.3, f32 2.3, f32 2.3, f32 2.3,
           f32 2.3, f32 2.3]))
      - sum_list (map val
          [f32 2.1, f32 2.5, f32 2.3, f32 2.3, f32 2.3, f32 2.3, f32 2.3, f32 2.3, f32 2.3,
           f32 2.3, f32 2.3, f32 2.3, f32 2.3, f32 2.3, f32 2.3, f32 2.3, f32 2.3, f32 2.3]) / 18\<bar> \<le> 1 / 10 ^ 4"
proof -
  define x1 where "x1 = f32 2.1"
  define x2 where "x2 = f32 2.5"
  define x3 where "x3 = f32 2.3"
  define L where "L = [x1, x1, x2, x2, x3, x3, x3, x3, x3, x3, x3, x3, x3, x3, x3, x3, x3, x3,
    x3, x3]"
  define K where "K = [x1, x2, x3, x3, x3, x3, x3, x3, x3, x3, x3, x3, x3, x3, x3, x3, x3, x3]"
  note m = mean20 [folded x1_def x2_def x3_def]
  have len: "length L = 20"
    by (simp add: L_def)
  have rs: "map ((!) L) [0..<20] = L"
    using map_nth [of L] unfolding len .
  have set: "set L = {x1, x2, x3}"
    by (auto simp add: L_def)
  have lo: "\<exists>i<20. L ! i \<le> f32 (10 ^ 9)"
    using m(7) by (intro exI [of _ 0]) (simp add: L_def)
  have hi: "\<exists>i<20. - f32 (10 ^ 9) \<le> L ! i"
    using m(8) by (intro exI [of _ 2]) (simp add: L_def)
  have c: "(3::nat) \<le> 20"
    by simp
  have mn: "Min (set L) = x1"
    unfolding set using m(1) m(2) m(3) by (intro Min_eqI) auto
  have mx: "Max (set L) = x2"
    unfolding set using m(4) m(5) m(6) by (intro Max_eqI) auto
  have "\<forall>x \<in> set L. 0 \<le> x \<and> x \<le> f32 64"
    unfolding set using m(10) m(11) m(12) m(13) m(14) m(15) by blast
  then have range: "\<forall>i<20. 0 \<le> L ! i \<and> L ! i \<le> f32 64"
    using nth_mem [of _ L] unfolding len by blast
  have ne: "x2 \<noteq> x1"
    using m(16) by simp
  have "remove1 x2 (remove1 x1 L) = K"
    unfolding L_def K_def using ne by simp
  then have kept: "remove1 (Max (set L)) (remove1 (Min (set L)) L) = K"
    unfolding mn mx .
  note t = trimmed_mean_drops_one_min_one_max [of 20 "(!) L", OF c lo hi, unfolded Let_def rs]
  from t have f: "trimmed_mean 20 ((!) L)
      = (foldl (+) 0 L - Min (set L) - Max (set L)) / f32 (real 20 - 2)"
    by blast
  from t have g: "readVoltageRawTrimmed ((!) L) = trimmed_mean 20 ((!) L)"
    by blast
  from t range have "\<bar>val (readVoltageRawTrimmed ((!) L))
      - sum_list (map val (remove1 (Max (set L)) (remove1 (Min (set L)) L))) / 18\<bar> \<le> 1 / 10 ^ 4"
    by blast
  then have d: "\<bar>val (readVoltageRawTrimmed ((!) L)) - sum_list (map val K) / 18\<bar> \<le> 1 / 10 ^ 4"
    unfolding kept .
  have a: "readVoltageRawTrimmed ((!) L) = (foldl (+) 0 L - x1 - x2) / f32 (real 20 - 2)"
    unfolding g f mn mx by (rule refl)
  have fl: "foldl (+) 0 L = 0 + x1 + x1 + x2 + x2 + x3 + x3 + x3 + x3 + x3 + x3 + x3 + x3
      + x3 + x3 + x3 + x3 + x3 + x3 + x3 + x3"
    unfolding L_def by (simp only: foldl_Cons foldl_Nil)
  have b: "val (readVoltageRawTrimmed ((!) L)) = 2.299999713897705078125"
    unfolding a fl m(9) by simp
  from a b d show ?thesis
    unfolding L_def K_def x1_def x2_def x3_def by blast
qed

section \<open>The ADC build of the trimmed mean\<close>

text \<open>
  The other \<^verbatim>\<open>readVoltageRawTrimmed\<close> (\<^verbatim>\<open>USE_INA226\<close> set to 0) works on counts. In a
  list of at least two counts the smallest and the largest together are at most the sum,
  so the two subtractions from the \<^verbatim>\<open>uint32_t\<close> sum do not wrap; and up to 65536 counts
  of 16 bits sum to less than \<open>2\<^sup>3\<^sup>2\<close>.
\<close>

lemma extremes_le_sum:
  fixes ns :: "nat list"
  assumes "2 \<le> length ns"
  shows "Min (set ns) + Max (set ns) \<le> sum_list ns"
proof -
  from assms have ne: "set ns \<noteq> {}" by auto
  have min_in: "Min (set ns) \<in> set ns"
    using ne by (intro Min_in) simp_all
  note max_in = Max_in_remove1_Min [OF assms]
  have "sum_list ns = Min (set ns) + sum_list (remove1 (Min (set ns)) ns)"
    using sum_list_map_remove1 [OF min_in, of "\<lambda>y. y"] by simp
  also have "sum_list (remove1 (Min (set ns)) ns)
      = Max (set ns) + sum_list (remove1 (Max (set ns)) (remove1 (Min (set ns)) ns))"
    using sum_list_map_remove1 [OF max_in, of "\<lambda>y. y"] by simp
  finally show ?thesis by simp
qed

lemma sample_loop_adc_eq:
  "sample_loop_adc N adc i (sm, mn, mx) =
     (sm + of_nat (sum_list (map (\<lambda>k. unat (adc k)) [i..<N])),
      fold min (map adc [i..<N]) mn, fold max (map adc [i..<N]) mx)"
proof (induction k \<equiv> "N - i" arbitrary: i sm mn mx)
  case 0
  then have "\<not> i < N" by simp
  then show ?case by (subst sample_loop_adc.simps) simp
next
  case (Suc k)
  then have lt: "i < N" and k: "k = N - Suc i" by simp_all
  have upt: "[i..<N] = i # [Suc i..<N]"
    using lt by (rule upt_conv_Cons)
  have mn: "(if adc i < mn then adc i else mn) = min (adc i) mn"
    by (auto simp add: min_def)
  have mx: "(if adc i > mx then adc i else mx) = max (adc i) mx"
    by (auto simp add: max_def)
  have "sample_loop_adc N adc i (sm, mn, mx)
      = sample_loop_adc N adc (Suc i) (sm + ucast (adc i), min (adc i) mn, max (adc i) mx)"
    using lt by (subst sample_loop_adc.simps) (simp add: Let_def mn mx)
  also have "\<dots> = (sm + ucast (adc i) + of_nat (sum_list (map (\<lambda>k. unat (adc k)) [Suc i..<N])),
      fold min (map adc [Suc i..<N]) (min (adc i) mn),
      fold max (map adc [Suc i..<N]) (max (adc i) mx))"
    by (rule Suc.hyps(1) [OF k])
  finally show ?case
    by (simp add: upt add.assoc)
qed

lemma sum_unat_bound:
  "sum_list (map (\<lambda>k. unat (adc k :: 16 word)) ks) \<le> length ks * 65535"
proof (induction ks)
  case Nil
  show ?case by simp
next
  case (Cons k ks)
  have "unat (adc k) < 2 ^ 16"
    using unsigned_less [of "adc k"] by simp
  then have "unat (adc k) \<le> 65535" by simp
  with Cons show ?case by simp
qed

text \<open>
  With at least one count of at most 4095, as every count of the 12-bit converter is, the
  trimmed sum is the sum of the counts less one smallest and one largest count, an
  integer; it is converted to float, divided by \<^verbatim>\<open>(float)(N - 2)\<close> and scaled to
  volts, each operation rounded.
\<close>

lemma adc_counts:
  fixes adc :: "nat \<Rightarrow> 16 word"
  assumes count: "3 \<le> N" and small: "N \<le> 65536"
    and lo: "\<exists>i<N. adc i \<le> 4095"
  shows "trimmed_mean_adc N adc =
     f32 (real (sum_list (map (\<lambda>i. unat (adc i)) [0..<N])
            - Min (set (map (\<lambda>i. unat (adc i)) [0..<N]))
            - Max (set (map (\<lambda>i. unat (adc i)) [0..<N]))))
       / f32 (real N - 2) / ADC_MAX * ADC_VREF"
proof -
  define ws where "ws = map adc [0..<N]"
  define ns where "ns = map (\<lambda>i. unat (adc i)) [0..<N]"
  have ns_ws: "ns = map unat ws"
    by (simp add: ns_def ws_def)
  have len: "length ws = N" "length ns = N"
    by (simp_all add: ws_def ns_def)
  with count have ne: "set ws \<noteq> {}" and two: "2 \<le> length ns"
    by auto
  have mono: "mono (unat :: 16 word \<Rightarrow> nat)"
    by (rule monoI) (simp add: word_le_nat_alt)
  have set_ns: "set ns = unat ` set ws"
    by (simp add: ns_ws)
  \<comment> \<open>the running minimum and maximum\<close>
  from lo obtain i where i: "i < N" "adc i \<le> 4095" by blast
  have "adc i \<in> set ws"
    using i(1) by (simp add: ws_def)
  then have "Min (set ws) \<le> adc i" by simp
  then have le: "Min (set ws) \<le> 4095" using i(2) by (rule order_trans)
  have "Min (insert 4095 (set ws)) = min 4095 (Min (set ws))"
    using ne by (intro Min_insert) simp_all
  also have "\<dots> = Min (set ws)"
    using le by (rule min_absorb2)
  finally have mn: "fold min ws 4095 = Min (set ws)"
    using Min.set_eq_fold [of 4095 ws] by simp
  have "Max (insert 0 (set ws)) = max 0 (Max (set ws))"
    using ne by (intro Max_insert) simp_all
  also have "\<dots> = Max (set ws)"
    by (rule max_absorb2) simp
  finally have mx: "fold max ws 0 = Max (set ws)"
    using Max.set_eq_fold [of 0 ws] by simp
  have umn: "unat (Min (set ws)) = Min (set ns)"
    unfolding set_ns using mono ne by (intro mono_Min_commute) simp_all
  have umx: "unat (Max (set ws)) = Max (set ns)"
    unfolding set_ns using mono ne by (intro mono_Max_commute) simp_all
  \<comment> \<open>the sum does not wrap\<close>
  have "sum_list ns \<le> N * 65535"
    using sum_unat_bound [of adc "[0..<N]"] by (simp add: ns_def)
  also have "\<dots> \<le> 65536 * 65535"
    using small by simp
  finally have fits: "sum_list ns < 2 ^ 32"
    by simp
  have room: "Min (set ns) + Max (set ns) \<le> sum_list ns"
    by (rule extremes_le_sum [OF two])
  have "(of_nat (sum_list ns) :: 32 word) - ucast (Min (set ws)) - ucast (Max (set ws))
      = of_nat (sum_list ns) - of_nat (Min (set ns)) - of_nat (Max (set ns))"
    by (simp flip: umn umx)
  also have "\<dots> = of_nat (sum_list ns - Min (set ns) - Max (set ns))"
    using room by (simp add: of_nat_diff)
  finally have "unat ((of_nat (sum_list ns) :: 32 word) - ucast (Min (set ws)) - ucast (Max (set ws)))
      = (sum_list ns - Min (set ns) - Max (set ns)) mod 2 ^ 32"
    by (simp add: unat_of_nat)
  also have "\<dots> = sum_list ns - Min (set ns) - Max (set ns)"
    using fits by simp
  finally have trimmed: "unat ((of_nat (sum_list ns) :: 32 word) - ucast (Min (set ws))
      - ucast (Max (set ws))) = sum_list ns - Min (set ns) - Max (set ns)" .
  have loop: "sample_loop_adc N adc 0 (0, 4095, 0)
      = (of_nat (sum_list ns), Min (set ws), Max (set ws))"
    by (simp add: sample_loop_adc_eq ns_def ws_def [symmetric] mn mx)
  show ?thesis
    unfolding trimmed_mean_adc_def loop ns_def [symmetric] prod.case Let_def trimmed
    by (rule refl)
qed

text \<open>
  Twenty-five counts of 2000: the trimmed sum is 46000, its quotient by 23 is 2000, and
  the result is 1.61172163486480712890625 V.
\<close>

lemma adc_example_values:
  shows "val (f32 46000 / f32 (real 25 - 2) / ADC_MAX * ADC_VREF) = 13520101 / 8388608"
proof -
  have e1: "val (f32 46000 / f32 (real 25 - 2)) = 2000"
    by (rule val_divideI [OF f32_46000 f32_N_23]) (rule rnd_up [where k = 10 and n = 16384000], simp_all)
  have e2: "val (f32 46000 / f32 (real 25 - 2) / ADC_MAX) = 16388001 / 33554432"
    by (rule val_divideI [OF e1 val_ADC_MAX]) (rule rnd_down [where k = 2 and n = 16388001], simp_all)
  have e3: "val (f32 46000 / f32 (real 25 - 2) / ADC_MAX * ADC_VREF) = 13520101 / 8388608"
    by (rule val_timesI [OF e2 val_ADC_VREF]) (rule rnd_up [where k = 0 and n = 13520101], simp_all)
  show "val (f32 46000 / f32 (real 25 - 2) / ADC_MAX * ADC_VREF) = 13520101 / 8388608"
    by (rule e3)
qed

lemma adc_counts_example:
  "readVoltageRawTrimmed_adc (\<lambda>i. 2000) = f32 46000 / f32 (real 25 - 2) / ADC_MAX * ADC_VREF"
  "val (readVoltageRawTrimmed_adc (\<lambda>i. 2000)) = 1.61172163486480712890625"
proof -
  have rs: "map (\<lambda>i. 2000 :: nat) [0..<25] = replicate 25 2000"
    by (simp add: map_replicate_const)
  have lo: "\<exists>i<25::nat. (2000 :: 16 word) \<le> 4095"
    by (rule exI [of _ 0]) simp
  show a: "readVoltageRawTrimmed_adc (\<lambda>i. 2000)
      = f32 46000 / f32 (real 25 - 2) / ADC_MAX * ADC_VREF"
    unfolding readVoltageRawTrimmed_adc_def
    using adc_counts [of 25 "\<lambda>i. 2000", OF _ _ lo]
    by (simp add: rs sum_list_replicate)
  show "val (readVoltageRawTrimmed_adc (\<lambda>i. 2000)) = 1.61172163486480712890625"
    unfolding a adc_example_values by simp
qed

end
